(* ===== verification/Prelude.thy ===== *)
theory Prelude
  imports Main "HOL-Library.Word"
begin

text \<open>
  Shared vocabulary of the development: the C integer types as words of their width, C strings
  and byte buffers as byte lists, the little-endian memory image of an integer (the code runs on
  AArch64, and both ends of every socket write structs as memory images), results of calls that
  may fail to return, and generic lemmas on lists.

  Conventions.
  \<^item> \<open>tg_u8\<close>, \<open>tg_u16\<close>, \<open>tg_u32\<close>, \<open>tg_s16\<close>, \<open>tg_s32\<close>, \<open>tg_ulong\<close> of \<open>tg_common.h\<close> are words; a
    signed value is read with \<open>sint\<close>.
  \<^item> A C \<open>int\<close> that is a file descriptor, an index or a return code is an \<open>int\<close>.
  \<^item> A C string is the list of its bytes. A zero byte ends it; the end of the list is an implicit
    terminator, so that a literal needs no trailing zero and a full \<open>char\<close> array can be read.
    A null pointer is \<open>None\<close>.
  \<^item> A buffer with a fill count (\<open>monitor_buffer\<close>/\<open>monitor_used\<close> and its kin) is the list of its
    used bytes; the count is the length of the list.
\<close>

section \<open>Types\<close>

type_synonym byte = "8 word"
type_synonym u8 = "8 word"
type_synonym u16 = "16 word"
type_synonym u32 = "32 word"
type_synonym u64 = "64 word"
type_synonym s8 = "8 word"
type_synonym s16 = "16 word"
type_synonym s32 = "32 word"
type_synonym bytes = "byte list"
type_synonym cstring = "byte list"
type_synonym fd = int

text \<open>A literal of the source as the bytes of a C string.\<close>

definition lit :: "string \<Rightarrow> cstring" where
  "lit s = map of_char s"

lemma length_lit [simp]: "length (lit s) = length s"
  by (simp add: lit_def)

section \<open>Calls that may not return\<close>

text \<open>
  A call either returns or it does not: \<open>Blocks\<close> is a blocking system call for which the kernel
  has no answer, \<open>NullCall\<close> is a call through a null function pointer, \<open>OutOfFuel\<close> marks a loop of
  the model that was cut off (shown not to happen).
\<close>

datatype fault = Blocks | NullCall | OutOfFuel

fun bindr :: "'e + 'a \<Rightarrow> ('a \<Rightarrow> 'e + 'b) \<Rightarrow> 'e + 'b" where
  "bindr (Inl e) f = Inl e"
| "bindr (Inr x) f = f x"

lemma bindr_Inr [simp]: "bindr m Inr = m"
  by (cases m) auto

lemma bindr_eq_Inr: "bindr m f = Inr y \<longleftrightarrow> (\<exists>x. m = Inr x \<and> f x = Inr y)"
  by (cases m) auto

lemma bindr_eq_InrE:
  assumes "bindr m f = Inr y"
  obtains x where "m = Inr x" and "f x = Inr y"
  using assms by (auto simp: bindr_eq_Inr)

lemma bindr_split: "P (bindr m f) \<longleftrightarrow> (\<forall>e. m = Inl e \<longrightarrow> P (Inl e)) \<and> (\<forall>x. m = Inr x \<longrightarrow> P (f x))"
  by (cases m) auto

section \<open>Collections of facts\<close>

text \<open>
  \<open>wire\<close> collects the equations that evaluate encoders and decoders, \<open>frame\<close> the facts saying which
  fields an operation leaves alone.
\<close>

named_theorems wire
named_theorems frame

section \<open>Transition systems\<close>

text \<open>
  The interface every stateful component offers to its invariant proof: initial states, steps, and
  a predicate that holds initially and is kept by every step.
\<close>

locale transition_system =
  fixes init :: "'s \<Rightarrow> bool"
    and step :: "'s \<Rightarrow> 's \<Rightarrow> bool"
    and inv :: "'s \<Rightarrow> bool"
  assumes init_inv: "init s \<Longrightarrow> inv s"
    and step_inv: "inv s \<Longrightarrow> step s t \<Longrightarrow> inv t"
begin

lemma steps_inv: "step\<^sup>*\<^sup>* s t \<Longrightarrow> inv s \<Longrightarrow> inv t"
  by (induction rule: rtranclp_induct) (auto intro: step_inv)

lemma reachable_inv: "init s \<Longrightarrow> step\<^sup>*\<^sup>* s t \<Longrightarrow> inv t"
  using steps_inv init_inv by blast

lemma reachable_step_inv: "init s \<Longrightarrow> step\<^sup>*\<^sup>* s t \<Longrightarrow> step t u \<Longrightarrow> inv u"
  using reachable_inv step_inv by blast

end

section \<open>Little-endian memory images\<close>

unbundle bit_operations_syntax

primrec to_le :: "nat \<Rightarrow> 'a::len word \<Rightarrow> bytes" where
  "to_le 0 w = []"
| "to_le (Suc n) w = ucast w # to_le n (drop_bit 8 w)"

primrec of_le :: "bytes \<Rightarrow> 'a::len word" where
  "of_le [] = 0"
| "of_le (b # bs) = ucast b OR push_bit 8 (of_le bs)"

lemma length_to_le [simp]: "length (to_le n w) = n"
  by (induction n arbitrary: w) auto

lemma of_le_to_le_take_bit: "of_le (to_le n w) = take_bit (8 * n) w"
proof (induction n arbitrary: w)
  case 0
  show ?case by simp
next
  case (Suc n)
  have "of_le (to_le (Suc n) w) = ucast (ucast w :: byte) OR push_bit 8 (take_bit (8 * n) (drop_bit 8 w))"
    by (simp add: Suc.IH)
  also have "\<dots> = take_bit (8 * Suc n) w"
    by (rule bit_word_eqI)
       (auto simp: bit_or_iff bit_ucast_iff bit_push_bit_iff bit_take_bit_iff bit_drop_bit_eq
             dest: bit_imp_le_length)
  finally show ?case .
qed

lemma of_le_to_le:
  assumes "LENGTH('a) \<le> 8 * n"
  shows "of_le (to_le n w) = (w :: 'a::len word)"
  using assms by (simp add: of_le_to_le_take_bit take_bit_word_eq_self)

lemma to_le_of_le:
  assumes "8 * length bs \<le> LENGTH('a)"
  shows "to_le (length bs) (of_le bs :: 'a::len word) = bs"
  using assms
proof (induction bs)
  case Nil
  show ?case by simp
next
  case (Cons b bs)
  let ?r = "of_le bs :: 'a word"
  have low: "ucast (ucast b OR push_bit 8 ?r) = b"
    using Cons.prems
    by (intro bit_word_eqI) (auto simp: bit_or_iff bit_ucast_iff bit_push_bit_iff)
  have fits: "\<not> bit ?r n" if "LENGTH('a) - 8 \<le> n" for n
  proof -
    have "\<And>n. length bs * 8 \<le> n \<Longrightarrow> \<not> bit (of_le bs :: 'a word) n"
      by (induction bs) (auto simp: bit_or_iff bit_ucast_iff bit_push_bit_iff dest: bit_imp_le_length)
    moreover have "length bs * 8 \<le> n" using Cons.prems that by simp
    ultimately show ?thesis by blast
  qed
  have high: "drop_bit 8 (ucast b OR push_bit 8 ?r) = ?r"
  proof (rule bit_word_eqI)
    fix n assume "n < LENGTH('a)"
    show "bit (drop_bit 8 (ucast b OR push_bit 8 ?r)) n = bit ?r n"
      using fits [of n] by (cases "8 + n < LENGTH('a)")
        (auto simp: bit_drop_bit_eq bit_or_iff bit_ucast_iff bit_push_bit_iff dest: bit_imp_le_length)
  qed
  have "to_le (length (b # bs)) (of_le (b # bs) :: 'a word) = b # to_le (length bs) ?r"
    by (simp only: list.size add.right_neutral add_Suc_right of_le.simps to_le.simps low high)
  with Cons.IH Cons.prems show ?case by simp
qed

declare to_le.simps [simp del] of_le.simps [simp del]

section \<open>Slices of a struct\<close>

text \<open>\<open>field off n bs\<close> is the \<open>n\<close> bytes at offset \<open>off\<close> of a struct's memory image.\<close>

definition field :: "nat \<Rightarrow> nat \<Rightarrow> bytes \<Rightarrow> bytes" where
  "field off n bs = take n (drop off bs)"

lemma length_field: "off + n \<le> length bs \<Longrightarrow> length (field off n bs) = n"
  by (simp add: field_def)

lemma field_append_skip [simp]:
  "length xs \<le> off \<Longrightarrow> field off n (xs @ ys) = field (off - length xs) n ys"
  by (simp add: field_def)

lemma field_append_here [simp]:
  "length xs = n \<Longrightarrow> field 0 n (xs @ ys) = xs"
  by (simp add: field_def)

lemma field_all [simp]: "length xs = n \<Longrightarrow> field 0 n xs = xs"
  by (simp add: field_def)

lemma field_join: "field off n bs @ field (off + n) m bs = field off (n + m) bs"
  by (simp add: field_def take_add add.commute [of off n])

lemma field_join_at:
  "k = off + n \<Longrightarrow> field off n bs @ field k m bs = field off (n + m) bs"
  "k = off + n \<Longrightarrow> field off n bs @ field k m bs @ r = field off (n + m) bs @ r"
  by (simp_all add: field_join flip: append_assoc)

lemma to_le_of_le_field:
  assumes "off + n \<le> length bs" "8 * n \<le> LENGTH('a)"
  shows "to_le n (of_le (field off n bs) :: 'a::len word) = field off n bs"
  using to_le_of_le [of "field off n bs", where 'a = 'a] assms by (simp add: length_field)

text \<open>\<open>chunks n bs\<close> cuts a byte stream into its complete frames of \<open>n\<close> bytes.\<close>

function chunks :: "nat \<Rightarrow> bytes \<Rightarrow> bytes list" where
  "chunks n bs = (if n = 0 \<or> length bs < n then [] else take n bs # chunks n (drop n bs))"
  by pat_completeness auto
termination
  by (relation "measure (\<lambda>(n, bs). length bs)") auto

declare chunks.simps [simp del]

lemma chunks_short [simp]: "length bs < n \<Longrightarrow> chunks n bs = []"
  by (simp add: chunks.simps)

lemma chunks_frame: "0 < n \<Longrightarrow> length f = n \<Longrightarrow> chunks n (f @ bs) = f # chunks n bs"
  by (subst chunks.simps) simp

text \<open>What is left of a stream after its complete frames.\<close>

definition leftover :: "nat \<Rightarrow> bytes \<Rightarrow> bytes" where
  "leftover n bs = drop (n * (length bs div n)) bs"

lemma leftover_short [simp]: "length bs < n \<Longrightarrow> leftover n bs = bs"
  by (simp add: leftover_def)

lemma leftover_frame: "0 < n \<Longrightarrow> length f = n \<Longrightarrow> leftover n (f @ bs) = leftover n bs"
  by (auto simp: leftover_def div_add_self1)

lemma length_leftover: "0 < n \<Longrightarrow> length (leftover n bs) < n"
  by (simp add: leftover_def minus_mult_div_eq_mod)

lemma concat_chunks: "0 < n \<Longrightarrow> concat (chunks n bs) @ leftover n bs = bs"
proof (induction n bs rule: chunks.induct)
  case (1 n bs)
  show ?case
  proof (cases "length bs < n")
    case True
    then show ?thesis by simp
  next
    case False
    then have split: "bs = take n bs @ drop n bs" "length (take n bs) = n" by simp_all
    have "leftover n bs = leftover n (drop n bs)"
      using leftover_frame [of n "take n bs" "drop n bs"] split 1(2) by simp
    moreover have "chunks n bs = take n bs # chunks n (drop n bs)"
      using False 1(2) by (subst chunks.simps) simp
    moreover have "concat (chunks n (drop n bs)) @ leftover n (drop n bs) = drop n bs"
      using 1 False by simp
    ultimately show ?thesis by simp
  qed
qed

section \<open>Lists\<close>

lemma take_length_append [simp]: "length xs = n \<Longrightarrow> take n (xs @ ys) = xs"
  by simp

lemma drop_length_append [simp]: "length xs = n \<Longrightarrow> drop n (xs @ ys) = ys"
  by simp

end
