(* ===== verification/TgCommon.thy ===== *)
theory TgCommon
  imports Prelude
begin

text \<open>
  \<open>src/src/tg_common.h\<close>: the constants of the Linux input ABI the program uses, the string and
  buffer helpers every shared library of the project inlines, the \<open>ioctl\<close> request encoding, and
  the C structs of the input ABI as records.

  The numeric constants are input abbreviations, polymorphic because the code uses the same macro
  as an \<open>unsigned\<close> index and as a 16 bit event code.
\<close>

section \<open>Constants\<close>

abbreviation (input) TG_EV_SYN :: "'a::zero" where "TG_EV_SYN \<equiv> 0"
abbreviation (input) TG_EV_KEY :: "'a::numeral" where "TG_EV_KEY \<equiv> 0x01"
abbreviation (input) TG_EV_REL :: "'a::numeral" where "TG_EV_REL \<equiv> 0x02"
abbreviation (input) TG_EV_ABS :: "'a::numeral" where "TG_EV_ABS \<equiv> 0x03"
abbreviation (input) TG_EV_FF :: "'a::numeral" where "TG_EV_FF \<equiv> 0x15"
abbreviation (input) TG_SYN_REPORT :: "'a::zero" where "TG_SYN_REPORT \<equiv> 0"

abbreviation (input) TG_ABS_X :: "'a::zero" where "TG_ABS_X \<equiv> 0"
abbreviation (input) TG_ABS_Y :: "'a::numeral" where "TG_ABS_Y \<equiv> 0x01"
abbreviation (input) TG_ABS_Z :: "'a::numeral" where "TG_ABS_Z \<equiv> 0x02"
abbreviation (input) TG_ABS_RX :: "'a::numeral" where "TG_ABS_RX \<equiv> 0x03"
abbreviation (input) TG_ABS_RY :: "'a::numeral" where "TG_ABS_RY \<equiv> 0x04"
abbreviation (input) TG_ABS_RZ :: "'a::numeral" where "TG_ABS_RZ \<equiv> 0x05"
abbreviation (input) TG_ABS_HAT0X :: "'a::numeral" where "TG_ABS_HAT0X \<equiv> 0x10"
abbreviation (input) TG_ABS_HAT0Y :: "'a::numeral" where "TG_ABS_HAT0Y \<equiv> 0x11"
abbreviation (input) TG_ABS_MAX :: "'a::numeral" where "TG_ABS_MAX \<equiv> 0x3f"

abbreviation (input) TG_BTN_SOUTH :: "'a::numeral" where "TG_BTN_SOUTH \<equiv> 0x130"
abbreviation (input) TG_BTN_EAST :: "'a::numeral" where "TG_BTN_EAST \<equiv> 0x131"
abbreviation (input) TG_BTN_C :: "'a::numeral" where "TG_BTN_C \<equiv> 0x132"
abbreviation (input) TG_BTN_NORTH :: "'a::numeral" where "TG_BTN_NORTH \<equiv> 0x133"
abbreviation (input) TG_BTN_WEST :: "'a::numeral" where "TG_BTN_WEST \<equiv> 0x134"
abbreviation (input) TG_BTN_TL :: "'a::numeral" where "TG_BTN_TL \<equiv> 0x136"
abbreviation (input) TG_BTN_TR :: "'a::numeral" where "TG_BTN_TR \<equiv> 0x137"
abbreviation (input) TG_BTN_SELECT :: "'a::numeral" where "TG_BTN_SELECT \<equiv> 0x13a"
abbreviation (input) TG_BTN_START :: "'a::numeral" where "TG_BTN_START \<equiv> 0x13b"
abbreviation (input) TG_BTN_MODE :: "'a::numeral" where "TG_BTN_MODE \<equiv> 0x13c"
abbreviation (input) TG_BTN_THUMBL :: "'a::numeral" where "TG_BTN_THUMBL \<equiv> 0x13d"
abbreviation (input) TG_BTN_THUMBR :: "'a::numeral" where "TG_BTN_THUMBR \<equiv> 0x13e"

abbreviation (input) TG_BTN_TRIGGER :: "'a::numeral" where "TG_BTN_TRIGGER \<equiv> 0x120"
abbreviation (input) TG_BTN_THUMB :: "'a::numeral" where "TG_BTN_THUMB \<equiv> 0x121"
abbreviation (input) TG_BTN_THUMB2 :: "'a::numeral" where "TG_BTN_THUMB2 \<equiv> 0x122"
abbreviation (input) TG_BTN_TOP :: "'a::numeral" where "TG_BTN_TOP \<equiv> 0x123"
abbreviation (input) TG_BTN_TOP2 :: "'a::numeral" where "TG_BTN_TOP2 \<equiv> 0x124"
abbreviation (input) TG_BTN_PINKIE :: "'a::numeral" where "TG_BTN_PINKIE \<equiv> 0x125"
abbreviation (input) TG_BTN_BASE :: "'a::numeral" where "TG_BTN_BASE \<equiv> 0x126"
abbreviation (input) TG_BTN_BASE2 :: "'a::numeral" where "TG_BTN_BASE2 \<equiv> 0x127"
abbreviation (input) TG_BTN_BASE3 :: "'a::numeral" where "TG_BTN_BASE3 \<equiv> 0x128"
abbreviation (input) TG_BTN_BASE4 :: "'a::numeral" where "TG_BTN_BASE4 \<equiv> 0x129"
abbreviation (input) TG_BTN_BASE5 :: "'a::numeral" where "TG_BTN_BASE5 \<equiv> 0x12a"
abbreviation (input) TG_BTN_BASE6 :: "'a::numeral" where "TG_BTN_BASE6 \<equiv> 0x12b"

abbreviation (input) TG_FF_RUMBLE :: "'a::numeral" where "TG_FF_RUMBLE \<equiv> 0x50"
abbreviation (input) TG_FF_PERIODIC :: "'a::numeral" where "TG_FF_PERIODIC \<equiv> 0x51"
abbreviation (input) TG_FF_CONSTANT :: "'a::numeral" where "TG_FF_CONSTANT \<equiv> 0x52"
abbreviation (input) TG_FF_SPRING :: "'a::numeral" where "TG_FF_SPRING \<equiv> 0x53"
abbreviation (input) TG_FF_FRICTION :: "'a::numeral" where "TG_FF_FRICTION \<equiv> 0x54"
abbreviation (input) TG_FF_DAMPER :: "'a::numeral" where "TG_FF_DAMPER \<equiv> 0x55"
abbreviation (input) TG_FF_INERTIA :: "'a::numeral" where "TG_FF_INERTIA \<equiv> 0x56"
abbreviation (input) TG_FF_RAMP :: "'a::numeral" where "TG_FF_RAMP \<equiv> 0x57"
abbreviation (input) TG_FF_TRIANGLE :: "'a::numeral" where "TG_FF_TRIANGLE \<equiv> 0x59"
abbreviation (input) TG_FF_SINE :: "'a::numeral" where "TG_FF_SINE \<equiv> 0x5a"
abbreviation (input) TG_FF_SAW_UP :: "'a::numeral" where "TG_FF_SAW_UP \<equiv> 0x5b"
abbreviation (input) TG_FF_SAW_DOWN :: "'a::numeral" where "TG_FF_SAW_DOWN \<equiv> 0x5c"
abbreviation (input) TG_FF_GAIN :: "'a::numeral" where "TG_FF_GAIN \<equiv> 0x60"

abbreviation (input) TG_BUS_USB :: "u16" where "TG_BUS_USB \<equiv> 3"
abbreviation (input) TG_JS_EVENT_BUTTON :: "u8" where "TG_JS_EVENT_BUTTON \<equiv> 0x01"
abbreviation (input) TG_JS_EVENT_AXIS :: "u8" where "TG_JS_EVENT_AXIS \<equiv> 0x02"
abbreviation (input) TG_JS_EVENT_INIT :: "u8" where "TG_JS_EVENT_INIT \<equiv> 0x80"
abbreviation (input) TG_XINPUT_VENDOR :: "u32" where "TG_XINPUT_VENDOR \<equiv> 0x045e"
abbreviation (input) TG_DINPUT_VENDOR :: "u16" where "TG_DINPUT_VENDOR \<equiv> 0x1209"
abbreviation (input) TG_DINPUT_PRODUCT :: "u16" where "TG_DINPUT_PRODUCT \<equiv> 1"

text \<open>
  Error numbers. The code compares \<open>errno\<close> with the named ones only; \<open>ErrOther\<close> stands for every
  other, of which only matters that it is positive and different from these.
\<close>

datatype errno =
    EINTR | EBADF | EAGAIN | ENODEV | EINVAL | EPIPE | ENAMETOOLONG | EPROTO | ECONNRESET
  | ErrOther nat

primrec err :: "errno \<Rightarrow> int" where
  "err EINTR = 4"
| "err EBADF = 9"
| "err EAGAIN = 11"
| "err ENODEV = 19"
| "err EINVAL = 22"
| "err EPIPE = 32"
| "err ENAMETOOLONG = 36"
| "err EPROTO = 71"
| "err ECONNRESET = 104"
| "err (ErrOther n) = 134 + int n"

lemma err_pos [simp]: "0 < err e" "0 \<le> err e" "\<not> err e \<le> 0" "err e \<noteq> 0" "- err e < 0" "\<not> 0 \<le> - err e"
  by (cases e; simp)+

definition TG_FAKE_DEVNODE :: cstring where
  "TG_FAKE_DEVNODE = lit ''/dev/input/event99''"

definition TG_FAKE_HAPTIC_ALIAS_NODE :: cstring where
  "TG_FAKE_HAPTIC_ALIAS_NODE = lit ''/dev/input/event31''"

definition TG_FAKE_JOYDEV_NODE :: cstring where
  "TG_FAKE_JOYDEV_NODE = lit ''/dev/input/js99''"

definition TG_DEFAULT_SOCKET :: cstring where
  "TG_DEFAULT_SOCKET = lit ''/data/data/com.termux/files/usr/tmp/termux-gamepad-evdev.sock''"

definition TG_XINPUT_NAME :: cstring where
  "TG_XINPUT_NAME = lit ''Termux Virtual Xbox Controller''"

definition TG_DINPUT_NAME :: cstring where
  "TG_DINPUT_NAME = lit ''Termux Virtual DirectInput Controller''"

section \<open>Structs of the input ABI\<close>

record tg_input_event =
  ie_sec :: u64
  ie_usec :: u64
  ie_type :: u16
  ie_code :: u16
  ie_value :: s32

record tg_input_id =
  id_bustype :: u16
  id_vendor :: u16
  id_product :: u16
  id_version :: u16

record tg_input_absinfo =
  ai_value :: s32
  ai_minimum :: s32
  ai_maximum :: s32
  ai_fuzz :: s32
  ai_flat :: s32
  ai_resolution :: s32

record tg_js_event =
  js_time :: u32
  js_value :: s16
  js_type :: u8
  js_number :: u8

text \<open>
  \<open>struct tg_ff_effect\<close> keeps its union as the 32 bytes of \<open>storage\<close>; the members are the views
  below, at the offsets the C layout gives them.
\<close>

record tg_ff_effect =
  ff_type :: u16
  ff_id :: s16
  ff_direction :: u16
  ff_trigger_button :: u16
  ff_trigger_interval :: u16
  ff_replay_length :: u16
  ff_replay_delay :: u16
  ff_storage :: bytes

record tg_ff_condition_effect =
  co_right_saturation :: u16
  co_left_saturation :: u16
  co_right_coeff :: s16
  co_left_coeff :: s16
  co_deadband :: u16
  co_center :: s16

definition u_rumble_strong :: "tg_ff_effect \<Rightarrow> u16" where
  "u_rumble_strong e = of_le (field 0 2 (ff_storage e))"

definition u_rumble_weak :: "tg_ff_effect \<Rightarrow> u16" where
  "u_rumble_weak e = of_le (field 2 2 (ff_storage e))"

definition u_constant_level :: "tg_ff_effect \<Rightarrow> s16" where
  "u_constant_level e = of_le (field 0 2 (ff_storage e))"

definition u_periodic_magnitude :: "tg_ff_effect \<Rightarrow> s16" where
  "u_periodic_magnitude e = of_le (field 4 2 (ff_storage e))"

definition u_ramp_start :: "tg_ff_effect \<Rightarrow> s16" where
  "u_ramp_start e = of_le (field 0 2 (ff_storage e))"

definition u_ramp_end :: "tg_ff_effect \<Rightarrow> s16" where
  "u_ramp_end e = of_le (field 2 2 (ff_storage e))"

definition u_condition :: "nat \<Rightarrow> tg_ff_effect \<Rightarrow> tg_ff_condition_effect" where
  "u_condition i e =
     (let b = field (12 * i) 12 (ff_storage e)
      in \<lparr>co_right_saturation = of_le (field 0 2 b), co_left_saturation = of_le (field 2 2 b),
          co_right_coeff = of_le (field 4 2 b), co_left_coeff = of_le (field 6 2 b),
          co_deadband = of_le (field 8 2 b), co_center = of_le (field 10 2 b)\<rparr>)"

section \<open>String and buffer helpers\<close>

text \<open>\<open>cstr s\<close> is what a C string denotes: its bytes up to the first zero.\<close>

definition cstr :: "cstring \<Rightarrow> cstring" where
  "cstr s = takeWhile (\<lambda>b. b \<noteq> 0) s"

definition terminated :: "bytes \<Rightarrow> bool" where
  "terminated s \<longleftrightarrow> 0 \<in> set s"

fun strlen_from :: "cstring \<Rightarrow> nat" where
  "strlen_from [] = 0"
| "strlen_from (b # bs) = (if b = 0 then 0 else Suc (strlen_from bs))"

definition tg_strlen :: "cstring option \<Rightarrow> nat" where
  "tg_strlen s = (case s of None \<Rightarrow> 0 | Some bs \<Rightarrow> strlen_from bs)"

text \<open>The byte a pointer into a string reads; past the end it is the terminator.\<close>

fun char_at :: "cstring \<Rightarrow> byte" where
  "char_at [] = 0"
| "char_at (b # bs) = b"

fun streq_from :: "cstring \<Rightarrow> cstring \<Rightarrow> bool" where
  "streq_from (a # as) (b # bs) =
     (if a \<noteq> 0 \<and> b \<noteq> 0 \<and> a = b then streq_from as bs else a = 0 \<and> b = 0)"
| "streq_from as bs = (char_at as = 0 \<and> char_at bs = 0)"

definition tg_streq :: "cstring option \<Rightarrow> cstring option \<Rightarrow> bool" where
  "tg_streq a b = (case (a, b) of (Some x, Some y) \<Rightarrow> streq_from x y | _ \<Rightarrow> False)"

text \<open>The bytes \<open>tg_copy\<close> takes from its source when \<open>room\<close> of them fit before the terminator.\<close>

fun copy_from :: "nat \<Rightarrow> cstring \<Rightarrow> bytes" where
  "copy_from 0 src = []"
| "copy_from (Suc room) [] = []"
| "copy_from (Suc room) (b # bs) = (if b = 0 then [] else b # copy_from room bs)"

definition tg_copy :: "bytes \<Rightarrow> cstring option \<Rightarrow> nat \<Rightarrow> bytes" where
  "tg_copy dst src cap =
     (if cap = 0 then dst
      else let c = (case src of None \<Rightarrow> [] | Some s \<Rightarrow> copy_from (cap - 1) s)
           in c @ [0] @ drop (Suc (length c)) dst)"

definition tg_memzero :: "bytes \<Rightarrow> nat \<Rightarrow> bytes" where
  "tg_memzero p n = replicate n 0 @ drop n p"

definition tg_set_bit :: "bytes \<Rightarrow> nat \<Rightarrow> nat \<Rightarrow> bytes" where
  "tg_set_bit buf len b =
     (let byte = b div 8; off = b mod 8
      in if byte < len then buf[byte := buf ! byte OR push_bit off 1] else buf)"

text \<open>Reading a capability bitmap, as every evdev client does.\<close>

definition has_bit :: "bytes \<Rightarrow> nat \<Rightarrow> bool" where
  "has_bit buf b \<longleftrightarrow> b div 8 < length buf \<and> bit (buf ! (b div 8)) (b mod 8)"

lemma cstr_simps [simp]:
  "cstr [] = []"
  "cstr (b # bs) = (if b = 0 then [] else b # cstr bs)"
  by (simp_all add: cstr_def)

lemma strlen_from_cstr: "strlen_from s = length (cstr s)"
  by (induction s) auto

lemma char_at_eq_0: "char_at s = 0 \<longleftrightarrow> cstr s = []"
  by (cases s) auto

lemma streq_from_cstr: "streq_from a b \<longleftrightarrow> cstr a = cstr b"
  by (induction a b rule: streq_from.induct) (auto simp: char_at_eq_0 split: if_splits)

lemma copy_from_cstr: "copy_from n s = take n (cstr s)"
  by (induction n s rule: copy_from.induct) (auto simp: cstr_def)

lemma cstr_nonzero: "0 \<notin> set (cstr s)"
  by (auto simp: cstr_def dest: set_takeWhileD)

lemma cstr_id: "0 \<notin> set s \<Longrightarrow> cstr s = s"
  by (induction s) (auto simp: cstr_def)

lemma cstr_append_zero: "0 \<notin> set s \<Longrightarrow> cstr (s @ 0 # r) = s"
  by (induction s) (auto simp: cstr_def)

lemma cstr_cstr [simp]: "cstr (cstr s) = cstr s"
  by (simp add: cstr_id cstr_nonzero)

lemma tg_streq_Some: "tg_streq (Some a) (Some b) \<longleftrightarrow> cstr a = cstr b"
  by (simp add: tg_streq_def streq_from_cstr)

lemma tg_streq_None [simp]: "\<not> tg_streq None b" "\<not> tg_streq a None"
  by (auto simp: tg_streq_def split: option.splits)

lemma tg_copy_cstr:
  assumes "0 < cap"
  shows "cstr (tg_copy dst (Some src) cap) = take (cap - 1) (cstr src)"
proof -
  have "0 \<notin> set (take (cap - 1) (cstr src))"
    using cstr_nonzero in_set_takeD by fast
  with assms show ?thesis
    by (simp add: tg_copy_def copy_from_cstr Let_def cstr_append_zero)
qed

lemma length_tg_copy:
  assumes "cap \<le> length dst"
  shows "length (tg_copy dst src cap) = length dst"
proof -
  have "length (copy_from (cap - 1) s) \<le> cap - 1" for s
    by (simp add: copy_from_cstr)
  then have "length (copy_from (cap - 1) s) < length dst" if "0 < cap" for s
    using assms that by (metis One_nat_def Suc_pred le_imp_less_Suc order_less_le_trans)
  with assms show ?thesis
    by (auto simp: tg_copy_def Let_def Suc_le_eq split: option.splits)
qed

lemma tg_copy_outside:
  assumes "cap \<le> i" "i < length dst"
  shows "tg_copy dst src cap ! i = dst ! i"
proof (cases "cap = 0")
  case True
  then show ?thesis by (simp add: tg_copy_def)
next
  case False
  have "length (copy_from (cap - 1) s) \<le> cap - 1" for s
    by (simp add: copy_from_cstr)
  then have "length (copy_from (cap - 1) s) < i" for s
    using False assms by (metis One_nat_def Suc_pred neq0_conv le_imp_less_Suc order_less_le_trans)
  then have "length (copy_from (cap - 1) s) < i" "\<not> i < length (copy_from (cap - 1) s)" for s
    by (auto simp: not_less less_imp_le)
  with False assms show ?thesis
    by (auto simp: tg_copy_def Let_def nth_append nth_Cons' less_imp_le split: option.splits)
qed

lemma length_tg_set_bit [simp]: "length (tg_set_bit buf len b) = length buf"
  by (simp add: tg_set_bit_def Let_def)

lemma has_bit_tg_set_bit:
  assumes "len \<le> length buf"
  shows "has_bit (tg_set_bit buf len b) c \<longleftrightarrow> has_bit buf c \<or> (c = b \<and> b div 8 < len)"
proof -
  have "c = b \<longleftrightarrow> c div 8 = b div 8 \<and> c mod 8 = b mod 8"
    by (metis div_mult_mod_eq)
  with assms show ?thesis
    by (auto simp: has_bit_def tg_set_bit_def Let_def nth_list_update bit_or_iff bit_exp_iff)
qed

lemma has_bit_memzero: "has_bit (tg_memzero buf (length buf)) b \<longleftrightarrow> False"
  by (auto simp: has_bit_def tg_memzero_def)

text \<open>The C library's \<open>strncpy\<close>, \<open>strncmp\<close> (its result 0) and \<open>getenv\<close>.\<close>

definition strncpy :: "bytes \<Rightarrow> cstring \<Rightarrow> nat \<Rightarrow> bytes" where
  "strncpy dst src n = take n (cstr src @ replicate n 0) @ drop n dst"

definition strncmp_eq :: "cstring \<Rightarrow> cstring \<Rightarrow> nat \<Rightarrow> bool" where
  "strncmp_eq a b n \<longleftrightarrow> take n (cstr a) = take n (cstr b)"

type_synonym env = "string \<Rightarrow> cstring option"

lemma length_strncpy [simp]: "length (strncpy dst src n) = n + (length dst - n)"
  by (simp add: strncpy_def)

lemma cstr_strncpy:
  assumes "n < length dst" "dst ! n = 0"
  shows "cstr (strncpy dst src n) = take n (cstr src)"
proof (cases "length (cstr src) < n")
  case True
  then obtain m where "n - length (cstr src) = Suc m" by (metis Suc_diff_Suc)
  moreover from this have "Suc m \<le> n" by arith
  ultimately have "take n (cstr src @ replicate n 0) = cstr src @ 0 # replicate m 0"
    using True by simp
  with True show ?thesis by (simp add: strncpy_def cstr_append_zero cstr_nonzero)
next
  case False
  have "drop n dst = 0 # drop (Suc n) dst" using assms by (metis Cons_nth_drop_Suc)
  moreover have "0 \<notin> set (take n (cstr src))" using cstr_nonzero in_set_takeD by fast
  ultimately show ?thesis using False by (simp add: strncpy_def cstr_append_zero)
qed

lemma terminated_strncpy: "n < length dst \<Longrightarrow> dst ! n = 0 \<Longrightarrow> terminated (strncpy dst src n)"
  by (simp add: terminated_def strncpy_def flip: Cons_nth_drop_Suc)

section \<open>The ioctl request encoding\<close>

definition TG_IOC :: "u64 \<Rightarrow> u64 \<Rightarrow> u64 \<Rightarrow> u64 \<Rightarrow> u64" where
  "TG_IOC dir ty nr sz = push_bit 30 dir OR push_bit 8 ty OR push_bit 0 nr OR push_bit 16 sz"

definition ioc_nr :: "u64 \<Rightarrow> nat" where
  "ioc_nr req = unat (drop_bit 0 req AND 0xff)"

definition ioc_type :: "u64 \<Rightarrow> nat" where
  "ioc_type req = unat (drop_bit 8 req AND 0xff)"

definition ioc_size :: "u64 \<Rightarrow> nat" where
  "ioc_size req = unat (drop_bit 16 req AND (push_bit 14 1 - 1))"

lemma ioc_masks:
  "ioc_nr req = unat (take_bit 8 req)"
  "ioc_type req = unat (take_bit 8 (drop_bit 8 req))"
  "ioc_size req = unat (take_bit 14 (drop_bit 16 req))"
  by (simp_all add: ioc_nr_def ioc_type_def ioc_size_def take_bit_eq_mask mask_eq_exp_minus_1)

lemma ioc_fields:
  assumes "unat nr < 2 ^ 8" "unat ty < 2 ^ 8" "unat sz < 2 ^ 14"
  shows "ioc_nr (TG_IOC dir ty nr sz) = unat nr"
    and "ioc_type (TG_IOC dir ty nr sz) = unat ty"
    and "ioc_size (TG_IOC dir ty nr sz) = unat sz"
proof -
  have small: "\<not> bit w i" if "unat w < 2 ^ n" "n \<le> i" for w :: u64 and n i
  proof -
    have "take_bit n w = w"
      using that(1) by (simp add: word_unat_eq_iff unsigned_take_bit_eq take_bit_nat_eq_self)
    then show ?thesis using that(2) by (metis bit_take_bit_iff not_le)
  qed
  have "take_bit 8 (TG_IOC dir ty nr sz) = nr"
    by (rule bit_word_eqI)
       (use small [OF assms(1)] in
         \<open>auto simp: TG_IOC_def bit_take_bit_iff bit_or_iff bit_push_bit_iff not_le\<close>)
  then show "ioc_nr (TG_IOC dir ty nr sz) = unat nr" by (simp add: ioc_masks)
  have "take_bit 8 (drop_bit 8 (TG_IOC dir ty nr sz)) = ty"
    by (rule bit_word_eqI)
       (use small [OF assms(1)] small [OF assms(2)] in
         \<open>auto simp: TG_IOC_def bit_take_bit_iff bit_or_iff bit_push_bit_iff bit_drop_bit_eq not_le\<close>)
  then show "ioc_type (TG_IOC dir ty nr sz) = unat ty" by (simp add: ioc_masks)
  have "take_bit 14 (drop_bit 16 (TG_IOC dir ty nr sz)) = sz"
    by (rule bit_word_eqI)
       (use small [OF assms(1)] small [OF assms(2)] small [OF assms(3)] in
         \<open>auto simp: TG_IOC_def bit_take_bit_iff bit_or_iff bit_push_bit_iff bit_drop_bit_eq not_le\<close>)
  then show "ioc_size (TG_IOC dir ty nr sz) = unat sz" by (simp add: ioc_masks)
qed

section \<open>What the string helper promises\<close>

text \<open>\<open>tg_copy\<close> into a buffer with room for \<open>cap\<close> bytes leaves the longest prefix of the source that
  fits, always terminated inside the first \<open>cap\<close> bytes, keeps the size of the buffer and every byte
  from index \<open>cap\<close> on.\<close>

theorem tg_copy_bounded:
  assumes "0 < cap" "cap \<le> length dst" "cap \<le> i" "i < length dst"
  shows "cstr (tg_copy dst (Some src) cap) = take (cap - 1) (cstr src) \<and>
    length (tg_copy dst (Some src) cap) = length dst \<and>
    strlen_from (tg_copy dst (Some src) cap) < cap \<and>
    tg_copy dst (Some src) cap ! i = dst ! i"
  using assms tg_copy_cstr [of cap dst src] length_tg_copy [of cap dst "Some src"] tg_copy_outside [of cap i dst]
  by (simp add: strlen_from_cstr)

theorem tg_copy_bounded_witness: "cstr (tg_copy [1, 1, 1, 9] (Some (lit ''abcde'')) 3) = lit ''ab''"
  using tg_copy_bounded [of 3 "[1, 1, 1, 9]" 3 "lit ''abcde''"] by (simp add: lit_def)

text \<open>The decoding of an \<open>ioctl\<close> request number recovers the number, type and size that the encoding
  macro was given, for every value in the range of its field, whatever the direction.\<close>

theorem ioctl_request_decodes:
  assumes "unat nr < 2 ^ 8" "unat ty < 2 ^ 8" "unat sz < 2 ^ 14"
  shows "ioc_nr (TG_IOC d ty nr sz) = unat nr \<and> ioc_type (TG_IOC d ty nr sz) = unat ty \<and>
    ioc_size (TG_IOC d ty nr sz) = unat sz"
  using ioc_fields [OF assms] by simp

theorem ioctl_request_decodes_witness: "ioc_nr (TG_IOC 2 0x45 0x06 256) = 6"
  using ioctl_request_decodes [of "0x06" "0x45" 256 2] by simp

end
