(* ===== verification/Protocol.thy ===== *)
theory Protocol
  imports TgCommon
begin

text \<open>
  The messages that cross the bridge's Unix socket, \<open>src/src/tg_evdev_protocol.h\<close>: control
  messages from the clients, device descriptors and hotplug messages from the bridge, and the
  \<open>input_event\<close>/\<open>js_event\<close> records of \<open>src/src/tg_common.h\<close>. Each struct is a record with an
  encoder to its memory image (offsets and paddings of the C layout) and a decoder; the locale
  \<open>wire_format\<close> states what a codec promises, its extension \<open>exact_format\<close> that every buffer of
  the right size is the image of exactly one record, and the interpretations show that the five
  structs keep these promises. Their sizes are the ones the header's compile-time assertions
  demand (16, 88 and 96 bytes).
\<close>

section \<open>Constants\<close>

abbreviation (input) TG_CONTROL_MAGIC :: u32 where "TG_CONTROL_MAGIC \<equiv> 0x54474546"
abbreviation (input) TG_CONTROL_VERSION :: u16 where "TG_CONTROL_VERSION \<equiv> 3"
abbreviation (input) TG_CONTROL_RUMBLE :: u16 where "TG_CONTROL_RUMBLE \<equiv> 1"
abbreviation (input) TG_CONTROL_STOP_RUMBLE :: u16 where "TG_CONTROL_STOP_RUMBLE \<equiv> 2"
abbreviation (input) TG_CONTROL_QUERY_DESCRIPTOR :: u16 where "TG_CONTROL_QUERY_DESCRIPTOR \<equiv> 3"
abbreviation (input) TG_CONTROL_MONITOR :: u16 where "TG_CONTROL_MONITOR \<equiv> 4"
abbreviation (input) TG_DEVICE_MAGIC :: u32 where "TG_DEVICE_MAGIC \<equiv> 0x54474456"
abbreviation (input) TG_DEVICE_CAP_RUMBLE :: u8 where "TG_DEVICE_CAP_RUMBLE \<equiv> 1"
abbreviation (input) TG_INPUT_MODE_NONE :: u8 where "TG_INPUT_MODE_NONE \<equiv> 0"
abbreviation (input) TG_INPUT_MODE_XINPUT :: u8 where "TG_INPUT_MODE_XINPUT \<equiv> 1"
abbreviation (input) TG_INPUT_MODE_DINPUT :: u8 where "TG_INPUT_MODE_DINPUT \<equiv> 2"
abbreviation (input) TG_INPUT_MODE_XDINPUT :: u8 where "TG_INPUT_MODE_XDINPUT \<equiv> 3"
abbreviation (input) TG_HOTPLUG_MAGIC :: u32 where "TG_HOTPLUG_MAGIC \<equiv> 0x54474850"
abbreviation (input) TG_HOTPLUG_ADD :: u8 where "TG_HOTPLUG_ADD \<equiv> 1"
abbreviation (input) TG_HOTPLUG_REMOVE :: u8 where "TG_HOTPLUG_REMOVE \<equiv> 2"

section \<open>The messages\<close>

record tg_device_descriptor =
  dd_magic :: u32
  dd_version :: u16
  dd_present :: u8
  dd_capabilities :: u8
  dd_input_mode :: u8
  dd_pad0 :: bytes
  dd_vendor_id :: u32
  dd_product_id :: u32
  dd_device_id :: s32
  dd_name :: bytes

record tg_hotplug_message =
  hm_magic :: u32
  hm_version :: u16
  hm_action :: u8
  hm_pad0 :: u8
  hm_descriptor :: tg_device_descriptor

record tg_control_message =
  cm_magic :: u32
  cm_version :: u16
  cm_command :: u16
  cm_low_frequency :: u16
  cm_high_frequency :: u16
  cm_duration_ms :: u32

text \<open>The fixed array lengths of a descriptor.\<close>

definition wf_descriptor :: "tg_device_descriptor \<Rightarrow> bool" where
  "wf_descriptor d \<longleftrightarrow> length (dd_pad0 d) = 3 \<and> length (dd_name d) = 64"

definition wf_hotplug :: "tg_hotplug_message \<Rightarrow> bool" where
  "wf_hotplug m \<longleftrightarrow> wf_descriptor (hm_descriptor m)"

definition zero_descriptor :: tg_device_descriptor where
  "zero_descriptor = \<lparr>dd_magic = 0, dd_version = 0, dd_present = 0, dd_capabilities = 0,
     dd_input_mode = 0, dd_pad0 = replicate 3 0, dd_vendor_id = 0, dd_product_id = 0,
     dd_device_id = 0, dd_name = replicate 64 0\<rparr>"

section \<open>Memory images\<close>

definition enc_control :: "tg_control_message \<Rightarrow> bytes" where
  "enc_control m = to_le 4 (cm_magic m) @ to_le 2 (cm_version m) @ to_le 2 (cm_command m) @
     to_le 2 (cm_low_frequency m) @ to_le 2 (cm_high_frequency m) @ to_le 4 (cm_duration_ms m)"

definition dec_control :: "bytes \<Rightarrow> tg_control_message" where
  "dec_control b = \<lparr>cm_magic = of_le (field 0 4 b), cm_version = of_le (field 4 2 b),
     cm_command = of_le (field 6 2 b), cm_low_frequency = of_le (field 8 2 b),
     cm_high_frequency = of_le (field 10 2 b), cm_duration_ms = of_le (field 12 4 b)\<rparr>"

definition enc_descriptor :: "tg_device_descriptor \<Rightarrow> bytes" where
  "enc_descriptor d = to_le 4 (dd_magic d) @ to_le 2 (dd_version d) @ to_le 1 (dd_present d) @
     to_le 1 (dd_capabilities d) @ to_le 1 (dd_input_mode d) @ dd_pad0 d @
     to_le 4 (dd_vendor_id d) @ to_le 4 (dd_product_id d) @ to_le 4 (dd_device_id d) @ dd_name d"

definition dec_descriptor :: "bytes \<Rightarrow> tg_device_descriptor" where
  "dec_descriptor b = \<lparr>dd_magic = of_le (field 0 4 b), dd_version = of_le (field 4 2 b),
     dd_present = of_le (field 6 1 b), dd_capabilities = of_le (field 7 1 b),
     dd_input_mode = of_le (field 8 1 b), dd_pad0 = field 9 3 b,
     dd_vendor_id = of_le (field 12 4 b), dd_product_id = of_le (field 16 4 b),
     dd_device_id = of_le (field 20 4 b), dd_name = field 24 64 b\<rparr>"

definition enc_hotplug :: "tg_hotplug_message \<Rightarrow> bytes" where
  "enc_hotplug m = to_le 4 (hm_magic m) @ to_le 2 (hm_version m) @ to_le 1 (hm_action m) @
     to_le 1 (hm_pad0 m) @ enc_descriptor (hm_descriptor m)"

definition dec_hotplug :: "bytes \<Rightarrow> tg_hotplug_message" where
  "dec_hotplug b = \<lparr>hm_magic = of_le (field 0 4 b), hm_version = of_le (field 4 2 b),
     hm_action = of_le (field 6 1 b), hm_pad0 = of_le (field 7 1 b),
     hm_descriptor = dec_descriptor (field 8 88 b)\<rparr>"

definition enc_event :: "tg_input_event \<Rightarrow> bytes" where
  "enc_event e = to_le 8 (ie_sec e) @ to_le 8 (ie_usec e) @ to_le 2 (ie_type e) @
     to_le 2 (ie_code e) @ to_le 4 (ie_value e)"

definition dec_event :: "bytes \<Rightarrow> tg_input_event" where
  "dec_event b = \<lparr>ie_sec = of_le (field 0 8 b), ie_usec = of_le (field 8 8 b),
     ie_type = of_le (field 16 2 b), ie_code = of_le (field 18 2 b), ie_value = of_le (field 20 4 b)\<rparr>"

definition enc_js :: "tg_js_event \<Rightarrow> bytes" where
  "enc_js e = to_le 4 (js_time e) @ to_le 2 (js_value e) @ to_le 1 (js_type e) @ to_le 1 (js_number e)"

definition dec_js :: "bytes \<Rightarrow> tg_js_event" where
  "dec_js b = \<lparr>js_time = of_le (field 0 4 b), js_value = of_le (field 4 2 b),
     js_type = of_le (field 6 1 b), js_number = of_le (field 7 1 b)\<rparr>"

section \<open>What a codec promises\<close>

locale wire_format =
  fixes sz :: nat
    and wf :: "'a \<Rightarrow> bool"
    and enc :: "'a \<Rightarrow> bytes"
    and dec :: "bytes \<Rightarrow> 'a"
  assumes sz_pos: "0 < sz"
    and length_enc: "wf x \<Longrightarrow> length (enc x) = sz"
    and dec_enc: "wf x \<Longrightarrow> dec (enc x) = x"
begin

lemma enc_inject: "wf x \<Longrightarrow> wf y \<Longrightarrow> enc x = enc y \<longleftrightarrow> x = y"
  using dec_enc by metis

lemma length_stream: "(\<And>x. x \<in> set xs \<Longrightarrow> wf x) \<Longrightarrow> length (concat (map enc xs)) = sz * length xs"
  by (induction xs) (auto simp: length_enc)

lemma chunks_stream:
  assumes "\<And>x. x \<in> set xs \<Longrightarrow> wf x" "length rest < sz"
  shows "chunks sz (concat (map enc xs) @ rest) = map enc xs"
  using assms(1)
proof (induction xs)
  case Nil
  show ?case using assms(2) by simp
next
  case (Cons x xs)
  then show ?case by (simp add: chunks_frame length_enc sz_pos)
qed

lemma decode_stream:
  assumes "\<And>x. x \<in> set xs \<Longrightarrow> wf x" "length rest < sz"
  shows "map dec (chunks sz (concat (map enc xs) @ rest)) = xs"
  using assms by (simp add: chunks_stream dec_enc map_idI)

end

locale exact_format = wire_format +
  assumes wf_dec: "length b = sz \<Longrightarrow> wf (dec b)"
    and enc_dec: "length b = sz \<Longrightarrow> enc (dec b) = b"
begin

lemma dec_inject: "length a = sz \<Longrightarrow> length b = sz \<Longrightarrow> dec a = dec b \<longleftrightarrow> a = b"
  using enc_dec by metis

end

lemmas layout = of_le_to_le length_field to_le_of_le_field field_join_at

interpretation ctl: exact_format 16 "\<lambda>_. True" enc_control dec_control
  by unfold_locales (simp_all add: enc_control_def dec_control_def layout)

interpretation dev: exact_format 88 wf_descriptor enc_descriptor dec_descriptor
  by unfold_locales
     (simp_all add: enc_descriptor_def dec_descriptor_def wf_descriptor_def layout)

interpretation hot: exact_format 96 wf_hotplug enc_hotplug dec_hotplug
  by unfold_locales
     (simp_all add: enc_hotplug_def dec_hotplug_def wf_hotplug_def layout dev.length_enc dev.dec_enc
        dev.wf_dec dev.enc_dec)

interpretation evt: exact_format 24 "\<lambda>_. True" enc_event dec_event
  by unfold_locales (simp_all add: enc_event_def dec_event_def layout)

interpretation jse: exact_format 8 "\<lambda>_. True" enc_js dec_js
  by unfold_locales (simp_all add: enc_js_def dec_js_def layout)

end
