(* ===== verification/GamepadState.thy ===== *)
theory GamepadState
  imports Protocol
begin

text \<open>
  The data of the client library, \<open>src/include/termux_gamepad.h\<close> and the pure part of
  \<open>src/src/termux_gamepad.c\<close>: the public descriptor and state structs, how an input event changes
  the state snapshot (\<open>process_event\<close>), how a descriptor from the wire becomes a public one, and
  the backend switch.
\<close>

section \<open>The public structs\<close>

abbreviation (input) TERMUX_GAMEPAD_ABI_VERSION :: u32 where "TERMUX_GAMEPAD_ABI_VERSION \<equiv> 1"
abbreviation (input) TERMUX_GAMEPAD_CAP_RUMBLE :: u8 where "TERMUX_GAMEPAD_CAP_RUMBLE \<equiv> 1"
abbreviation (input) TERMUX_GAMEPAD_CAP_TRIGGER_RUMBLE :: u8 where "TERMUX_GAMEPAD_CAP_TRIGGER_RUMBLE \<equiv> 2"
abbreviation (input) INT16_MIN :: s16 where "INT16_MIN \<equiv> 0x8000"

datatype termux_gamepad_backend = BACKEND_AUTO | BACKEND_UDEV | BACKEND_SDL | BACKEND_OFF

record termux_gamepad_descriptor =
  td_abi_version :: u32
  td_struct_size :: u32
  td_present :: u8
  td_capabilities :: u8
  td_input_mode :: u8
  td_reserved0 :: u8
  td_vendor_id :: u32
  td_product_id :: u32
  td_device_id :: s32
  td_name :: bytes

record termux_gamepad_state =
  ts_axes :: "s16 list"
  ts_buttons :: u16
  ts_hat_x :: s8
  ts_hat_y :: s8
  ts_packet_number :: u32

definition reset_state :: termux_gamepad_state where
  "reset_state = \<lparr>ts_axes = [0, 0, 0, 0, INT16_MIN, INT16_MIN], ts_buttons = 0, ts_hat_x = 0,
     ts_hat_y = 0, ts_packet_number = 0\<rparr>"

section \<open>Descriptors\<close>

definition copy_descriptor :: "tg_device_descriptor \<Rightarrow> termux_gamepad_descriptor" where
  "copy_descriptor input =
     \<lparr>td_abi_version = TERMUX_GAMEPAD_ABI_VERSION, td_struct_size = 88,
      td_present = dd_present input,
      td_capabilities = (if dd_capabilities input AND TG_DEVICE_CAP_RUMBLE \<noteq> 0
        then TERMUX_GAMEPAD_CAP_RUMBLE OR TERMUX_GAMEPAD_CAP_TRIGGER_RUMBLE else 0),
      td_input_mode = dd_input_mode input, td_reserved0 = 0, td_vendor_id = dd_vendor_id input,
      td_product_id = dd_product_id input, td_device_id = dd_device_id input,
      td_name = strncpy (replicate 64 0) (dd_name input) 63\<rparr>"

definition descriptor_equal :: "termux_gamepad_descriptor \<Rightarrow> termux_gamepad_descriptor \<Rightarrow> bool" where
  "descriptor_equal a b \<longleftrightarrow>
     td_present a = td_present b \<and> td_capabilities a = td_capabilities b \<and>
     td_input_mode a = td_input_mode b \<and> td_vendor_id a = td_vendor_id b \<and>
     td_product_id a = td_product_id b \<and> td_device_id a = td_device_id b \<and>
     strncmp_eq (td_name a) (td_name b) 64"

text \<open>What every descriptor the library hands out satisfies.\<close>

definition wf_public :: "termux_gamepad_descriptor \<Rightarrow> bool" where
  "wf_public d \<longleftrightarrow> td_abi_version d = 1 \<and> td_struct_size d = 88 \<and> td_reserved0 d = 0 \<and>
     length (td_name d) = 64 \<and> terminated (td_name d)"

lemma td_name_copy: "cstr (td_name (copy_descriptor d)) = take 63 (cstr (dd_name d))"
  by (simp add: copy_descriptor_def cstr_strncpy)

lemma wf_copy_descriptor: "wf_public (copy_descriptor d)"
  by (simp add: wf_public_def copy_descriptor_def terminated_strncpy)

lemma descriptor_equal_refl [simp]: "descriptor_equal d d"
  by (simp add: descriptor_equal_def strncmp_eq_def)

lemma copy_name_canonical:
  "td_name (copy_descriptor d) = cstr (td_name (copy_descriptor d)) @
     replicate (64 - length (cstr (td_name (copy_descriptor d)))) 0"
proof -
  let ?c = "cstr (dd_name d)"
  have "td_name (copy_descriptor d) = take 63 (?c @ replicate 63 0) @ [0]"
    by (simp add: copy_descriptor_def strncpy_def)
  also have "take 63 (?c @ replicate 63 0) = take 63 ?c @ replicate (63 - length ?c) 0"
    by (simp add: min_def)
  also have "(take 63 ?c @ replicate (63 - length ?c) 0) @ [0] = take 63 ?c @ replicate (64 - length (take 63 ?c)) 0"
    by (simp add: replicate_append_same min_def flip: replicate_Suc, arith)
  finally show ?thesis unfolding td_name_copy .
qed

text \<open>On descriptors the library has made itself, the field-wise comparison is equality.\<close>

lemma descriptor_equal_copy:
  "descriptor_equal (copy_descriptor a) (copy_descriptor b) \<longleftrightarrow> copy_descriptor a = copy_descriptor b"
proof
  assume eq: "descriptor_equal (copy_descriptor a) (copy_descriptor b)"
  have "td_name (copy_descriptor a) = td_name (copy_descriptor b)"
  proof (subst copy_name_canonical, subst (3) copy_name_canonical)
    have "take 64 (take 63 (cstr (dd_name a))) = take 64 (take 63 (cstr (dd_name b)))"
      using eq by (simp only: descriptor_equal_def strncmp_eq_def td_name_copy)
    then have c: "cstr (td_name (copy_descriptor a)) = cstr (td_name (copy_descriptor b))"
      by (simp add: td_name_copy)
    show "cstr (td_name (copy_descriptor a)) @
        replicate (64 - length (cstr (td_name (copy_descriptor a)))) 0 =
      cstr (td_name (copy_descriptor b)) @
        replicate (64 - length (cstr (td_name (copy_descriptor b)))) 0"
      by (simp only: c)
  qed
  then show "copy_descriptor a = copy_descriptor b"
    using eq by (simp add: descriptor_equal_def copy_descriptor_def)
qed simp

section \<open>Events\<close>

definition button_index :: "u16 \<Rightarrow> int" where
  "button_index code =
     (if code = TG_BTN_SOUTH then 0 else if code = TG_BTN_EAST then 1
      else if code = TG_BTN_NORTH then 2 else if code = TG_BTN_WEST then 3
      else if code = TG_BTN_TL then 4 else if code = TG_BTN_TR then 5
      else if code = TG_BTN_SELECT then 6 else if code = TG_BTN_START then 7
      else if code = TG_BTN_THUMBL then 8 else if code = TG_BTN_THUMBR then 9
      else if code = TG_BTN_MODE then 10 else if code = TG_BTN_C then 11 else -1)"

text \<open>The effect of \<open>process_event\<close> on the snapshot; the value is a 32 bit signed integer.\<close>

definition state_event :: "termux_gamepad_state \<Rightarrow> tg_input_event \<Rightarrow> termux_gamepad_state" where
  "state_event st ev =
     (let v = ie_value ev; code = ie_code ev in
      if ie_type ev = TG_EV_ABS then
        (if code = TG_ABS_X then st\<lparr>ts_axes := (ts_axes st)[0 := ucast v]\<rparr>
         else if code = TG_ABS_Y then st\<lparr>ts_axes := (ts_axes st)[1 := ucast v]\<rparr>
         else if code = TG_ABS_RX then st\<lparr>ts_axes := (ts_axes st)[2 := ucast v]\<rparr>
         else if code = TG_ABS_RY then st\<lparr>ts_axes := (ts_axes st)[3 := ucast v]\<rparr>
         else if code = TG_ABS_Z then st\<lparr>ts_axes := (ts_axes st)[4 := ucast (v * 257 - 32768)]\<rparr>
         else if code = TG_ABS_RZ then st\<lparr>ts_axes := (ts_axes st)[5 := ucast (v * 257 - 32768)]\<rparr>
         else if code = TG_ABS_HAT0X then st\<lparr>ts_hat_x := ucast v\<rparr>
         else if code = TG_ABS_HAT0Y then st\<lparr>ts_hat_y := ucast v\<rparr>
         else st)
      else if ie_type ev = TG_EV_KEY then
        (let index = button_index code in
         if 0 \<le> index then
           (if v \<noteq> 0 then st\<lparr>ts_buttons := ts_buttons st OR push_bit (nat index) 1\<rparr>
            else st\<lparr>ts_buttons := ts_buttons st AND NOT (push_bit (nat index) 1)\<rparr>)
         else st)
      else if ie_type ev = TG_EV_SYN \<and> code = TG_SYN_REPORT then
        st\<lparr>ts_packet_number := ts_packet_number st + 1\<rparr>
      else st)"

definition is_report :: "tg_input_event \<Rightarrow> bool" where
  "is_report ev \<longleftrightarrow> ie_type ev = TG_EV_SYN \<and> ie_code ev = TG_SYN_REPORT"

text \<open>\<open>process_event\<close> with its report counter.\<close>

definition process_event ::
  "termux_gamepad_state \<Rightarrow> tg_input_event \<Rightarrow> int \<Rightarrow> termux_gamepad_state \<times> int" where
  "process_event st ev reports = (state_event st ev, if is_report ev then reports + 1 else reports)"

definition run_events :: "termux_gamepad_state \<Rightarrow> tg_input_event list \<Rightarrow> termux_gamepad_state" where
  "run_events st evs = foldl state_event st evs"

definition count_reports :: "tg_input_event list \<Rightarrow> int" where
  "count_reports evs = int (length (filter is_report evs))"

lemma run_events_simps [simp]:
  "run_events st [] = st"
  "run_events st (e # es) = run_events (state_event st e) es"
  "run_events st (es @ fs) = run_events (run_events st es) fs"
  by (simp_all add: run_events_def)

lemma count_reports_simps [simp]:
  "count_reports [] = 0"
  "count_reports (e # es) = (if is_report e then 1 else 0) + count_reports es"
  "count_reports (es @ fs) = count_reports es + count_reports fs"
  by (simp_all add: count_reports_def)

lemma count_reports_nonneg [simp]: "0 \<le> count_reports es"
  by (simp add: count_reports_def)

subsection \<open>What one event writes\<close>

text \<open>
  \<open>axis_write\<close>, \<open>button_write\<close>, \<open>hat_x_write\<close> and \<open>hat_y_write\<close> say which part of the snapshot an
  event addresses and the value it leaves there; everything else is a frame.
\<close>

definition axis_write :: "nat \<Rightarrow> tg_input_event \<Rightarrow> s16 option" where
  "axis_write i ev =
     (if ie_type ev \<noteq> TG_EV_ABS then None
      else if i = 0 \<and> ie_code ev = TG_ABS_X \<or> i = 1 \<and> ie_code ev = TG_ABS_Y
            \<or> i = 2 \<and> ie_code ev = TG_ABS_RX \<or> i = 3 \<and> ie_code ev = TG_ABS_RY
        then Some (ucast (ie_value ev))
      else if i = 4 \<and> ie_code ev = TG_ABS_Z \<or> i = 5 \<and> ie_code ev = TG_ABS_RZ
        then Some (ucast (ie_value ev * 257 - 32768))
      else None)"

definition button_write :: "nat \<Rightarrow> tg_input_event \<Rightarrow> bool option" where
  "button_write i ev =
     (if ie_type ev = TG_EV_KEY \<and> button_index (ie_code ev) = int i
      then Some (ie_value ev \<noteq> 0) else None)"

definition hat_x_write :: "tg_input_event \<Rightarrow> s8 option" where
  "hat_x_write ev =
     (if ie_type ev = TG_EV_ABS \<and> ie_code ev = TG_ABS_HAT0X then Some (ucast (ie_value ev)) else None)"

definition hat_y_write :: "tg_input_event \<Rightarrow> s8 option" where
  "hat_y_write ev =
     (if ie_type ev = TG_EV_ABS \<and> ie_code ev = TG_ABS_HAT0Y then Some (ucast (ie_value ev)) else None)"

fun last_write :: "(tg_input_event \<Rightarrow> 'a option) \<Rightarrow> 'a \<Rightarrow> tg_input_event list \<Rightarrow> 'a" where
  "last_write w x [] = x"
| "last_write w x (e # es) = last_write w (case w e of None \<Rightarrow> x | Some v \<Rightarrow> v) es"

lemma button_index_bound: "button_index c < 12"
  by (simp add: button_index_def)

lemma length_axes_event [simp]: "length (ts_axes (state_event st ev)) = length (ts_axes st)"
  by (simp add: state_event_def Let_def)

lemma axis_event:
  assumes "i < 6" "length (ts_axes st) = 6"
  shows "ts_axes (state_event st ev) ! i = (case axis_write i ev of None \<Rightarrow> ts_axes st ! i | Some v \<Rightarrow> v)"
  using assms by (auto simp: state_event_def axis_write_def Let_def nth_list_update)

lemma button_event:
  assumes "i < 16"
  shows "bit (ts_buttons (state_event st ev)) i =
    (case button_write i ev of None \<Rightarrow> bit (ts_buttons st) i | Some b \<Rightarrow> b)"
proof (cases "ie_type ev = TG_EV_KEY \<and> 0 \<le> button_index (ie_code ev)")
  case True
  then have eq: "nat (button_index (ie_code ev)) = i \<longleftrightarrow> button_index (ie_code ev) = int i" by auto
  show ?thesis using True assms
    by (auto simp: state_event_def button_write_def Let_def bit_or_iff bit_and_iff bit_not_iff
          bit_exp_iff eq)
next
  case False
  then have "ts_buttons (state_event st ev) = ts_buttons st"
    by (auto simp: state_event_def Let_def)
  with False show ?thesis by (auto simp: button_write_def)
qed

lemma hat_event:
  "ts_hat_x (state_event st ev) = (case hat_x_write ev of None \<Rightarrow> ts_hat_x st | Some v \<Rightarrow> v)"
  "ts_hat_y (state_event st ev) = (case hat_y_write ev of None \<Rightarrow> ts_hat_y st | Some v \<Rightarrow> v)"
  by (auto simp: state_event_def hat_x_write_def hat_y_write_def Let_def)

lemma packet_event:
  "ts_packet_number (state_event st ev) = ts_packet_number st + (if is_report ev then 1 else 0)"
  by (auto simp: state_event_def is_report_def Let_def)

lemma length_axes_run [simp]: "length (ts_axes (run_events st evs)) = length (ts_axes st)"
  by (induction evs arbitrary: st) auto

lemma run_axis:
  "i < 6 \<Longrightarrow> length (ts_axes st) = 6 \<Longrightarrow>
   ts_axes (run_events st evs) ! i = last_write (axis_write i) (ts_axes st ! i) evs"
  by (induction evs arbitrary: st) (auto simp: axis_event)

lemma run_button:
  "i < 16 \<Longrightarrow> bit (ts_buttons (run_events st evs)) i = last_write (button_write i) (bit (ts_buttons st) i) evs"
  by (induction evs arbitrary: st) (auto simp: button_event)

lemma run_hats:
  "ts_hat_x (run_events st evs) = last_write hat_x_write (ts_hat_x st) evs"
  "ts_hat_y (run_events st evs) = last_write hat_y_write (ts_hat_y st) evs"
  by (induction evs arbitrary: st) (auto simp: hat_event)

lemma run_packets: "ts_packet_number (run_events st evs) = ts_packet_number st + of_int (count_reports evs)"
  by (induction evs arbitrary: st) (auto simp: packet_event)

text \<open>A trigger position 0 .. 255 spreads over the whole signed 16 bit range.\<close>

lemma trigger_value:
  assumes "0 \<le> sint v" "sint v \<le> 255"
  shows "sint (ucast (v * 257 - 32768 :: s32) :: s16) = sint v * 257 - 32768"
proof -
  obtain n where v: "v = word_of_int n" and n: "0 \<le> n" "n \<le> 255"
  proof
    show "v = word_of_int (sint v)" by simp
  qed (use assms in auto)
  have s: "sint v = n" using v n by (simp add: signed_of_int signed_take_bit_int_eq_self)
  have "ucast (v * 257 - 32768 :: s32) = (word_of_int (n * 257 - 32768) :: s16)"
    unfolding v by transfer (simp add: take_bit_eq_mod mod_mod_cancel mod_simps)
  then show ?thesis
    using n s by (simp add: signed_of_int signed_take_bit_int_eq_self del: of_int_diff of_int_mult)
qed

section \<open>The backend switch\<close>

definition termux_gamepad_get_abi_version :: u32 where
  "termux_gamepad_get_abi_version = TERMUX_GAMEPAD_ABI_VERSION"

definition strcmp_eq :: "cstring \<Rightarrow> cstring \<Rightarrow> bool" where
  "strcmp_eq a b \<longleftrightarrow> cstr a = cstr b"

definition termux_gamepad_get_backend :: "env \<Rightarrow> termux_gamepad_backend" where
  "termux_gamepad_get_backend env =
     (case env ''TERMUX_GAMEPAD_BACKEND'' of
        None \<Rightarrow> BACKEND_AUTO
      | Some value \<Rightarrow>
          if char_at value = 0 \<or> strcmp_eq value (lit ''auto'') then BACKEND_AUTO
          else if strcmp_eq value (lit ''udev'') then BACKEND_UDEV
          else if strcmp_eq value (lit ''sdl'') then BACKEND_SDL
          else if strcmp_eq value (lit ''off'') then BACKEND_OFF
          else BACKEND_AUTO)"

end
