(* ===== verification/Kernel.thy ===== *)
theory Kernel
  imports TgCommon
begin

text \<open>
  The part of the operating system the program talks to: the process's table of file descriptors
  and the stream sockets behind them, as POSIX documents \<open>socket\<close>, \<open>connect\<close>, \<open>send\<close>, \<open>recv\<close>,
  \<open>fcntl\<close>, \<open>poll\<close> and \<open>close\<close>.

  What the outside world will do is data of the model: a socket carries the list of answers its
  future \<open>recv\<close> calls get (data in chunks of any size, an error, an end of stream) and the list of
  answers its future \<open>send\<close> calls get (short writes, errors, a full buffer with the result of the
  \<open>poll\<close> that follows). A theorem that holds for all such lists holds for every behaviour of the
  peer and of the kernel. An empty list of receive answers means that nothing is pending: a
  non-blocking call gets \<open>EAGAIN\<close>, a blocking one does not return. An empty list of send answers
  means that the kernel accepts everything. \<open>sent\<close> records the bytes the kernel accepted.
\<close>

section \<open>Descriptor tables\<close>

text \<open>The laws of a descriptor table: what the components below rely on.\<close>

locale fd_table =
  fixes lookup :: "'t \<Rightarrow> fd \<Rightarrow> 'a option"
    and alloc :: "'a \<Rightarrow> 't \<Rightarrow> fd \<times> 't"
    and update :: "fd \<Rightarrow> 'a \<Rightarrow> 't \<Rightarrow> 't"
    and release :: "fd \<Rightarrow> 't \<Rightarrow> 't"
  assumes lookup_nonneg: "lookup t f = Some s \<Longrightarrow> 0 \<le> f"
    and alloc_nonneg: "0 \<le> fst (alloc s t)"
    and alloc_fresh: "lookup t (fst (alloc s t)) = None"
    and alloc_lookup: "lookup (snd (alloc s t)) f = (if f = fst (alloc s t) then Some s else lookup t f)"
    and alloc_lowest: "0 \<le> f \<Longrightarrow> f < fst (alloc s t) \<Longrightarrow> lookup t f \<noteq> None"
    and update_lookup: "lookup (update f s t) g = (if g = f \<and> lookup t f \<noteq> None then Some s else lookup t g)"
    and release_lookup: "lookup (release f t) g = (if g = f then None else lookup t g)"
begin

lemma alloc_keeps: "lookup t f = Some s \<Longrightarrow> lookup (snd (alloc x t)) f = Some s"
  by (auto simp: alloc_lookup alloc_fresh)

lemma alloc_not_open: "lookup t f = Some s \<Longrightarrow> fst (alloc x t) \<noteq> f"
  using alloc_fresh by (metis option.distinct(1))

lemma release_alloc: "lookup (release (fst (alloc s t)) (snd (alloc s t))) = lookup t"
  by (rule ext) (simp add: release_lookup alloc_lookup alloc_fresh)

lemma lookup_neg: "f < 0 \<Longrightarrow> lookup t f = None"
  using lookup_nonneg by (metis not_Some_eq not_less)

end

text \<open>The table of a process: descriptors are indices, and the lowest free one is given out.\<close>

fun first_free :: "'a option list \<Rightarrow> nat" where
  "first_free [] = 0"
| "first_free (None # t) = 0"
| "first_free (Some s # t) = Suc (first_free t)"

definition fd_lookup :: "'a option list \<Rightarrow> fd \<Rightarrow> 'a option" where
  "fd_lookup t f = (if 0 \<le> f \<and> nat f < length t then t ! nat f else None)"

definition fd_alloc :: "'a \<Rightarrow> 'a option list \<Rightarrow> fd \<times> 'a option list" where
  "fd_alloc s t =
     (let i = first_free t in (int i, if i < length t then t[i := Some s] else t @ [Some s]))"

definition fd_update :: "fd \<Rightarrow> 'a \<Rightarrow> 'a option list \<Rightarrow> 'a option list" where
  "fd_update f s t = (case fd_lookup t f of None \<Rightarrow> t | Some _ \<Rightarrow> t[nat f := Some s])"

definition fd_release :: "fd \<Rightarrow> 'a option list \<Rightarrow> 'a option list" where
  "fd_release f t = (if 0 \<le> f \<and> nat f < length t then t[nat f := None] else t)"

lemma first_free_le: "first_free t \<le> length t"
  by (induction t rule: first_free.induct) auto

lemma first_free_None: "first_free t < length t \<Longrightarrow> t ! first_free t = None"
  by (induction t rule: first_free.induct) auto

lemma first_free_lowest: "i < first_free t \<Longrightarrow> t ! i \<noteq> None"
  by (induction t arbitrary: i rule: first_free.induct) (auto simp: nth_Cons split: nat.splits)

lemma fd_lookup_nonneg: "fd_lookup t f = Some s \<Longrightarrow> 0 \<le> f"
  by (auto simp: fd_lookup_def split: if_splits)

lemma fd_alloc_nonneg: "0 \<le> fst (fd_alloc s t)"
  by (simp add: fd_alloc_def Let_def)

lemma fd_alloc_fresh: "fd_lookup t (fst (fd_alloc s t)) = None"
  using first_free_None [of t] by (auto simp: fd_alloc_def fd_lookup_def Let_def)

lemma fd_alloc_lookup:
  "fd_lookup (snd (fd_alloc s t)) f = (if f = fst (fd_alloc s t) then Some s else fd_lookup t f)"
proof (cases "first_free t < length t")
  case True
  then show ?thesis by (auto simp: fd_alloc_def fd_lookup_def Let_def nth_list_update)
next
  case False
  then have "first_free t = length t" using first_free_le [of t] by simp
  then show ?thesis by (auto simp: fd_alloc_def fd_lookup_def Let_def nth_append)
qed

lemma fd_alloc_lowest: "0 \<le> f \<Longrightarrow> f < fst (fd_alloc s t) \<Longrightarrow> fd_lookup t f \<noteq> None"
  using first_free_lowest [of "nat f" t] first_free_le [of t]
  by (simp add: fd_alloc_def fd_lookup_def Let_def nat_less_iff)

lemma fd_update_lookup:
  "fd_lookup (fd_update f s t) g = (if g = f \<and> fd_lookup t f \<noteq> None then Some s else fd_lookup t g)"
  by (auto simp: fd_update_def fd_lookup_def nth_list_update split: option.splits)

lemma fd_release_lookup: "fd_lookup (fd_release f t) g = (if g = f then None else fd_lookup t g)"
  by (auto simp: fd_release_def fd_lookup_def nth_list_update)

interpretation fdt: fd_table fd_lookup fd_alloc fd_update fd_release
  by unfold_locales
     (fact fd_lookup_nonneg fd_alloc_nonneg fd_alloc_fresh fd_alloc_lookup fd_alloc_lowest
        fd_update_lookup fd_release_lookup)+

section \<open>Sockets\<close>

datatype poll_ans = PollReady | PollTimeout | PollErr errno

text \<open>\<open>Data []\<close> is the result 0 of \<open>recv\<close>: the peer has closed the stream.\<close>

datatype recv_ans = Data bytes | RecvErr errno

text \<open>\<open>SendErr e\<close> is a failure other than \<open>EAGAIN\<close>; \<open>SendAgain p\<close> is \<open>EAGAIN\<close>, where a following
  \<open>poll\<close> for writing gives \<open>p\<close>.\<close>

datatype send_ans = Wrote nat | SendErr errno | SendAgain poll_ans

record sock =
  peer :: cstring
  rx :: "recv_ans list"
  tx :: "send_ans list"
  sent :: bytes
  ctl :: "errno option"
  nonblock :: bool
  cloexec :: bool

definition blank_sock :: sock where
  "blank_sock = \<lparr>peer = [], rx = [], tx = [], sent = [], ctl = None, nonblock = False, cloexec = False\<rparr>"

text \<open>\<open>sock_recv n s\<close>: a \<open>recv\<close> of at most \<open>n\<close> bytes; \<open>None\<close> when nothing is pending. Data that does
  not fit stays in the stream.\<close>

definition sock_recv :: "nat \<Rightarrow> sock \<Rightarrow> recv_ans option \<times> sock" where
  "sock_recv n s =
     (case rx s of
        [] \<Rightarrow> (None, s)
      | RecvErr e # r \<Rightarrow> (Some (RecvErr e), s\<lparr>rx := r\<rparr>)
      | Data bs # r \<Rightarrow>
          if length bs \<le> n then (Some (Data bs), s\<lparr>rx := r\<rparr>)
          else (Some (Data (take n bs)), s\<lparr>rx := Data (drop n bs) # r\<rparr>))"

text \<open>\<open>sock_send bs s\<close>: a \<open>send\<close> of \<open>bs\<close>.\<close>

definition sock_send :: "bytes \<Rightarrow> sock \<Rightarrow> send_ans \<times> sock" where
  "sock_send bs s =
     (case tx s of
        [] \<Rightarrow> (Wrote (length bs), s\<lparr>sent := sent s @ bs\<rparr>)
      | Wrote n # r \<Rightarrow>
          (Wrote (min n (length bs)), s\<lparr>tx := r, sent := sent s @ take n bs\<rparr>)
      | a # r \<Rightarrow> (a, s\<lparr>tx := r\<rparr>))"

text \<open>How much is pending: every successful receive makes it smaller.\<close>

fun ans_weight :: "recv_ans \<Rightarrow> nat" where
  "ans_weight (Data bs) = Suc (length bs)"
| "ans_weight (RecvErr e) = 1"

definition rx_weight :: "sock \<Rightarrow> nat" where
  "rx_weight s = sum_list (map ans_weight (rx s))"

lemma sock_recv_weight:
  assumes "sock_recv n s = (Some a, s')" "a \<noteq> Data []"
  shows "rx_weight s' < rx_weight s"
  using assms
  by (auto simp: sock_recv_def rx_weight_def split: list.splits recv_ans.splits if_splits)

lemma sock_recv_length: "sock_recv n s = (Some (Data bs), s') \<Longrightarrow> length bs \<le> n"
  by (auto simp: sock_recv_def split: list.splits recv_ans.splits if_splits)

text \<open>The bytes in front of the first error or end of stream: what the peer has sent so far.\<close>

fun pending :: "recv_ans list \<Rightarrow> bytes" where
  "pending [] = []"
| "pending (RecvErr e # r) = (if e = EINTR then pending r else [])"
| "pending (Data bs # r) = (if bs = [] then [] else bs @ pending r)"

lemma sock_recv_pending:
  assumes "sock_recv n s = (Some (Data bs), s')" "bs \<noteq> []"
  shows "pending (rx s) = bs @ pending (rx s')"
  using assms
  by (auto simp: sock_recv_def split: list.splits recv_ans.splits if_splits)

text \<open>How the stream ends after these bytes: \<open>None\<close> when nothing more is known yet.\<close>

fun ending :: "recv_ans list \<Rightarrow> recv_ans option" where
  "ending [] = None"
| "ending (RecvErr e # r) = (if e = EINTR then ending r else Some (RecvErr e))"
| "ending (Data bs # r) = (if bs = [] then Some (Data []) else ending r)"

lemma sock_recv_ending:
  assumes "sock_recv n s = (Some (Data bs), s')" "bs \<noteq> []"
  shows "ending (rx s) = ending (rx s')"
  using assms
  by (auto simp: sock_recv_def split: list.splits recv_ans.splits if_splits)

lemma sock_recv_interrupted:
  assumes "sock_recv n s = (Some (RecvErr EINTR), s')"
  shows "pending (rx s) = pending (rx s')" "ending (rx s) = ending (rx s')"
  using assms
  by (auto simp: sock_recv_def split: list.splits recv_ans.splits if_splits)

lemma sock_recv_stopped:
  assumes "sock_recv n s = (a, s')" "0 < n"
    "a = None \<or> a = Some (Data []) \<or> (\<exists>e. a = Some (RecvErr e) \<and> e \<noteq> EINTR)"
  shows "pending (rx s) = []" "ending (rx s) = a"
  using assms
  by (auto simp: sock_recv_def split: list.splits recv_ans.splits if_splits)

lemma sock_recv_frame [frame]:
  assumes "sock_recv n s = (a, s')"
  shows "sent s' = sent s" "tx s' = tx s" "peer s' = peer s" "ctl s' = ctl s"
    "nonblock s' = nonblock s" "cloexec s' = cloexec s"
  using assms by (auto simp: sock_recv_def split: list.splits recv_ans.splits if_splits)

lemma sock_send_frame [frame]:
  assumes "sock_send bs s = (a, s')"
  shows "rx s' = rx s" "peer s' = peer s" "ctl s' = ctl s" "nonblock s' = nonblock s"
    "cloexec s' = cloexec s"
  using assms by (auto simp: sock_send_def split: list.splits send_ans.splits)

lemma sock_send_Wrote:
  assumes "sock_send bs s = (Wrote n, s')"
  shows "n \<le> length bs \<and> sent s' = sent s @ take n bs"
  using assms by (auto simp: sock_send_def min_def split: list.splits send_ans.splits)

lemma sock_send_other:
  assumes "sock_send bs s = (a, s')" "\<forall>n. a \<noteq> Wrote n"
  shows "sent s' = sent s"
  using assms by (auto simp: sock_send_def split: list.splits send_ans.splits)

lemma sock_send_tx:
  assumes "sock_send bs s = (a, s')" "a \<noteq> Wrote (length bs)"
  shows "length (tx s') < length (tx s)"
  using assms by (auto simp: sock_send_def split: list.splits send_ans.splits)

section \<open>The kernel as one process sees it\<close>

text \<open>\<open>dial\<close> is what the bridge's end of each future connection attempt will be.\<close>

datatype attempt = SocketFails errno | ConnectFails errno | Connects sock

record kernel =
  fds :: "sock option list"
  dial :: "nat \<Rightarrow> attempt"
  dialled :: nat

abbreviation k_lookup :: "kernel \<Rightarrow> fd \<Rightarrow> sock option" where
  "k_lookup k f \<equiv> fd_lookup (fds k) f"

text \<open>\<open>socket(AF_UNIX, SOCK_STREAM | SOCK_CLOEXEC, 0)\<close>: the errno or the new descriptor.\<close>

definition k_socket :: "kernel \<Rightarrow> (errno + fd) \<times> kernel" where
  "k_socket k =
     (case dial k (dialled k) of
        SocketFails e \<Rightarrow> (Inl e, k\<lparr>dialled := Suc (dialled k)\<rparr>)
      | _ \<Rightarrow> (let (f, t) = fd_alloc (blank_sock\<lparr>cloexec := True\<rparr>) (fds k) in (Inr f, k\<lparr>fds := t\<rparr>)))"

text \<open>\<open>connect\<close> to the socket address with this path: \<open>None\<close> on success, else the errno.\<close>

definition k_connect :: "fd \<Rightarrow> cstring \<Rightarrow> kernel \<Rightarrow> errno option \<times> kernel" where
  "k_connect f path k =
     (let k' = k\<lparr>dialled := Suc (dialled k)\<rparr>
      in case dial k (dialled k) of
           Connects s \<Rightarrow>
             (None, k'\<lparr>fds := fd_update f (s\<lparr>peer := path, sent := [], nonblock := False, cloexec := True\<rparr>)
                        (fds k)\<rparr>)
         | ConnectFails e \<Rightarrow> (Some e, k')
         | SocketFails e \<Rightarrow> (Some e, k'))"

definition k_close :: "fd \<Rightarrow> kernel \<Rightarrow> kernel" where
  "k_close f k = k\<lparr>fds := fd_release f (fds k)\<rparr>"

text \<open>\<open>fcntl(f, F_GETFL)\<close> and \<open>fcntl(f, F_SETFL, flags | O_NONBLOCK)\<close>: \<open>None\<close> on success, else the
  errno.\<close>

definition k_set_nonblock :: "fd \<Rightarrow> kernel \<Rightarrow> errno option \<times> kernel" where
  "k_set_nonblock f k =
     (case k_lookup k f of
        None \<Rightarrow> (Some EBADF, k)
      | Some s \<Rightarrow> (case ctl s of Some e \<Rightarrow> (Some e, k)
                  | None \<Rightarrow> (None, k\<lparr>fds := fd_update f (s\<lparr>nonblock := True\<rparr>) (fds k)\<rparr>)))"

definition k_set_cloexec :: "fd \<Rightarrow> kernel \<Rightarrow> kernel" where
  "k_set_cloexec f k =
     (case k_lookup k f of None \<Rightarrow> k
      | Some s \<Rightarrow> k\<lparr>fds := fd_update f (s\<lparr>cloexec := True\<rparr>) (fds k)\<rparr>)"

text \<open>One \<open>send\<close> and one \<open>recv\<close> with \<open>MSG_DONTWAIT\<close> on a descriptor.\<close>

definition k_send :: "fd \<Rightarrow> bytes \<Rightarrow> kernel \<Rightarrow> send_ans \<times> kernel" where
  "k_send f bs k =
     (case k_lookup k f of None \<Rightarrow> (SendErr EBADF, k)
      | Some s \<Rightarrow> (let (a, s') = sock_send bs s in (a, k\<lparr>fds := fd_update f s' (fds k)\<rparr>)))"

definition k_recv_dontwait :: "fd \<Rightarrow> nat \<Rightarrow> kernel \<Rightarrow> recv_ans \<times> kernel" where
  "k_recv_dontwait f n k =
     (case k_lookup k f of None \<Rightarrow> (RecvErr EBADF, k)
      | Some s \<Rightarrow> (case sock_recv n s of
                    (None, s') \<Rightarrow> (RecvErr EAGAIN, k)
                  | (Some a, s') \<Rightarrow> (a, k\<lparr>fds := fd_update f s' (fds k)\<rparr>)))"

text \<open>A loop over one socket, run on a descriptor.\<close>

definition on_sock :: "fd \<Rightarrow> 'b \<Rightarrow> (sock \<Rightarrow> fault + ('b \<times> sock)) \<Rightarrow> kernel \<Rightarrow> fault + ('b \<times> kernel)" where
  "on_sock f bad op k =
     (case k_lookup k f of None \<Rightarrow> Inr (bad, k)
      | Some s \<Rightarrow> bindr (op s) (\<lambda>(r, s'). Inr (r, k\<lparr>fds := fd_update f s' (fds k)\<rparr>)))"

section \<open>Frame rules\<close>

lemma k_close_lookup [simp]: "k_lookup (k_close f k) = (k_lookup k)(f := None)"
  by (rule ext) (simp add: k_close_def fdt.release_lookup)

lemma k_set_nonblock_lookup:
  assumes "k_set_nonblock f k = (r, k')"
  shows "g \<noteq> f \<Longrightarrow> k_lookup k' g = k_lookup k g"
    and "(k_lookup k' g = None) = (k_lookup k g = None)"
  using assms by (auto simp: k_set_nonblock_def fdt.update_lookup split: option.splits if_splits)

lemma on_sock_lookup:
  assumes "on_sock f bad op k = Inr (r, k')"
  shows "g \<noteq> f \<Longrightarrow> k_lookup k' g = k_lookup k g"
    and "(k_lookup k' g = None) = (k_lookup k g = None)"
  using assms by (auto simp: on_sock_def fdt.update_lookup bindr_eq_Inr split: option.splits if_splits)

lemma k_recv_dontwait_lookup:
  assumes "k_recv_dontwait f n k = (r, k')"
  shows "g \<noteq> f \<Longrightarrow> k_lookup k' g = k_lookup k g"
    and "(k_lookup k' g = None) = (k_lookup k g = None)"
  using assms
  by (auto simp: k_recv_dontwait_def fdt.update_lookup split: option.splits if_splits prod.splits)

end
