(* ===== verification/GamepadClient.thy ===== *)
theory GamepadClient
  imports GamepadState Kernel
begin

text \<open>
  The operations of the client library, \<open>src/src/termux_gamepad.c\<close>: connecting to the bridge,
  following hotplug messages on the monitor connection, draining the event connection, rumble
  requests, creation and destruction. A call returns \<open>Inl Blocks\<close> when it waits for an answer the
  bridge never sends (only the two handshakes do), otherwise its C result together with the new
  handle and kernel state.
\<close>

section \<open>The handle\<close>

record termux_gamepad =
  gp_socket_path :: cstring
  gp_monitor_fd :: fd
  gp_event_fd :: fd
  gp_descriptor :: termux_gamepad_descriptor
  gp_state :: termux_gamepad_state
  gp_monitor_buffer :: bytes
  gp_event_buffer :: bytes

section \<open>Socket helpers\<close>

definition connect_socket :: "cstring \<Rightarrow> kernel \<Rightarrow> int \<times> kernel" where
  "connect_socket path k =
     (if 108 \<le> strlen_from path then (- err ENAMETOOLONG, k)
      else case k_socket k of
        (Inl e, k1) \<Rightarrow> (- err e, k1)
      | (Inr f, k1) \<Rightarrow>
          (case k_connect f (cstr (strncpy (replicate 108 0) path 107)) k1 of
             (Some e, k2) \<Rightarrow> (- err e, k_close f k2)
           | (None, k2) \<Rightarrow> (f, k2)))"

definition set_nonblocking :: "fd \<Rightarrow> kernel \<Rightarrow> int \<times> kernel" where
  "set_nonblocking f k =
     (case k_set_nonblock f k of
        (Some e, k1) \<Rightarrow> (- err e, k1)
      | (None, k1) \<Rightarrow> (0, k_set_cloexec f k1))"

text \<open>The loop of \<open>send_all\<close> over the bytes still to send.\<close>

function send_loop :: "bytes \<Rightarrow> sock \<Rightarrow> int \<times> sock" where
  "send_loop bs s =
     (if bs = [] then (0, s)
      else case sock_send bs s of
        (Wrote n, s') \<Rightarrow> if 0 < n then send_loop (drop n bs) s' else (- err EPIPE, s')
      | (SendErr e, s') \<Rightarrow> if e = EINTR then send_loop bs s' else (- err e, s')
      | (SendAgain p, s') \<Rightarrow>
          (case p of
             PollReady \<Rightarrow> send_loop bs s'
           | PollTimeout \<Rightarrow> (- err EAGAIN, s')
           | PollErr e \<Rightarrow> (- err e, s')))"
  by pat_completeness auto
termination
proof (relation "measures [\<lambda>(bs, s). length (tx s), \<lambda>(bs, s). length bs]", goal_cases)
  case 1
  show ?case by simp
next
  case (2 bs s a s' n)
  then show ?case using sock_send_tx [of bs s a s'] by (cases "n = length bs")
    (auto simp: sock_send_def split: list.splits send_ans.splits)
qed (auto dest: sock_send_tx [OF sym])

declare send_loop.simps [simp del]

definition send_all :: "fd \<Rightarrow> bytes \<Rightarrow> kernel \<Rightarrow> int \<times> kernel" where
  "send_all f data k =
     (case k_lookup k f of
        None \<Rightarrow> (if data = [] then 0 else - err EBADF, k)
      | Some s \<Rightarrow> (let (r, s') = send_loop data s in (r, k\<lparr>fds := fd_update f s' (fds k)\<rparr>)))"

text \<open>The loop of \<open>receive_all\<close>: \<open>got\<close> is what has been received of the \<open>n\<close> bytes.\<close>

function receive_loop :: "nat \<Rightarrow> bytes \<Rightarrow> sock \<Rightarrow> fault + ((int \<times> bytes) \<times> sock)" where
  "receive_loop n got s =
     (if n \<le> length got then Inr ((0, got), s)
      else case sock_recv (n - length got) s of
        (None, s') \<Rightarrow> Inl Blocks
      | (Some (Data bs), s') \<Rightarrow>
          if bs \<noteq> [] then receive_loop n (got @ bs) s' else Inr ((- err ECONNRESET, got), s')
      | (Some (RecvErr e), s') \<Rightarrow>
          if e = EINTR then receive_loop n got s' else Inr ((- err e, got), s'))"
  by pat_completeness auto
termination
  by (relation "measure (\<lambda>(n, got, s). rx_weight s)") (auto dest: sock_recv_weight [OF sym])

declare receive_loop.simps [simp del]

definition receive_all :: "fd \<Rightarrow> nat \<Rightarrow> kernel \<Rightarrow> fault + ((int \<times> bytes) \<times> kernel)" where
  "receive_all f n k = on_sock f (- err EBADF, []) (receive_loop n []) k"

definition control_message :: "u16 \<Rightarrow> u16 \<Rightarrow> u16 \<Rightarrow> u32 \<Rightarrow> tg_control_message" where
  "control_message command low high duration_ms =
     \<lparr>cm_magic = TG_CONTROL_MAGIC, cm_version = TG_CONTROL_VERSION, cm_command = command,
      cm_low_frequency = low, cm_high_frequency = high, cm_duration_ms = duration_ms\<rparr>"

definition send_command :: "fd \<Rightarrow> u16 \<Rightarrow> u16 \<Rightarrow> u16 \<Rightarrow> u32 \<Rightarrow> kernel \<Rightarrow> int \<times> kernel" where
  "send_command f command low high duration_ms k =
     send_all f (enc_control (control_message command low high duration_ms)) k"

section \<open>Connections\<close>

definition close_event_stream :: "termux_gamepad \<Rightarrow> kernel \<Rightarrow> termux_gamepad \<times> kernel" where
  "close_event_stream g k =
     (g\<lparr>gp_event_fd := -1, gp_event_buffer := [], gp_state := reset_state\<rparr>,
      if 0 \<le> gp_event_fd g then k_close (gp_event_fd g) k else k)"

definition open_event_stream ::
  "termux_gamepad \<Rightarrow> kernel \<Rightarrow> fault + (int \<times> termux_gamepad \<times> kernel)" where
  "open_event_stream g k =
     (let (f, k1) = connect_socket (gp_socket_path g) k in
      if f < 0 then Inr (f, g, k1)
      else let (sent_result, k2) = send_command f TG_CONTROL_QUERY_DESCRIPTOR 0 0 0 k1 in
        bindr (if sent_result = 0 then receive_all f 88 k2 else Inr ((sent_result, []), k2))
          (\<lambda>((result, buf), k3).
             let descriptor = dec_descriptor buf in
             if result < 0 \<or> dd_magic descriptor \<noteq> TG_DEVICE_MAGIC \<or>
                dd_version descriptor \<noteq> TG_CONTROL_VERSION \<or> dd_present descriptor = 0
             then Inr (if result < 0 then result else - err ENODEV, g, k_close f k3)
             else let (result', k4) = set_nonblocking f k3 in
               if result' < 0 then Inr (result', g, k_close f k4)
               else let (g', k5) = close_event_stream g k4 in
                 Inr (0, g'\<lparr>gp_event_fd := f\<rparr>, k5)))"

definition apply_hotplug ::
  "termux_gamepad \<Rightarrow> tg_hotplug_message \<Rightarrow> kernel \<Rightarrow> fault + (int \<times> termux_gamepad \<times> kernel)" where
  "apply_hotplug g message k =
     (if hm_magic message \<noteq> TG_HOTPLUG_MAGIC \<or> hm_version message \<noteq> TG_CONTROL_VERSION
      then Inr (- err EPROTO, g, k)
      else let descriptor = copy_descriptor (hm_descriptor message) in
        if descriptor_equal (gp_descriptor g) descriptor then Inr (0, g, k)
        else let (g1, k1) = close_event_stream (g\<lparr>gp_descriptor := descriptor\<rparr>) k in
          if td_present descriptor \<noteq> 0
          then bindr (open_event_stream g1 k1) (\<lambda>(_, g2, k2). Inr (1, g2, k2))
          else Inr (1, g1, k1))"

definition open_monitor ::
  "termux_gamepad \<Rightarrow> kernel \<Rightarrow> fault + (int \<times> termux_gamepad \<times> kernel)" where
  "open_monitor g k =
     (let (f, k1) = connect_socket (gp_socket_path g) k in
      if f < 0 then Inr (f, g, k1)
      else let (sent_result, k2) = send_command f TG_CONTROL_MONITOR 0 0 0 k1 in
        bindr (if sent_result = 0 then receive_all f 96 k2 else Inr ((sent_result, []), k2))
          (\<lambda>((result, buf), k3).
             if result < 0 then Inr (result, g, k_close f k3)
             else let (result', k4) = set_nonblocking f k3 in
               if result' < 0 then Inr (result', g, k_close f k4)
               else apply_hotplug (g\<lparr>gp_monitor_fd := f, gp_monitor_buffer := []\<rparr>)
                      (dec_hotplug buf) k4))"

section \<open>Refresh and update\<close>

text \<open>What \<open>refresh\<close> does when the monitor connection has ended; \<open>failed\<close> is the errno of the
  failing \<open>recv\<close>, \<open>None\<close> for an end of stream.\<close>

definition monitor_lost ::
  "errno option \<Rightarrow> int \<Rightarrow> termux_gamepad \<Rightarrow> kernel \<Rightarrow> int \<times> termux_gamepad \<times> kernel" where
  "monitor_lost failed changed g k =
     (let k1 = k_close (gp_monitor_fd g) k;
          g1 = g\<lparr>gp_monitor_fd := -1, gp_monitor_buffer := []\<rparr>
      in if td_present (gp_descriptor g1) \<noteq> 0
         then (let g2 = g1\<lparr>gp_descriptor := (gp_descriptor g1)\<lparr>td_present := 0, td_device_id := -1\<rparr>\<rparr>;
                   (g3, k3) = close_event_stream g2 k1
               in (1, g3, k3))
         else (case failed of Some e \<Rightarrow> - err e | None \<Rightarrow> changed, g1, k1))"

fun refresh_loop ::
  "nat \<Rightarrow> int \<Rightarrow> termux_gamepad \<Rightarrow> kernel \<Rightarrow> fault + (int \<times> termux_gamepad \<times> kernel)" where
  "refresh_loop 0 changed g k = Inl OutOfFuel"
| "refresh_loop (Suc fuel) changed g k =
     (case k_recv_dontwait (gp_monitor_fd g) (96 - length (gp_monitor_buffer g)) k of
        (Data bs, k1) \<Rightarrow>
          if bs \<noteq> [] then
            (let g1 = g\<lparr>gp_monitor_buffer := gp_monitor_buffer g @ bs\<rparr> in
             if length (gp_monitor_buffer g1) = 96 then
               bindr (apply_hotplug g1 (dec_hotplug (gp_monitor_buffer g1)) k1)
                 (\<lambda>(applied, g2, k2).
                    let g3 = g2\<lparr>gp_monitor_buffer := []\<rparr> in
                    if applied < 0 then Inr (applied, g3, k2)
                    else refresh_loop fuel (if 0 < applied then 1 else changed) g3 k2)
             else refresh_loop fuel changed g1 k1)
          else Inr (monitor_lost None changed g k1)
      | (RecvErr e, k1) \<Rightarrow>
          if e = EINTR then refresh_loop fuel changed g k1
          else if e = EAGAIN then Inr (changed, g, k1)
          else Inr (monitor_lost (Some e) changed g k1))"

text \<open>Enough iterations for everything that is pending on the monitor connection.\<close>

definition refresh_fuel :: "termux_gamepad \<Rightarrow> kernel \<Rightarrow> nat" where
  "refresh_fuel g k =
     Suc (case k_lookup k (gp_monitor_fd g) of None \<Rightarrow> 0 | Some s \<Rightarrow> rx_weight s)"

definition refresh :: "termux_gamepad \<Rightarrow> kernel \<Rightarrow> fault + (int \<times> termux_gamepad \<times> kernel)" where
  "refresh g k =
     (if gp_monitor_fd g < 0 then open_monitor g k else refresh_loop (refresh_fuel g k) 0 g k)"

text \<open>The receive loop of \<open>update\<close>: result, whether the stream has to be closed, and the new state.\<close>

function event_loop ::
  "termux_gamepad \<Rightarrow> int \<Rightarrow> sock \<Rightarrow> int \<times> bool \<times> termux_gamepad \<times> sock" where
  "event_loop g reports s =
     (case sock_recv (24 - length (gp_event_buffer g)) s of
        (None, s') \<Rightarrow> (reports, False, g, s')
      | (Some (Data bs), s') \<Rightarrow>
          if bs \<noteq> [] then
            (let g1 = g\<lparr>gp_event_buffer := gp_event_buffer g @ bs\<rparr> in
             if length (gp_event_buffer g1) = 24 then
               (let (st, reports') = process_event (gp_state g1) (dec_event (gp_event_buffer g1)) reports
                in event_loop (g1\<lparr>gp_state := st, gp_event_buffer := []\<rparr>) reports' s')
             else event_loop g1 reports s')
          else (reports, True, g, s')
      | (Some (RecvErr e), s') \<Rightarrow>
          if e = EINTR then event_loop g reports s'
          else if e = EAGAIN then (reports, False, g, s')
          else (- err e, True, g, s'))"
  by pat_completeness auto
termination
  by (relation "measure (\<lambda>(g, reports, s). rx_weight s)") (auto dest: sock_recv_weight [OF sym])

declare event_loop.simps [simp del]

definition read_events :: "termux_gamepad \<Rightarrow> kernel \<Rightarrow> int \<times> termux_gamepad \<times> kernel" where
  "read_events g k =
     (case k_lookup k (gp_event_fd g) of
        None \<Rightarrow> (- err EBADF, close_event_stream g k)
      | Some s \<Rightarrow>
          (let (ret, ended, g1, s1) = event_loop g 0 s;
               k1 = k\<lparr>fds := fd_update (gp_event_fd g) s1 (fds k)\<rparr>
           in if ended then (ret, close_event_stream g1 k1) else (ret, g1, k1)))"

definition update :: "termux_gamepad \<Rightarrow> kernel \<Rightarrow> fault + (int \<times> termux_gamepad \<times> kernel)" where
  "update g k =
     bindr (refresh g k) (\<lambda>(refreshed, g1, k1).
       bindr (if gp_event_fd g1 < 0 \<and> td_present (gp_descriptor g1) \<noteq> 0
              then open_event_stream g1 k1 else Inr (0, g1, k1)) (\<lambda>(_, g2, k2).
         if refreshed < 0 \<and> gp_event_fd g2 < 0 then Inr (refreshed, g2, k2)
         else if gp_event_fd g2 < 0 then Inr (0, g2, k2)
         else Inr (read_events g2 k2)))"

section \<open>The public calls\<close>

text \<open>A handle argument is \<open>None\<close> for a null pointer.\<close>

definition termux_gamepad_refresh ::
  "termux_gamepad option \<Rightarrow> kernel \<Rightarrow> fault + (int \<times> termux_gamepad option \<times> kernel)" where
  "termux_gamepad_refresh gp k =
     (case gp of None \<Rightarrow> Inr (- err EINVAL, None, k)
      | Some g \<Rightarrow> bindr (refresh g k) (\<lambda>(r, g', k'). Inr (r, Some g', k')))"

definition termux_gamepad_update ::
  "termux_gamepad option \<Rightarrow> kernel \<Rightarrow> fault + (int \<times> termux_gamepad option \<times> kernel)" where
  "termux_gamepad_update gp k =
     (case gp of None \<Rightarrow> Inr (- err EINVAL, None, k)
      | Some g \<Rightarrow> bindr (update g k) (\<lambda>(r, g', k'). Inr (r, Some g', k')))"

text \<open>\<open>termux_gamepad_create\<close>; \<open>mem\<close> says whether \<open>calloc\<close> finds memory.\<close>

definition default_path :: "env \<Rightarrow> cstring option \<Rightarrow> cstring" where
  "default_path env socket_path =
     (case socket_path of
        Some p \<Rightarrow> if char_at p \<noteq> 0 then p
          else (case env ''TERMUX_GAMEPAD_EVDEV_SOCKET'' of
                  Some e \<Rightarrow> if char_at e \<noteq> 0 then e else TG_DEFAULT_SOCKET
                | None \<Rightarrow> TG_DEFAULT_SOCKET)
      | None \<Rightarrow> (case env ''TERMUX_GAMEPAD_EVDEV_SOCKET'' of
                  Some e \<Rightarrow> if char_at e \<noteq> 0 then e else TG_DEFAULT_SOCKET
                | None \<Rightarrow> TG_DEFAULT_SOCKET))"

definition initial_handle :: "cstring \<Rightarrow> termux_gamepad" where
  "initial_handle path =
     \<lparr>gp_socket_path = cstr path, gp_monitor_fd = -1, gp_event_fd = -1,
      gp_descriptor = \<lparr>td_abi_version = TERMUX_GAMEPAD_ABI_VERSION, td_struct_size = 88, td_present = 0,
        td_capabilities = 0, td_input_mode = 0, td_reserved0 = 0, td_vendor_id = 0, td_product_id = 0,
        td_device_id = -1, td_name = replicate 64 0\<rparr>,
      gp_state = reset_state, gp_monitor_buffer = [], gp_event_buffer = []\<rparr>"

definition termux_gamepad_create ::
  "bool \<Rightarrow> env \<Rightarrow> cstring option \<Rightarrow> kernel \<Rightarrow> fault + (termux_gamepad option \<times> kernel)" where
  "termux_gamepad_create mem env socket_path k =
     (if \<not> mem then Inr (None, k)
      else let path = default_path env socket_path in
        if 108 \<le> strlen_from path then Inr (None, k)
        else bindr (open_monitor (initial_handle path) k) (\<lambda>(_, g, k'). Inr (Some g, k')))"

definition termux_gamepad_stop_rumble :: "termux_gamepad option \<Rightarrow> kernel \<Rightarrow> int \<times> kernel" where
  "termux_gamepad_stop_rumble gp k =
     (case gp of None \<Rightarrow> (- err ENODEV, k)
      | Some g \<Rightarrow> if gp_event_fd g < 0 then (- err ENODEV, k)
                  else send_command (gp_event_fd g) TG_CONTROL_STOP_RUMBLE 0 0 0 k)"

definition termux_gamepad_rumble ::
  "termux_gamepad option \<Rightarrow> u16 \<Rightarrow> u16 \<Rightarrow> u32 \<Rightarrow> kernel \<Rightarrow> int \<times> kernel" where
  "termux_gamepad_rumble gp low high duration_ms k =
     (case gp of None \<Rightarrow> (- err ENODEV, k)
      | Some g \<Rightarrow> if gp_event_fd g < 0 then (- err ENODEV, k)
                  else if low = 0 \<and> high = 0 then termux_gamepad_stop_rumble gp k
                  else send_command (gp_event_fd g) TG_CONTROL_RUMBLE low high duration_ms k)"

definition termux_gamepad_destroy :: "termux_gamepad option \<Rightarrow> kernel \<Rightarrow> kernel" where
  "termux_gamepad_destroy gp k =
     (case gp of None \<Rightarrow> k
      | Some g \<Rightarrow>
          (let k1 = (if 0 \<le> gp_event_fd g
                     then k_close (gp_event_fd g)
                            (snd (send_command (gp_event_fd g) TG_CONTROL_STOP_RUMBLE 0 0 0 k))
                     else k)
           in if 0 \<le> gp_monitor_fd g then k_close (gp_monitor_fd g) k1 else k1))"

text \<open>The getters; the second argument says whether the caller's output pointer is non-null.\<close>

definition termux_gamepad_get_descriptor ::
  "termux_gamepad option \<Rightarrow> bool \<Rightarrow> int \<times> termux_gamepad_descriptor option" where
  "termux_gamepad_get_descriptor gp out =
     (case gp of Some g \<Rightarrow> if out then (0, Some (gp_descriptor g)) else (- err EINVAL, None)
      | None \<Rightarrow> (- err EINVAL, None))"

definition termux_gamepad_get_state ::
  "termux_gamepad option \<Rightarrow> bool \<Rightarrow> int \<times> termux_gamepad_state option" where
  "termux_gamepad_get_state gp out =
     (case gp of Some g \<Rightarrow> if out then (0, Some (gp_state g)) else (- err EINVAL, None)
      | None \<Rightarrow> (- err EINVAL, None))"

definition termux_gamepad_get_fd :: "termux_gamepad option \<Rightarrow> fd" where
  "termux_gamepad_get_fd gp = (case gp of Some g \<Rightarrow> gp_event_fd g | None \<Rightarrow> -1)"

end
