(* ===== verification/GamepadInvariant.thy ===== *)
theory GamepadInvariant
  imports GamepadClient
begin

text \<open>
  The invariant of a client handle and the kernel it runs on, and that every public call keeps it:
  the two connections are distinct open descriptors, the reassembly buffers never hold a complete
  frame between calls, there is no event stream without a present controller, no controller
  without a monitor connection, and the snapshot is neutral whenever no event stream is open. The
  second half of each lemma is a frame property: the descriptors of the process that are not the
  handle's own are untouched, and no descriptor is leaked.
\<close>

section \<open>What the kernel calls do to the table\<close>

lemma k_socket_Inl: "k_socket k = (Inl e, k1) \<Longrightarrow> k_lookup k1 = k_lookup k"
  by (auto simp: k_socket_def Let_def split: attempt.splits prod.splits)

lemma k_socket_Inr:
  assumes "k_socket k = (Inr f, k1)"
  shows "0 \<le> f" "k_lookup k f = None" "k_lookup k1 = (k_lookup k)(f \<mapsto> blank_sock\<lparr>cloexec := True\<rparr>)"
proof -
  from assms have f: "f = fst (fd_alloc (blank_sock\<lparr>cloexec := True\<rparr>) (fds k))"
    and k1: "fds k1 = snd (fd_alloc (blank_sock\<lparr>cloexec := True\<rparr>) (fds k))"
    by (auto simp: k_socket_def Let_def split: attempt.splits prod.splits)
  show "0 \<le> f" "k_lookup k f = None" by (simp_all add: f fdt.alloc_nonneg fdt.alloc_fresh)
  show "k_lookup k1 = (k_lookup k)(f \<mapsto> blank_sock\<lparr>cloexec := True\<rparr>)"
    by (rule ext) (simp add: k1 f fdt.alloc_lookup)
qed

lemma k_connect_lookup:
  assumes "k_connect f p k = (r, k1)" "k_lookup k f \<noteq> None"
  shows "case r of None \<Rightarrow> \<exists>s. k_lookup k1 = (k_lookup k)(f \<mapsto> s) \<and> peer s = p | Some e \<Rightarrow> k_lookup k1 = k_lookup k"
  using assms
  by (auto simp: k_connect_def Let_def fun_eq_iff fdt.update_lookup split: attempt.splits)

lemma connect_socket_lookup:
  assumes "connect_socket path k = (f, k1)"
  shows "f < 0 \<and> k_lookup k1 = k_lookup k \<or>
    0 \<le> f \<and> k_lookup k f = None \<and> (\<exists>s. k_lookup k1 = (k_lookup k)(f \<mapsto> s))"
proof (cases "108 \<le> strlen_from path")
  case True
  then show ?thesis using assms by (auto simp: connect_socket_def)
next
  case short: False
  obtain r k2 where so: "k_socket k = (r, k2)" by fastforce
  show ?thesis
  proof (cases r)
    case (Inl e)
    then show ?thesis using assms short so k_socket_Inl [of k e k2] by (auto simp: connect_socket_def)
  next
    case (Inr f')
    note s = k_socket_Inr [OF so [unfolded Inr]]
    obtain r' k3 where co: "k_connect f' (cstr (strncpy (replicate 108 0) path 107)) k2 = (r', k3)"
      by fastforce
    have "k_lookup k2 f' \<noteq> None" using s by simp
    note cn = k_connect_lookup [OF co this]
    show ?thesis
    proof (cases r')
      case None
      then show ?thesis using assms short so Inr co cn s by (auto simp: connect_socket_def)
    next
      case (Some e)
      then have "f = - err e" "k1 = k_close f' k3" "k_lookup k3 = k_lookup k2"
        using assms short so Inr co cn by (auto simp: connect_socket_def)
      then show ?thesis using s by (auto simp: fun_eq_iff)
    qed
  qed
qed

lemma send_command_lookup:
  assumes "send_command f c l h d k = (r, k1)"
  shows "g \<noteq> f \<Longrightarrow> k_lookup k1 g = k_lookup k g"
    and "(k_lookup k1 g = None) = (k_lookup k g = None)"
  using assms
  by (auto simp: send_command_def send_all_def fdt.update_lookup Let_def split: option.splits prod.splits if_splits)

lemma receive_all_lookup:
  assumes "receive_all f n k = Inr (r, k1)"
  shows "g \<noteq> f \<Longrightarrow> k_lookup k1 g = k_lookup k g"
    and "(k_lookup k1 g = None) = (k_lookup k g = None)"
  using on_sock_lookup [OF assms [unfolded receive_all_def]] by auto

lemma k_set_cloexec_lookup:
  shows "g \<noteq> f \<Longrightarrow> k_lookup (k_set_cloexec f k) g = k_lookup k g"
    and "(k_lookup (k_set_cloexec f k) g = None) = (k_lookup k g = None)"
  by (auto simp: k_set_cloexec_def fdt.update_lookup split: option.splits)

lemma set_nonblocking_lookup:
  assumes "set_nonblocking f k = (r, k1)"
  shows "g \<noteq> f \<Longrightarrow> k_lookup k1 g = k_lookup k g"
    and "(k_lookup k1 g = None) = (k_lookup k g = None)" and "r \<le> 0"
proof -
  obtain e k2 where n: "k_set_nonblock f k = (e, k2)" by fastforce
  show "g \<noteq> f \<Longrightarrow> k_lookup k1 g = k_lookup k g" "(k_lookup k1 g = None) = (k_lookup k g = None)" "r \<le> 0"
    using assms k_set_nonblock_lookup [OF n]
    by (auto simp: set_nonblocking_def n k_set_cloexec_lookup split: option.splits)
qed

lemma k_lookup_None_update: "k_lookup k f = None \<Longrightarrow> (k_lookup k)(f := None) = k_lookup k"
  by (simp add: fun_upd_idem)

text \<open>The handshakes touch the new descriptor only.\<close>

lemma handshake_lookup:
  assumes "send_command f c 0 0 0 k1 = (sr, k2)"
    and "(if sr = 0 then receive_all f n k2 else Inr ((sr, []), k2)) = Inr ((r, b), k3)"
  shows "g \<noteq> f \<Longrightarrow> k_lookup k3 g = k_lookup k1 g"
    and "(k_lookup k3 g = None) = (k_lookup k1 g = None)"
  using assms send_command_lookup [OF assms(1)] receive_all_lookup [of f n k2 "(r, b)" k3]
  by (auto split: if_splits)

lemma open_event_stream_cases:
  assumes "open_event_stream g k = Inr (r, g', k')"
  shows "(r < 0 \<and> g' = g \<and> k_lookup k' = k_lookup k) \<or>
    (\<exists>f s. r = 0 \<and> 0 \<le> f \<and> k_lookup k f = None \<and>
       g' = g\<lparr>gp_event_fd := f, gp_event_buffer := [], gp_state := reset_state\<rparr> \<and>
       k_lookup k' = ((k_lookup k)(f \<mapsto> s))(gp_event_fd g := None))"
proof -
  obtain f k1 where co: "connect_socket (gp_socket_path g) k = (f, k1)" by fastforce
  note cl = connect_socket_lookup [OF co]
  show ?thesis
  proof (cases "f < 0")
    case True
    then show ?thesis using assms cl by (auto simp: open_event_stream_def co)
  next
    case False
    then obtain s1 where f: "0 \<le> f" "k_lookup k f = None" and k1: "k_lookup k1 = (k_lookup k)(f \<mapsto> s1)"
      using cl by auto
    obtain sr k2 where sc: "send_command f TG_CONTROL_QUERY_DESCRIPTOR 0 0 0 k1 = (sr, k2)" by fastforce
    obtain r0 b k3 where rc: "(if sr = 0 then receive_all f 88 k2 else Inr ((sr, []), k2)) = Inr ((r0, b), k3)"
      using assms False by (auto simp: open_event_stream_def co sc bindr_eq_Inr)
    note hs = handshake_lookup [OF sc rc]
    have closed: "(k_lookup k3)(f := None) = k_lookup k"
      by (rule ext) (use hs k1 f in auto)
    obtain r1 k4 where nb: "set_nonblocking f k3 = (r1, k4)" by fastforce
    note nbl = set_nonblocking_lookup [OF nb]
    have closed': "(k_lookup k4)(f := None) = k_lookup k"
      by (rule ext) (use hs nbl k1 f in auto)
    obtain s4 where k4: "k_lookup k4 = (k_lookup k)(f \<mapsto> s4)"
    proof -
      have "k_lookup k4 f \<noteq> None" using hs nbl k1 by auto
      then obtain s4 where "k_lookup k4 f = Some s4" by blast
      then have "k_lookup k4 = (k_lookup k)(f \<mapsto> s4)" by (intro ext) (use hs nbl k1 in auto)
      then show ?thesis by (rule that)
    qed
    have neg: "k_lookup k4 (gp_event_fd g) = None" if "gp_event_fd g < 0"
      using that by (rule fdt.lookup_neg)
    have k5: "k_lookup (if 0 \<le> gp_event_fd g then k_close (gp_event_fd g) k4 else k4) =
        ((k_lookup k)(f \<mapsto> s4))(gp_event_fd g := None)"
      using neg by (auto simp: fun_eq_iff k4)
    let ?ok = "\<not> (r0 < 0 \<or> dd_magic (dec_descriptor b) \<noteq> TG_DEVICE_MAGIC \<or>
      dd_version (dec_descriptor b) \<noteq> TG_CONTROL_VERSION \<or> dd_present (dec_descriptor b) = 0)"
    show ?thesis
    proof (cases ?ok)
      case False
      then show ?thesis
        using assms \<open>\<not> f < 0\<close> closed
        by (auto simp: open_event_stream_def co sc rc Let_def split: if_splits)
    next
      case True
      show ?thesis
      proof (cases "r1 < 0")
        case True
        then show ?thesis using assms \<open>\<not> f < 0\<close> \<open>?ok\<close> closed'
          by (auto simp: open_event_stream_def co sc rc nb Let_def)
      next
        case False
        have "r = 0" "g' = g\<lparr>gp_event_fd := f, gp_event_buffer := [], gp_state := reset_state\<rparr>"
          "k_lookup k' = ((k_lookup k)(f \<mapsto> s4))(gp_event_fd g := None)"
          using assms \<open>\<not> f < 0\<close> \<open>?ok\<close> False k5
          by (auto simp: open_event_stream_def co sc rc nb Let_def close_event_stream_def)
        then show ?thesis using f by blast
      qed
    qed
  qed
qed

section \<open>The invariant\<close>

definition gp_owned :: "termux_gamepad \<Rightarrow> fd set" where
  "gp_owned g = {f. 0 \<le> f \<and> (f = gp_monitor_fd g \<or> f = gp_event_fd g)}"

text \<open>The descriptor table without the handle's own descriptors.\<close>

definition others :: "termux_gamepad \<Rightarrow> kernel \<Rightarrow> fd \<Rightarrow> sock option" where
  "others g k f = (if f \<in> gp_owned g then None else k_lookup k f)"

text \<open>The part of the invariant that every helper keeps.\<close>

definition conn_inv :: "termux_gamepad \<Rightarrow> kernel \<Rightarrow> bool" where
  "conn_inv g k \<longleftrightarrow>
     wf_public (gp_descriptor g) \<and> length (ts_axes (gp_state g)) = 6 \<and>
     length (gp_monitor_buffer g) \<le> 96 \<and> length (gp_event_buffer g) < 24 \<and>
     (0 \<le> gp_monitor_fd g \<longrightarrow> k_lookup k (gp_monitor_fd g) \<noteq> None) \<and>
     (0 \<le> gp_event_fd g \<longrightarrow> k_lookup k (gp_event_fd g) \<noteq> None \<and> gp_event_fd g \<noteq> gp_monitor_fd g) \<and>
     (gp_event_fd g < 0 \<longrightarrow> gp_event_buffer g = [] \<and> gp_state g = reset_state)"

definition client_inv :: "termux_gamepad \<Rightarrow> kernel \<Rightarrow> bool" where
  "client_inv g k \<longleftrightarrow> conn_inv g k \<and> length (gp_monitor_buffer g) < 96 \<and>
     (gp_monitor_fd g < 0 \<longrightarrow> td_present (gp_descriptor g) = 0 \<and> gp_monitor_buffer g = []) \<and>
     (0 \<le> gp_event_fd g \<longrightarrow> td_present (gp_descriptor g) \<noteq> 0)"

lemma wf_reset [simp]: "length (ts_axes reset_state) = 6"
  by (simp add: reset_state_def)

lemma close_event_stream_inv:
  assumes "conn_inv g k" "close_event_stream g k = (g', k')"
  shows "conn_inv g' k'" "others g' k' = others g k" "gp_event_fd g' = -1"
    "gp_monitor_fd g' = gp_monitor_fd g" "gp_descriptor g' = gp_descriptor g"
    "gp_monitor_buffer g' = gp_monitor_buffer g" "gp_state g' = reset_state"
    "k_lookup k' (gp_monitor_fd g) = k_lookup k (gp_monitor_fd g)"
    "k_lookup k' = (k_lookup k)(gp_event_fd g := None)"
  using assms fdt.lookup_neg [of _ "fds k"]
  by (auto simp: close_event_stream_def conn_inv_def others_def gp_owned_def fun_eq_iff split: if_splits)

lemma open_event_stream_inv:
  assumes inv: "conn_inv g k" and op: "open_event_stream g k = Inr (r, g', k')"
  shows "conn_inv g' k'" "others g' k' = others g k"
    "gp_monitor_fd g' = gp_monitor_fd g" "gp_descriptor g' = gp_descriptor g"
    "gp_monitor_buffer g' = gp_monitor_buffer g"
    "k_lookup k' (gp_monitor_fd g) = k_lookup k (gp_monitor_fd g)"
    "r < 0 \<Longrightarrow> g' = g" "0 \<le> r \<Longrightarrow> 0 \<le> gp_event_fd g'"
proof -
  consider (fail) "r < 0" "g' = g" "k_lookup k' = k_lookup k"
    | (opened) f s where "r = 0" "0 \<le> f" "k_lookup k f = None"
        "g' = g\<lparr>gp_event_fd := f, gp_event_buffer := [], gp_state := reset_state\<rparr>"
        "k_lookup k' = ((k_lookup k)(f \<mapsto> s))(gp_event_fd g := None)"
    using open_event_stream_cases [OF op] by blast
  then have "conn_inv g' k' \<and> others g' k' = others g k \<and>
    gp_monitor_fd g' = gp_monitor_fd g \<and> gp_descriptor g' = gp_descriptor g \<and>
    gp_monitor_buffer g' = gp_monitor_buffer g \<and>
    k_lookup k' (gp_monitor_fd g) = k_lookup k (gp_monitor_fd g) \<and>
    (r < 0 \<longrightarrow> g' = g) \<and> (0 \<le> r \<longrightarrow> 0 \<le> gp_event_fd g')"
  proof cases
    case fail
    with inv show ?thesis by (auto simp: conn_inv_def others_def fun_eq_iff)
  next
    case opened
    have m: "f \<noteq> gp_monitor_fd g" "f \<noteq> gp_event_fd g"
      using opened inv by (auto simp: conn_inv_def)
    have n: "k_lookup k (gp_monitor_fd g) = None" if "gp_monitor_fd g < 0"
      using that by (rule fdt.lookup_neg)
    show ?thesis using opened inv m n fdt.lookup_neg [of _ "fds k"]
      by (auto simp: conn_inv_def others_def gp_owned_def fun_eq_iff not_le)
  qed
  then show "conn_inv g' k'" "others g' k' = others g k"
    "gp_monitor_fd g' = gp_monitor_fd g" "gp_descriptor g' = gp_descriptor g"
    "gp_monitor_buffer g' = gp_monitor_buffer g"
    "k_lookup k' (gp_monitor_fd g) = k_lookup k (gp_monitor_fd g)"
    "r < 0 \<Longrightarrow> g' = g" "0 \<le> r \<Longrightarrow> 0 \<le> gp_event_fd g'" by simp_all
qed

text \<open>\<open>apply_hotplug\<close> on a handle with a monitor connection.\<close>

lemma apply_hotplug_inv:
  assumes inv: "conn_inv g k" "0 \<le> gp_event_fd g \<longrightarrow> td_present (gp_descriptor g) \<noteq> 0"
    and op: "apply_hotplug g m k = Inr (r, g', k')"
  shows "conn_inv g' k'" "others g' k' = others g k" "gp_monitor_fd g' = gp_monitor_fd g"
    "gp_monitor_buffer g' = gp_monitor_buffer g"
    "k_lookup k' (gp_monitor_fd g) = k_lookup k (gp_monitor_fd g)"
    "0 \<le> gp_event_fd g' \<longrightarrow> td_present (gp_descriptor g') \<noteq> 0"
proof -
  let ?d = "copy_descriptor (hm_descriptor m)"
  let ?g0 = "g\<lparr>gp_descriptor := ?d\<rparr>"
  obtain g1 k1 where cl: "close_event_stream ?g0 k = (g1, k1)" by fastforce
  have inv0: "conn_inv ?g0 k" using inv by (simp add: conn_inv_def wf_copy_descriptor)
  note c = close_event_stream_inv [OF inv0 cl]
  have oth: "others ?g0 k = others g k" by (auto simp: others_def gp_owned_def)
  consider (same) "g' = g" "k' = k"
    | (gone) "td_present ?d = 0" "g' = g1" "k' = k1"
    | (opened) r2 where "td_present ?d \<noteq> 0" "open_event_stream g1 k1 = Inr (r2, g', k')"
    using op by (auto simp: apply_hotplug_def cl Let_def bindr_eq_Inr split: if_splits)
  then have "conn_inv g' k' \<and> others g' k' = others g k \<and> gp_monitor_fd g' = gp_monitor_fd g \<and>
    gp_monitor_buffer g' = gp_monitor_buffer g \<and>
    k_lookup k' (gp_monitor_fd g) = k_lookup k (gp_monitor_fd g) \<and>
    (0 \<le> gp_event_fd g' \<longrightarrow> td_present (gp_descriptor g') \<noteq> 0)"
  proof cases
    case same
    with inv show ?thesis by simp
  next
    case gone
    with c oth show ?thesis by simp
  next
    case opened
    note o = open_event_stream_inv [OF c(1) opened(2)]
    show ?thesis using o c oth opened(1) by simp
  qed
  then show "conn_inv g' k'" "others g' k' = others g k" "gp_monitor_fd g' = gp_monitor_fd g"
    "gp_monitor_buffer g' = gp_monitor_buffer g"
    "k_lookup k' (gp_monitor_fd g) = k_lookup k (gp_monitor_fd g)"
    "0 \<le> gp_event_fd g' \<longrightarrow> td_present (gp_descriptor g') \<noteq> 0" by simp_all
qed

section \<open>Draining the event connection\<close>

text \<open>
  Whatever the sizes of the chunks the kernel delivers, the loop processes exactly the complete
  records of the byte stream, in order, and keeps the incomplete rest.
\<close>

definition event_stream :: "termux_gamepad \<Rightarrow> sock \<Rightarrow> bytes" where
  "event_stream g s = gp_event_buffer g @ pending (rx s)"

definition stream_events :: "bytes \<Rightarrow> tg_input_event list" where
  "stream_events bs = map dec_event (chunks 24 bs)"

definition stays_open :: "recv_ans option \<Rightarrow> bool" where
  "stays_open a \<longleftrightarrow> a = None \<or> a = Some (RecvErr EAGAIN)"

definition loop_result :: "recv_ans option \<Rightarrow> int \<Rightarrow> int" where
  "loop_result a reports =
     (case a of Some (RecvErr e) \<Rightarrow> if e = EAGAIN then reports else - err e | _ \<Rightarrow> reports)"

lemma stream_events_short [simp]: "length bs < 24 \<Longrightarrow> stream_events bs = []"
  by (simp add: stream_events_def)

lemma stream_events_frame: "length f = 24 \<Longrightarrow> stream_events (f @ bs) = dec_event f # stream_events bs"
  by (simp add: stream_events_def chunks_frame)

lemma event_loop_spec:
  assumes "length (gp_event_buffer g) < 24" "event_loop g reports s = (ret, ended, g', s')"
  shows "ret = loop_result (ending (rx s)) (reports + count_reports (stream_events (event_stream g s))) \<and>
    ended = (\<not> stays_open (ending (rx s))) \<and>
    g' = g\<lparr>gp_state := run_events (gp_state g) (stream_events (event_stream g s)),
           gp_event_buffer := leftover 24 (event_stream g s)\<rparr>"
  using assms
proof (induction "rx_weight s" arbitrary: g reports s rule: less_induct)
  case less
  let ?n = "24 - length (gp_event_buffer g)"
  obtain a s1 where rc: "sock_recv ?n s = (a, s1)" by fastforce
  have pos: "0 < ?n" using less.prems(1) by simp
  note unfold = event_loop.simps [of g reports s] rc
  show ?case
  proof (cases "a = None \<or> a = Some (Data []) \<or> (\<exists>e. a = Some (RecvErr e) \<and> e \<noteq> EINTR)")
    case True
    note st = sock_recv_stopped [OF rc pos True]
    from True less.prems show ?thesis
      by (auto simp: unfold st event_stream_def loop_result_def stays_open_def split: if_splits)
  next
    case False
    then consider (intr) "a = Some (RecvErr EINTR)" | (data) bs where "a = Some (Data bs)" "bs \<noteq> []"
      by (cases a) (auto, metis recv_ans.exhaust)
    then show ?thesis
    proof cases
      case intr
      note rc' = rc [unfolded intr]
      have "event_stream g s = event_stream g s1" "ending (rx s) = ending (rx s1)"
        using sock_recv_interrupted [OF rc'] by (simp_all add: event_stream_def)
      moreover have "event_loop g reports s = event_loop g reports s1"
        by (simp add: unfold intr)
      ultimately show ?thesis using less.hyps [of s1 g reports] sock_recv_weight [OF rc'] less.prems by simp
    next
      case data
      note rc' = rc [unfolded data(1)]
      let ?b = "gp_event_buffer g @ bs"
      have len: "length ?b \<le> 24" using sock_recv_length [OF rc'] pos by simp
      have e: "ending (rx s) = ending (rx s1)" by (rule sock_recv_ending [OF rc' data(2)])
      have p: "event_stream g s = ?b @ pending (rx s1)"
        using sock_recv_pending [OF rc' data(2)] by (simp add: event_stream_def)
      show ?thesis
      proof (cases "length ?b = 24")
        case True
        let ?r = "if is_report (dec_event ?b) then reports + 1 else reports"
        let ?g = "g\<lparr>gp_state := state_event (gp_state g) (dec_event ?b), gp_event_buffer := []\<rparr>"
        have step: "event_loop g reports s = event_loop ?g ?r s1"
          using True data(2) by (simp add: unfold data process_event_def)
        have ev: "stream_events (event_stream g s) = dec_event ?b # stream_events (event_stream ?g s1)"
          "leftover 24 (event_stream g s) = leftover 24 (event_stream ?g s1)"
          unfolding p using True
          by (simp_all only: stream_events_frame leftover_frame event_stream_def, simp_all add: leftover_frame)
        show ?thesis
          using less.hyps [of s1 ?g ?r] sock_recv_weight [OF rc'] data(2) less.prems(2)
          by (simp add: step ev e add.assoc split: if_splits)
      next
        case False
        let ?g = "g\<lparr>gp_event_buffer := ?b\<rparr>"
        have step: "event_loop g reports s = event_loop ?g reports s1"
          using False data(2) by (simp add: unfold data)
        have ev: "event_stream g s = event_stream ?g s1"
          unfolding p by (simp add: event_stream_def)
        show ?thesis
          using less.hyps [of s1 ?g reports] sock_recv_weight [OF rc'] data(2) False len less.prems(2)
          by (simp add: step ev e)
      qed
    qed
  qed
qed

section \<open>The invariant of the public calls\<close>

lemma conn_inv_cong:
  assumes "\<And>f. (k_lookup k' f = None) = (k_lookup k f = None)"
  shows "conn_inv g k' = conn_inv g k"
  using assms by (simp add: conn_inv_def)

lemma others_cong:
  assumes "\<And>f. f \<notin> gp_owned g \<Longrightarrow> k_lookup k' f = k_lookup k f"
  shows "others g k' = others g k"
  using assms by (auto simp: others_def)

lemma others_same_fds:
  "gp_monitor_fd g' = gp_monitor_fd g \<Longrightarrow> gp_event_fd g' = gp_event_fd g \<Longrightarrow> others g' k = others g k"
  by (auto simp: others_def gp_owned_def)

lemma open_monitor_inv:
  assumes inv: "client_inv g k" and m: "gp_monitor_fd g < 0"
    and op: "open_monitor g k = Inr (r, g', k')"
  shows "client_inv g' k' \<and> others g' k' = others g k"
proof -
  obtain f k1 where co: "connect_socket (gp_socket_path g) k = (f, k1)" by fastforce
  note cl = connect_socket_lookup [OF co]
  have noev: "gp_event_fd g < 0" using inv m by (auto simp: client_inv_def)
  have same: "client_inv g k2 \<and> others g k2 = others g k" if "k_lookup k2 = k_lookup k" for k2
    using inv others_cong [of g k2 k] conn_inv_cong [of k2 k g] by (simp add: client_inv_def that)
  show ?thesis
  proof (cases "f < 0")
    case True
    then show ?thesis using op cl same [of k1] by (simp add: open_monitor_def co)
  next
    case False
    then obtain s1 where f: "0 \<le> f" "k_lookup k f = None" and k1: "k_lookup k1 = (k_lookup k)(f \<mapsto> s1)"
      using cl by auto
    obtain sr k2 where sc: "send_command f TG_CONTROL_MONITOR 0 0 0 k1 = (sr, k2)" by fastforce
    obtain r0 b k3 where rc: "(if sr = 0 then receive_all f 96 k2 else Inr ((sr, []), k2)) = Inr ((r0, b), k3)"
      using op False by (auto simp: open_monitor_def co sc bindr_eq_Inr)
    note hs = handshake_lookup [OF sc rc]
    obtain r1 k4 where nb: "set_nonblocking f k3 = (r1, k4)" by fastforce
    note nbl = set_nonblocking_lookup [OF nb]
    have closed: "(k_lookup k3)(f := None) = k_lookup k" "(k_lookup k4)(f := None) = k_lookup k"
      by (intro ext; use hs nbl k1 f in auto)+
    let ?g = "g\<lparr>gp_monitor_fd := f, gp_monitor_buffer := []\<rparr>"
    consider (fail) "g' = g" "k_lookup k' = k_lookup k"
      | (applied) "apply_hotplug ?g (dec_hotplug b) k4 = Inr (r, g', k')"
      using op \<open>\<not> f < 0\<close> closed
      by (auto simp: open_monitor_def co sc rc nb Let_def split: if_splits)
    then show ?thesis
    proof cases
      case fail
      then show ?thesis using same [of k'] by simp
    next
      case applied
      have k4: "k_lookup k4 f \<noteq> None" "g \<noteq> f \<Longrightarrow> k_lookup k4 g = k_lookup k g" for g
        using hs nbl k1 by auto
      have inv4: "conn_inv ?g k4"
        using inv k4 noev f by (auto simp: client_inv_def conn_inv_def)
      have oth4: "others ?g k4 = others g k"
        using k4 f noev m fdt.lookup_neg [of _ "fds k"]
        by (auto simp: others_def gp_owned_def fun_eq_iff)
      have ev: "0 \<le> gp_event_fd ?g \<longrightarrow> td_present (gp_descriptor ?g) \<noteq> 0"
        using noev by simp
      note a = apply_hotplug_inv [OF inv4 ev applied]
      show ?thesis using a oth4 f by (auto simp: client_inv_def)
    qed
  qed
qed

lemma monitor_lost_inv:
  assumes inv: "client_inv g k" and lost: "monitor_lost failed changed g k = (r, g', k')"
  shows "client_inv g' k' \<and> others g' k' = others g k"
proof -
  let ?k = "k_close (gp_monitor_fd g) k"
  let ?g = "g\<lparr>gp_monitor_fd := -1, gp_monitor_buffer := []\<rparr>"
  let ?d = "(gp_descriptor g)\<lparr>td_present := 0, td_device_id := -1\<rparr>"
  have c1: "conn_inv ?g ?k" and o1: "others ?g ?k = others g k"
    using inv fdt.lookup_neg [of _ "fds k"]
    by (auto simp: client_inv_def conn_inv_def others_def gp_owned_def fun_eq_iff)
  show ?thesis
  proof (cases "td_present (gp_descriptor g) = 0")
    case True
    then show ?thesis using lost c1 o1 inv by (auto simp: monitor_lost_def Let_def client_inv_def)
  next
    case False
    have c2: "conn_inv (?g\<lparr>gp_descriptor := ?d\<rparr>) ?k"
      using c1 by (simp add: conn_inv_def wf_public_def)
    obtain g3 k3 where cl: "close_event_stream (?g\<lparr>gp_descriptor := ?d\<rparr>) ?k = (g3, k3)" by fastforce
    note c = close_event_stream_inv [OF c2 cl]
    have "g' = g3" "k' = k3" using lost False cl by (auto simp: monitor_lost_def Let_def)
    moreover have "others (?g\<lparr>gp_descriptor := ?d\<rparr>) ?k = others ?g ?k"
      by (rule others_same_fds) simp_all
    ultimately show ?thesis using c o1 by (simp add: client_inv_def)
  qed
qed

lemma k_recv_dontwait_inv:
  assumes "k_recv_dontwait (gp_monitor_fd g) n k = (a, k1)" "conn_inv g k"
  shows "conn_inv g k1" "others g k1 = others g k"
proof -
  note l = k_recv_dontwait_lookup [OF assms(1)]
  show "conn_inv g k1" using assms(2) l(2) by (simp add: conn_inv_def)
  have "k_lookup k1 f = k_lookup k f" if "f \<notin> gp_owned g" for f
  proof (cases "f = gp_monitor_fd g")
    case True
    with that have "f < 0" by (auto simp: gp_owned_def)
    then show ?thesis by (simp add: fdt.lookup_neg)
  qed (simp add: l(1))
  then show "others g k1 = others g k" by (rule others_cong)
qed

lemma k_recv_dontwait_length:
  "k_recv_dontwait f n k = (Data bs, k1) \<Longrightarrow> length bs \<le> n"
  by (auto simp: k_recv_dontwait_def dest: sock_recv_length split: option.splits prod.splits)

lemma recv_fits:
  assumes "k_recv_dontwait f (n - length b) k = (Data bs, k1)" "length b < n"
  shows "length b + length bs \<le> n"
  using k_recv_dontwait_length [OF assms(1)] assms(2) by arith

definition monitor_weight :: "termux_gamepad \<Rightarrow> kernel \<Rightarrow> nat" where
  "monitor_weight g k = (case k_lookup k (gp_monitor_fd g) of None \<Rightarrow> 0 | Some s \<Rightarrow> rx_weight s)"

lemma refresh_fuel_weight: "refresh_fuel g k = Suc (monitor_weight g k)"
  by (simp add: refresh_fuel_def monitor_weight_def)

lemma k_recv_dontwait_weight:
  assumes "k_recv_dontwait (gp_monitor_fd g) n k = (a, k1)" "a \<noteq> Data []" "a \<noteq> RecvErr EAGAIN" "a \<noteq> RecvErr EBADF"
  shows "monitor_weight g k1 < monitor_weight g k"
  using assms sock_recv_weight
  by (auto simp: k_recv_dontwait_def monitor_weight_def fdt.update_lookup split: option.splits prod.splits)

text \<open>One complete hotplug message inside the loop.\<close>

lemma hotplug_step_inv:
  assumes inv: "client_inv g k" and len: "length b \<le> 96" and "0 \<le> gp_monitor_fd g"
    and op: "apply_hotplug (g\<lparr>gp_monitor_buffer := b\<rparr>) m k = Inr (r, g2, k2)"
  shows "client_inv (g2\<lparr>gp_monitor_buffer := []\<rparr>) k2"
    "others (g2\<lparr>gp_monitor_buffer := []\<rparr>) k2 = others g k"
    "0 \<le> gp_monitor_fd g2" "monitor_weight (g2\<lparr>gp_monitor_buffer := []\<rparr>) k2 = monitor_weight g k"
proof -
  let ?g = "g\<lparr>gp_monitor_buffer := b\<rparr>"
  have c: "conn_inv ?g k" using inv len by (auto simp: client_inv_def conn_inv_def)
  have e: "0 \<le> gp_event_fd ?g \<longrightarrow> td_present (gp_descriptor ?g) \<noteq> 0"
    using inv by (simp add: client_inv_def)
  note a = apply_hotplug_inv [OF c e op]
  show "client_inv (g2\<lparr>gp_monitor_buffer := []\<rparr>) k2"
    using a assms(3) by (auto simp: client_inv_def conn_inv_def)
  have "others (g2\<lparr>gp_monitor_buffer := []\<rparr>) k2 = others g2 k2" by (rule others_same_fds) simp_all
  also have "\<dots> = others ?g k" by (rule a(2))
  also have "\<dots> = others g k" by (rule others_same_fds) simp_all
  finally show "others (g2\<lparr>gp_monitor_buffer := []\<rparr>) k2 = others g k" .
  show "0 \<le> gp_monitor_fd g2" using a assms(3) by simp
  show "monitor_weight (g2\<lparr>gp_monitor_buffer := []\<rparr>) k2 = monitor_weight g k"
    using a by (simp add: monitor_weight_def)
qed

lemma refresh_loop_inv:
  assumes "client_inv g k" "0 \<le> gp_monitor_fd g" "refresh_loop fuel changed g k = Inr (r, g', k')"
  shows "client_inv g' k' \<and> others g' k' = others g k"
  using assms
proof (induction fuel arbitrary: changed g k)
  case 0
  then show ?case by simp
next
  case (Suc fuel)
  let ?n = "96 - length (gp_monitor_buffer g)"
  obtain a k1 where rc: "k_recv_dontwait (gp_monitor_fd g) ?n k = (a, k1)" by fastforce
  have "conn_inv g k" using Suc.prems(1) by (simp add: client_inv_def)
  note r1 = k_recv_dontwait_inv [OF rc this]
  have inv1: "client_inv g k1" using Suc.prems(1) r1 by (simp add: client_inv_def)
  show ?case
  proof (cases a)
    case (RecvErr e)
    have lost: "client_inv g' k' \<and> others g' k' = others g k"
      if "monitor_lost (Some e) changed g k1 = (r, g', k')"
      using monitor_lost_inv [OF inv1 that] r1 by simp
    show ?thesis
      using Suc.prems Suc.IH [OF inv1 Suc.prems(2)] r1 inv1 lost
      by (auto simp: rc RecvErr split: if_splits)
  next
    case (Data bs)
    have len: "length (gp_monitor_buffer g) + length bs \<le> 96"
      using recv_fits [OF rc [unfolded Data]] Suc.prems(1) by (simp add: client_inv_def)
    let ?b = "gp_monitor_buffer g @ bs"
    let ?g = "g\<lparr>gp_monitor_buffer := ?b\<rparr>"
    consider (eof) "bs = []" | (part) "bs \<noteq> []" "length ?b \<noteq> 96" | (full) "bs \<noteq> []" "length ?b = 96"
      by blast
    then show ?thesis
    proof cases
      case eof
      then have "monitor_lost None changed g k1 = (r, g', k')"
        using Suc.prems(3) by (simp add: rc Data)
      then show ?thesis using monitor_lost_inv [OF inv1] r1 by metis
    next
      case part
      have i: "client_inv ?g k1" using inv1 part len Suc.prems(2) by (auto simp: client_inv_def conn_inv_def)
      have "others ?g k1 = others g k1" by (rule others_same_fds) simp_all
      then show ?thesis using Suc.IH [OF i] Suc.prems part r1 by (simp add: rc Data)
    next
      case full
      then obtain ap g2 k2 where ah: "apply_hotplug ?g (dec_hotplug ?b) k1 = Inr (ap, g2, k2)"
        using Suc.prems(3) by (auto simp: rc Data bindr_eq_Inr)
      have "length ?b \<le> 96" using full by simp
      note h = hotplug_step_inv [OF inv1 this Suc.prems(2) ah]
      show ?thesis
      proof (cases "ap < 0")
        case True
        then show ?thesis using Suc.prems(3) full ah h r1 by (simp add: rc Data)
      next
        case False
        have "refresh_loop fuel (if 0 < ap then 1 else changed) (g2\<lparr>gp_monitor_buffer := []\<rparr>) k2 = Inr (r, g', k')"
          using Suc.prems(3) full ah False by (simp add: rc Data)
        then show ?thesis using Suc.IH [OF h(1)] h r1 by simp
      qed
    qed
  qed
qed

lemma refresh_inv:
  assumes "client_inv g k" "refresh g k = Inr (r, g', k')"
  shows "client_inv g' k' \<and> others g' k' = others g k"
  using assms open_monitor_inv [of g k r g' k'] refresh_loop_inv [of g k "refresh_fuel g k" 0 r g' k']
  by (auto simp: refresh_def split: if_splits)

text \<open>The only reason for a call not to return is a blocked handshake.\<close>

lemma receive_loop_Inl: "receive_loop n got s = Inl e \<Longrightarrow> e = Blocks"
proof (induction "rx_weight s" arbitrary: got s rule: less_induct)
  case less
  obtain a s1 where rc: "sock_recv (n - length got) s = (a, s1)" by fastforce
  show ?case
  proof (cases "a = None \<or> a = Some (Data [])")
    case True
    then show ?thesis using less.prems
      by (auto simp: receive_loop.simps [of n got s] rc split: if_splits)
  next
    case False
    then have "rx_weight s1 < rx_weight s"
      using sock_recv_weight [of "n - length got" s _ s1] rc by (cases a) auto
    then show ?thesis using less.prems less.hyps
      by (auto simp: receive_loop.simps [of n got s] rc split: if_splits option.splits recv_ans.splits)
  qed
qed

lemma bindr_eq_Inl: "bindr m f = Inl e \<longleftrightarrow> m = Inl e \<or> (\<exists>x. m = Inr x \<and> f x = Inl e)"
  by (cases m) auto

lemma receive_all_Inl: "receive_all f n k = Inl e \<Longrightarrow> e = Blocks"
  by (auto simp: receive_all_def on_sock_def bindr_eq_Inl dest: receive_loop_Inl split: option.splits)

lemma open_event_stream_Inl: "open_event_stream g k = Inl e \<Longrightarrow> e = Blocks"
  by (auto simp: open_event_stream_def Let_def bindr_eq_Inl split_beta dest: receive_all_Inl split: if_splits)

lemma apply_hotplug_Inl: "apply_hotplug g m k = Inl e \<Longrightarrow> e = Blocks"
  by (auto simp: apply_hotplug_def Let_def bindr_eq_Inl split_beta dest: open_event_stream_Inl split: if_splits)

lemma open_monitor_Inl: "open_monitor g k = Inl e \<Longrightarrow> e = Blocks"
  by (auto simp: open_monitor_def Let_def bindr_eq_Inl split_beta dest: receive_all_Inl apply_hotplug_Inl
        split: if_splits)

lemma refresh_loop_Inl:
  assumes "client_inv g k" "0 \<le> gp_monitor_fd g" "monitor_weight g k < fuel"
    "refresh_loop fuel changed g k = Inl e"
  shows "e = Blocks"
  using assms
proof (induction fuel arbitrary: changed g k)
  case 0
  then show ?case by simp
next
  case (Suc fuel)
  let ?n = "96 - length (gp_monitor_buffer g)"
  obtain a k1 where rc: "k_recv_dontwait (gp_monitor_fd g) ?n k = (a, k1)" by fastforce
  have "conn_inv g k" using Suc.prems(1) by (simp add: client_inv_def)
  note r1 = k_recv_dontwait_inv [OF rc this]
  have inv1: "client_inv g k1" using Suc.prems(1) r1 by (simp add: client_inv_def)
  have w: "monitor_weight g k1 < fuel" if "a \<noteq> Data []" "a \<noteq> RecvErr EAGAIN" "a \<noteq> RecvErr EBADF"
    using k_recv_dontwait_weight [OF rc that] Suc.prems(3) by simp
  show ?case
  proof (cases a)
    case (RecvErr e')
    then show ?thesis
      using Suc.prems Suc.IH [OF inv1 Suc.prems(2)] w by (auto simp: rc split: if_splits)
  next
    case (Data bs)
    have len: "length (gp_monitor_buffer g) + length bs \<le> 96"
      using recv_fits [OF rc [unfolded Data]] Suc.prems(1) by (simp add: client_inv_def)
    let ?b = "gp_monitor_buffer g @ bs"
    let ?g = "g\<lparr>gp_monitor_buffer := ?b\<rparr>"
    show ?thesis
    proof (cases "bs = [] \<or> length ?b \<noteq> 96")
      case True
      have "client_inv ?g k1" if "length ?b \<noteq> 96"
        using inv1 that len Suc.prems(2) by (auto simp: client_inv_def conn_inv_def)
      moreover have "monitor_weight ?g k1 = monitor_weight g k1" by (simp add: monitor_weight_def)
      ultimately show ?thesis
        using Suc.prems Suc.IH [of ?g k1] w True by (auto simp: rc Data split: if_splits)
    next
      case False
      show ?thesis
      proof (cases "apply_hotplug ?g (dec_hotplug ?b) k1")
        case (Inl e')
        then show ?thesis using Suc.prems(4) False apply_hotplug_Inl [OF Inl] by (simp add: rc Data)
      next
        case (Inr x)
        obtain ap g2 k2 where x: "x = (ap, g2, k2)" by (metis prod_cases3)
        have "length ?b \<le> 96" using False by simp
        note h = hotplug_step_inv [OF inv1 this Suc.prems(2) Inr [unfolded x]]
        show ?thesis
          using Suc.prems(4) False Inr x Suc.IH [OF h(1)] h w by (auto simp: rc Data Let_def split: if_splits)
      qed
    qed
  qed
qed

lemma refresh_Inl: "client_inv g k \<Longrightarrow> refresh g k = Inl e \<Longrightarrow> e = Blocks"
  using refresh_loop_Inl [of g k "refresh_fuel g k" 0 e] open_monitor_Inl [of g k e]
  by (auto simp: refresh_def refresh_fuel_weight split: if_splits)

subsection \<open>Update, create and destroy\<close>

lemma run_events_reset_length: "length (ts_axes st) = 6 \<Longrightarrow> length (ts_axes (run_events st evs)) = 6"
  by simp

lemma read_events_inv:
  assumes inv: "client_inv g k" and ev: "0 \<le> gp_event_fd g" and op: "read_events g k = (r, g', k')"
  shows "client_inv g' k' \<and> others g' k' = others g k"
proof -
  have c: "conn_inv g k" using inv by (simp add: client_inv_def)
  then obtain s where s: "k_lookup k (gp_event_fd g) = Some s"
    using ev by (auto simp: conn_inv_def)
  obtain ret ended g1 s1 where lp: "event_loop g 0 s = (ret, ended, g1, s1)" by (metis prod_cases4)
  have buf: "length (gp_event_buffer g) < 24" using c by (simp add: conn_inv_def)
  note spec = event_loop_spec [OF buf lp]
  let ?k1 = "k\<lparr>fds := fd_update (gp_event_fd g) s1 (fds k)\<rparr>"
  have look: "(k_lookup ?k1 f = None) = (k_lookup k f = None)"
    "f \<noteq> gp_event_fd g \<Longrightarrow> k_lookup ?k1 f = k_lookup k f" for f
    using s by (auto simp: fdt.update_lookup)
  have fds1: "gp_event_fd g1 = gp_event_fd g" "gp_monitor_fd g1 = gp_monitor_fd g"
    "gp_descriptor g1 = gp_descriptor g" "gp_monitor_buffer g1 = gp_monitor_buffer g"
    "length (gp_event_buffer g1) < 24" "length (ts_axes (gp_state g1)) = length (ts_axes (gp_state g))"
    using spec by (simp_all add: length_leftover)
  have inv1: "client_inv g1 ?k1"
    using inv ev fds1 look by (simp add: client_inv_def conn_inv_def)
  have oth1: "others g1 ?k1 = others g k"
  proof -
    have "others g1 ?k1 = others g ?k1" by (rule others_same_fds) (simp_all add: fds1)
    also have "\<dots> = others g k"
      using look(2) ev by (intro others_cong) (auto simp: gp_owned_def)
    finally show ?thesis .
  qed
  show ?thesis
  proof (cases ended)
    case True
    obtain g2 k2 where cl: "close_event_stream g1 ?k1 = (g2, k2)" by fastforce
    have "conn_inv g1 ?k1" using inv1 by (simp add: client_inv_def)
    note c2 = close_event_stream_inv [OF this cl]
    have "g' = g2" "k' = k2" using op s lp True cl by (simp_all add: read_events_def)
    then show ?thesis using c2 inv1 oth1 by (auto simp: client_inv_def)
  next
    case False
    then have "g' = g1" "k' = ?k1" using op s lp by (simp_all add: read_events_def)
    then show ?thesis using inv1 oth1 by simp
  qed
qed

lemma update_inv:
  assumes inv: "client_inv g k" and op: "update g k = Inr (r, g', k')"
  shows "client_inv g' k' \<and> others g' k' = others g k"
proof -
  obtain rf g1 k1 where rf: "refresh g k = Inr (rf, g1, k1)"
    using op by (auto simp: update_def bindr_eq_Inr)
  note i1 = refresh_inv [OF inv rf]
  obtain x g2 k2 where op2: "(if gp_event_fd g1 < 0 \<and> td_present (gp_descriptor g1) \<noteq> 0
      then open_event_stream g1 k1 else Inr (0, g1, k1)) = Inr (x, g2, k2)"
    and fin: "(if rf < 0 \<and> gp_event_fd g2 < 0 then Inr (rf, g2, k2)
         else if gp_event_fd g2 < 0 then Inr (0, g2, k2)
         else Inr (read_events g2 k2) :: fault + _) = Inr (r, g', k')"
    using op by (auto simp: update_def bindr_eq_Inr rf)
  have i2: "client_inv g2 k2 \<and> others g2 k2 = others g k"
  proof (cases "gp_event_fd g1 < 0 \<and> td_present (gp_descriptor g1) \<noteq> 0")
    case True
    have "conn_inv g1 k1" using i1 by (simp add: client_inv_def)
    note o = open_event_stream_inv [OF this, of x g2 k2]
    then show ?thesis using True op2 i1 by (auto simp: client_inv_def)
  next
    case False
    then show ?thesis using op2 i1 by auto
  qed
  then show ?thesis using fin read_events_inv [of g2 k2 r g' k'] by (auto split: if_splits)
qed

lemma update_Inl: "client_inv g k \<Longrightarrow> update g k = Inl e \<Longrightarrow> e = Blocks"
  by (auto simp: update_def bindr_eq_Inl dest: refresh_Inl open_event_stream_Inl split: if_splits)

lemma client_inv_initial: "client_inv (initial_handle path) k"
  by (simp add: client_inv_def conn_inv_def initial_handle_def wf_public_def terminated_def)

lemma others_initial: "others (initial_handle path) k = k_lookup k"
  by (auto simp: others_def gp_owned_def initial_handle_def fdt.lookup_neg fun_eq_iff)

lemma create_inv:
  assumes "termux_gamepad_create mem env path k = Inr (Some g, k')"
  shows "client_inv g k' \<and> others g k' = k_lookup k"
proof -
  let ?h = "initial_handle (default_path env path)"
  obtain r where "open_monitor ?h k = Inr (r, g, k')"
    using assms by (auto simp: termux_gamepad_create_def Let_def bindr_eq_Inr split: if_splits)
  moreover have "gp_monitor_fd ?h < 0" by (simp add: initial_handle_def)
  ultimately show ?thesis
    using open_monitor_inv [OF client_inv_initial] others_initial by metis
qed

lemma destroy_lookup:
  assumes "conn_inv g k"
  shows "k_lookup (termux_gamepad_destroy (Some g) k) = others g k"
proof -
  obtain r k1 where sc: "send_command (gp_event_fd g) TG_CONTROL_STOP_RUMBLE 0 0 0 k = (r, k1)" by fastforce
  note l = send_command_lookup [OF sc]
  show ?thesis
    using l assms fdt.lookup_neg [of _ "fds k"]
    by (auto simp: termux_gamepad_destroy_def sc others_def gp_owned_def fun_eq_iff not_le)
qed

end
