(* ===== verification/GamepadTransfer.thy ===== *)
theory GamepadTransfer
  imports GamepadInvariant
begin

text \<open>
  What the client library's transfers put on the wire and take from it: \<open>send_all\<close> delivers all
  bytes in order or reports an error after a proper prefix, \<open>receive_all\<close> takes exactly the bytes
  asked for and leaves the rest in the stream, and a successful handshake has sent the query,
  read a valid descriptor and kept every byte after it for the event loop. The last section
  states when a call returns at all.
\<close>

section \<open>Sending\<close>

lemma send_loop_spec:
  assumes "send_loop bs s = (r, s')"
  shows "rx s' = rx s \<and> peer s' = peer s \<and> r \<le> 0 \<and>
    (r = 0 \<longrightarrow> sent s' = sent s @ bs) \<and>
    (r \<noteq> 0 \<longrightarrow> (\<exists>m. m < length bs \<and> sent s' = sent s @ take m bs))"
  using assms
proof (induction bs s rule: send_loop.induct)
  case (1 bs s)
  show ?case
  proof (cases "bs = []")
    case True
    then show ?thesis using "1.prems" by (auto simp: send_loop.simps [of "[]" s])
  next
    case False
    obtain a s1 where sd: "sock_send bs s = (a, s1)" by fastforce
    note fr = sock_send_frame [OF sd]
    note unfold = send_loop.simps [of bs s] sd
    have stop: "?thesis" if "r < 0" "s' = s1" "\<forall>n. a \<noteq> Wrote n"
      using that fr sock_send_other [OF sd] False by (auto intro!: exI [of _ 0])
    show ?thesis
    proof (cases a)
      case (Wrote n)
      note w = sock_send_Wrote [OF sd [unfolded Wrote]]
      show ?thesis
      proof (cases "0 < n")
        case True
        then have "send_loop (drop n bs) s1 = (r, s')" using "1.prems" False Wrote by (simp add: unfold)
        with "1.IH"(1) [OF False sd [symmetric] Wrote True]
        have ih: "rx s' = rx s1" "peer s' = peer s1" "r \<le> 0"
          "r = 0 \<Longrightarrow> sent s' = sent s1 @ drop n bs"
          "r \<noteq> 0 \<Longrightarrow> \<exists>m<length (drop n bs). sent s' = sent s1 @ take m (drop n bs)" by simp_all
        have "\<exists>m<length bs. sent s' = sent s @ take m bs" if "r \<noteq> 0"
        proof -
          obtain m where "m < length (drop n bs)" "sent s' = sent s1 @ take m (drop n bs)"
            using ih(5) \<open>r \<noteq> 0\<close> by blast
          then show ?thesis using w by (intro exI [of _ "n + m"]) (simp add: take_add)
        qed
        then show ?thesis using ih(1-4) w fr by simp
      next
        case False
        then show ?thesis using "1.prems" \<open>bs \<noteq> []\<close> Wrote w fr by (auto simp: unfold intro!: exI [of _ 0])
      qed
    next
      case (SendErr e)
      show ?thesis
        using "1.prems" "1.IH"(2) [OF False sd [symmetric] SendErr] SendErr False fr stop sock_send_other [OF sd]
        by (auto simp: unfold split: if_splits)
    next
      case (SendAgain p)
      show ?thesis
        using "1.prems" "1.IH"(3) [OF False sd [symmetric] SendAgain] SendAgain False fr stop sock_send_other [OF sd]
        by (auto simp: unfold split: poll_ans.splits)
    qed
  qed
qed

section \<open>Receiving\<close>

lemma receive_loop_spec:
  assumes "receive_loop n got s = Inr ((r, buf), s')"
  shows "sent s' = sent s \<and> peer s' = peer s \<and> r \<le> 0 \<and>
    (r = 0 \<longrightarrow> (\<exists>more. buf = got @ more \<and> pending (rx s) = more @ pending (rx s') \<and>
                    ending (rx s) = ending (rx s') \<and> length buf = max n (length got))) \<and>
    (r \<noteq> 0 \<longrightarrow> buf = got @ pending (rx s) \<and> length buf < n)"
  using assms
proof (induction "rx_weight s" arbitrary: got s rule: less_induct)
  case less
  note unfold = receive_loop.simps [of n got s]
  show ?case
  proof (cases "n \<le> length got")
    case True
    then show ?thesis using less.prems by (auto simp: unfold max_def)
  next
    case False
    let ?n = "n - length got"
    have pos: "0 < ?n" using False by simp
    obtain a s1 where rc: "sock_recv ?n s = (a, s1)" by fastforce
    note fr = sock_recv_frame [OF rc]
    show ?thesis
    proof (cases "a = None \<or> a = Some (Data []) \<or> (\<exists>e. a = Some (RecvErr e) \<and> e \<noteq> EINTR)")
      case True
      note st = sock_recv_stopped [OF rc pos True]
      show ?thesis using True False less.prems fr st by (auto simp: unfold rc)
    next
      case cont: False
      then consider (intr) "a = Some (RecvErr EINTR)" | (data) bs where "a = Some (Data bs)" "bs \<noteq> []"
        by (cases a) (auto, metis recv_ans.exhaust)
      then show ?thesis
      proof cases
        case intr
        note i = sock_recv_interrupted [OF rc [unfolded intr]]
        have "receive_loop n got s1 = Inr ((r, buf), s')"
          using less.prems False by (simp add: unfold rc intr)
        then show ?thesis
          using less.hyps [of s1 got] sock_recv_weight [OF rc [unfolded intr]] i fr by auto
      next
        case data
        note rc' = rc [unfolded data(1)]
        have "receive_loop n (got @ bs) s1 = Inr ((r, buf), s')"
          using less.prems False data by (simp add: unfold rc)
        moreover have "rx_weight s1 < rx_weight s" using sock_recv_weight [OF rc'] data(2) by simp
        moreover have "length (got @ bs) \<le> n" using sock_recv_length [OF rc'] False by simp
        ultimately show ?thesis
          using less.hyps [of s1 "got @ bs"] sock_recv_pending [OF rc' data(2)]
            sock_recv_ending [OF rc' data(2)] fr False
          by (fastforce simp: max_def)
      qed
    qed
  qed
qed

text \<open>A receive returns as soon as the peer has sent enough or the stream has ended.\<close>

definition answers :: "nat \<Rightarrow> sock \<Rightarrow> bool" where
  "answers n s \<longleftrightarrow> n \<le> length (pending (rx s)) \<or> ending (rx s) \<noteq> None"

lemma receive_loop_returns:
  assumes "answers (n - length got) s"
  shows "\<exists>x. receive_loop n got s = Inr x"
  using assms
proof (induction "rx_weight s" arbitrary: got s rule: less_induct)
  case less
  note unfold = receive_loop.simps [of n got s]
  show ?case
  proof (cases "n \<le> length got")
    case True
    then show ?thesis by (simp add: unfold)
  next
    case False
    let ?n = "n - length got"
    have pos: "0 < ?n" using False by simp
    obtain a s1 where rc: "sock_recv ?n s = (a, s1)" by fastforce
    show ?thesis
    proof (cases "a = None \<or> a = Some (Data []) \<or> (\<exists>e. a = Some (RecvErr e) \<and> e \<noteq> EINTR)")
      case True
      note st = sock_recv_stopped [OF rc pos True]
      have "a \<noteq> None" using st less.prems pos by (auto simp: answers_def)
      then show ?thesis using True False by (auto simp: unfold rc)
    next
      case cont: False
      then consider (intr) "a = Some (RecvErr EINTR)" | (data) bs where "a = Some (Data bs)" "bs \<noteq> []"
        by (cases a) (auto, metis recv_ans.exhaust)
      then show ?thesis
      proof cases
        case intr
        note i = sock_recv_interrupted [OF rc [unfolded intr]]
        have "answers ?n s1" using less.prems i by (simp add: answers_def)
        then show ?thesis
          using less.hyps [of s1 got] sock_recv_weight [OF rc [unfolded intr]] False
          by (simp add: unfold rc intr)
      next
        case data
        note rc' = rc [unfolded data(1)]
        have "answers (n - length (got @ bs)) s1"
          using less.prems sock_recv_pending [OF rc' data(2)] sock_recv_ending [OF rc' data(2)]
          by (auto simp: answers_def)
        then show ?thesis
          using less.hyps [of s1 "got @ bs"] sock_recv_weight [OF rc'] data False
          by (simp add: unfold rc)
      qed
    qed
  qed
qed

section \<open>Transfers on a descriptor\<close>

lemma send_command_spec:
  assumes "send_command f c l h d k = (r, k1)" "k_lookup k f = Some s"
  shows "\<exists>s1. k_lookup k1 f = Some s1 \<and> rx s1 = rx s \<and> peer s1 = peer s \<and> r \<le> 0 \<and>
    (r = 0 \<longrightarrow> sent s1 = sent s @ enc_control (control_message c l h d)) \<and>
    (r \<noteq> 0 \<longrightarrow> (\<exists>m<16. sent s1 = sent s @ take m (enc_control (control_message c l h d))))"
proof -
  let ?m = "enc_control (control_message c l h d)"
  obtain r0 s1 where lp: "send_loop ?m s = (r0, s1)" by fastforce
  have "length ?m = 16" by (rule ctl.length_enc) simp
  then show ?thesis
    using assms send_loop_spec [OF lp]
    by (auto simp: send_command_def send_all_def lp fdt.update_lookup)
qed

lemma receive_all_spec:
  assumes "receive_all f n k = Inr ((r, buf), k1)" "k_lookup k f = Some s"
  shows "\<exists>s1. k_lookup k1 f = Some s1 \<and> sent s1 = sent s \<and> peer s1 = peer s \<and> r \<le> 0 \<and>
    (r = 0 \<longrightarrow> pending (rx s) = buf @ pending (rx s1) \<and> ending (rx s) = ending (rx s1) \<and> length buf = n)"
proof -
  obtain s1 where lp: "receive_loop n [] s = Inr ((r, buf), s1)"
    and k1: "k1 = k\<lparr>fds := fd_update f s1 (fds k)\<rparr>"
    using assms by (auto simp: receive_all_def on_sock_def bindr_eq_Inr)
  then show ?thesis using receive_loop_spec [OF lp] assms(2) by (auto simp: fdt.update_lookup)
qed

lemma receive_all_returns:
  assumes "k_lookup k f = Some s" "answers n s"
  shows "\<exists>x. receive_all f n k = Inr x"
  using assms receive_loop_returns [of n "[]" s] by (auto simp: receive_all_def on_sock_def)

lemma connect_socket_peer:
  assumes "connect_socket path k = (f, k1)" "0 \<le> f"
  shows "\<exists>s0. dial k (dialled k) = Connects s0 \<and> length (cstr path) < 108 \<and> k_lookup k f = None \<and>
    k_lookup k1 f = Some (s0\<lparr>peer := cstr path, sent := [], nonblock := False, cloexec := True\<rparr>)"
proof -
  have short: "length (cstr path) < 108"
    using assms by (auto simp: connect_socket_def strlen_from_cstr split: if_splits)
  then have path: "cstr (strncpy (replicate 108 0) path 107) = cstr path" by (simp add: cstr_strncpy)
  have ns: "\<not> 108 \<le> strlen_from path" using short by (simp add: strlen_from_cstr)
  obtain r k2 where so: "k_socket k = (r, k2)" by fastforce
  then obtain f' where r: "r = Inr f'" using assms ns by (cases r) (auto simp: connect_socket_def)
  note sk = k_socket_Inr [OF so [unfolded r]]
  have d: "dial k2 = dial k" "dialled k2 = dialled k"
    using so r by (auto simp: k_socket_def Let_def split: attempt.splits prod.splits)
  obtain e k3 where co: "k_connect f' (cstr path) k2 = (e, k3)" by fastforce
  have e: "e = None" and f: "f = f'" and k1: "k1 = k3"
    using assms ns so r co path by (auto simp: connect_socket_def split: option.splits)
  from co obtain s0 where "dial k (dialled k) = Connects s0"
    using e d by (auto simp: k_connect_def Let_def split: attempt.splits)
  then show ?thesis
    using co sk short d by (auto simp: k_connect_def f k1 fdt.update_lookup Let_def)
qed

lemma set_nonblocking_spec:
  assumes "set_nonblocking f k = (r, k1)" "k_lookup k f = Some s" "r = 0"
  shows "k_lookup k1 f = Some (s\<lparr>nonblock := True, cloexec := True\<rparr>)"
  using assms
  by (auto simp: set_nonblocking_def k_set_nonblock_def k_set_cloexec_def fdt.update_lookup
        split: option.splits prod.splits)

text \<open>A device handshake that succeeds.\<close>

lemma open_event_stream_content:
  assumes inv: "conn_inv g k" and op: "open_event_stream g k = Inr (0, g', k')"
  shows "\<exists>s0 s b. dial k (dialled k) = Connects s0 \<and> k_lookup k' (gp_event_fd g') = Some s \<and>
    peer s = cstr (gp_socket_path g) \<and>
    sent s = enc_control (control_message TG_CONTROL_QUERY_DESCRIPTOR 0 0 0) \<and>
    nonblock s \<and> cloexec s \<and> pending (rx s0) = b @ pending (rx s) \<and> length b = 88 \<and>
    dd_magic (dec_descriptor b) = TG_DEVICE_MAGIC \<and> dd_version (dec_descriptor b) = TG_CONTROL_VERSION \<and>
    dd_present (dec_descriptor b) \<noteq> 0"
proof -
  obtain f k1 where co: "connect_socket (gp_socket_path g) k = (f, k1)" by fastforce
  have f: "0 \<le> f" using op by (auto simp: open_event_stream_def co split: if_splits)
  then obtain s0 where d: "dial k (dialled k) = Connects s0" and free: "k_lookup k f = None"
    and s1: "k_lookup k1 f = Some (s0\<lparr>peer := cstr (gp_socket_path g), sent := [], nonblock := False, cloexec := True\<rparr>)"
    using connect_socket_peer [OF co] by blast
  obtain sr k2 where sc: "send_command f TG_CONTROL_QUERY_DESCRIPTOR 0 0 0 k1 = (sr, k2)" by fastforce
  obtain r0 b k3 where rc: "(if sr = 0 then receive_all f 88 k2 else Inr ((sr, []), k2)) = Inr ((r0, b), k3)"
    using op f by (auto simp: open_event_stream_def co sc bindr_eq_Inr)
  obtain r1 k4 where nb: "set_nonblocking f k3 = (r1, k4)" by fastforce
  obtain s2 where s2: "k_lookup k2 f = Some s2" "rx s2 = rx s0" "peer s2 = cstr (gp_socket_path g)" "sr \<le> 0"
    "sr = 0 \<longrightarrow> sent s2 = enc_control (control_message TG_CONTROL_QUERY_DESCRIPTOR 0 0 0)"
    using send_command_spec [OF sc s1] by auto
  have ok: "\<not> r0 < 0" "dd_magic (dec_descriptor b) = TG_DEVICE_MAGIC"
    "dd_version (dec_descriptor b) = TG_CONTROL_VERSION" "dd_present (dec_descriptor b) \<noteq> 0"
    using op f by (auto simp: open_event_stream_def co sc rc Let_def split: if_splits)
  have r1: "\<not> r1 < 0" using op f ok by (auto simp: open_event_stream_def co sc rc nb Let_def split: if_splits)
  then have r10: "r1 = 0" using set_nonblocking_lookup(3) [OF nb] by simp
  have sr: "sr = 0" using rc s2(4) ok(1) by (auto split: if_splits)
  then have rc': "receive_all f 88 k2 = Inr ((r0, b), k3)" using rc by simp
  obtain s3 where s3: "k_lookup k3 f = Some s3" "sent s3 = sent s2" "peer s3 = peer s2" "r0 \<le> 0"
    "r0 = 0 \<longrightarrow> pending (rx s2) = b @ pending (rx s3) \<and> length b = 88"
    using receive_all_spec [OF rc' s2(1)] by auto
  have s4: "k_lookup k4 f = Some (s3\<lparr>nonblock := True, cloexec := True\<rparr>)"
    by (rule set_nonblocking_spec [OF nb s3(1) r10])
  have fe: "f \<noteq> gp_event_fd g" using free inv f by (auto simp: conn_inv_def)
  have g': "gp_event_fd g' = f" "k_lookup k' f = k_lookup k4 f"
    using op f ok r1 fe by (auto simp: open_event_stream_def co sc rc nb Let_def close_event_stream_def)
  show ?thesis
    using d s4 g' s3 s2 sr ok by (intro exI [of _ s0] exI [of _ "s3\<lparr>nonblock := True, cloexec := True\<rparr>"] exI [of _ b]) auto
qed

section \<open>Calls return when the bridge answers\<close>

text \<open>Every bridge the process may still connect to sends a full hotplug message or hangs up.\<close>

definition answering :: "kernel \<Rightarrow> bool" where
  "answering k \<longleftrightarrow> (\<forall>n s. dial k n = Connects s \<longrightarrow> answers 96 s)"

lemma dial_frames [frame]:
  "dial (k_close f k) = dial k"
  "dial (k_set_cloexec f k) = dial k"
  "dial (snd (k_socket k)) = dial k"
  "dial (snd (k_connect f p k)) = dial k"
  "dial (snd (k_set_nonblock f k)) = dial k"
  "dial (snd (send_all f bs k)) = dial k"
  "dial (snd (k_recv_dontwait f n k)) = dial k"
  by (auto simp: k_close_def k_set_cloexec_def k_socket_def k_connect_def k_set_nonblock_def send_all_def
        k_recv_dontwait_def Let_def split: option.splits attempt.splits prod.splits)

lemma dial_set_nonblocking [frame]: "dial (snd (set_nonblocking f k)) = dial k"
proof -
  obtain e k1 where n: "k_set_nonblock f k = (e, k1)" by fastforce
  have "dial k1 = dial k" using dial_frames(5) [of f k] by (simp add: n)
  then show ?thesis by (cases e) (simp_all add: set_nonblocking_def n dial_frames)
qed

lemma dial_helpers [frame]:
  "dial (snd (send_command f c l h d k)) = dial k"
  "dial (snd (close_event_stream g k)) = dial k"
  by (simp_all add: send_command_def close_event_stream_def dial_frames)

lemma dial_connect_socket [frame]: "dial (snd (connect_socket p k)) = dial k"
proof -
  obtain r k1 where so: "k_socket k = (r, k1)" by fastforce
  have k1: "dial k1 = dial k" using dial_frames(3) [of k] so by simp
  have "dial (snd (case k_connect f q k1 of (Some e, k2) \<Rightarrow> (- err e, k_close f k2) | (None, k2) \<Rightarrow> (f, k2))) = dial k"
    for f q
  proof -
    obtain e k2 where n: "k_connect f q k1 = (e, k2)" by fastforce
    have "dial k2 = dial k" using dial_frames(4) [of f q k1] k1 by (simp add: n)
    then show ?thesis by (cases e) (simp_all add: n dial_frames)
  qed
  then show ?thesis by (auto simp: connect_socket_def so k1 split: sum.splits)
qed

lemma receive_all_dial: "receive_all f n k = Inr x \<Longrightarrow> dial (snd x) = dial k"
  by (auto simp: receive_all_def on_sock_def bindr_eq_Inr split: option.splits)

lemma open_event_stream_dial: "open_event_stream g k = Inr x \<Longrightarrow> dial (snd (snd x)) = dial k"
  by (auto simp: open_event_stream_def Let_def bindr_eq_Inr split_beta dial_frames dial_helpers dial_connect_socket
        dial_set_nonblocking        dest!: receive_all_dial split: if_split_asm)

lemma apply_hotplug_dial: "apply_hotplug g m k = Inr x \<Longrightarrow> dial (snd (snd x)) = dial k"
  by (auto simp: apply_hotplug_def Let_def bindr_eq_Inr split_beta dial_helpers
        dest!: open_event_stream_dial split: if_split_asm)

text \<open>A handshake with an answering bridge returns.\<close>

lemma handshake_returns:
  assumes ans: "answering k" and n: "n \<le> 96"
    and co: "connect_socket p k = (f, k1)" "0 \<le> f" and sc: "send_command f c 0 0 0 k1 = (sr, k2)"
  shows "\<exists>x. receive_all f n k2 = Inr x"
proof -
  obtain s0 where d: "dial k (dialled k) = Connects s0"
    and s1: "k_lookup k1 f = Some (s0\<lparr>peer := cstr p, sent := [], nonblock := False, cloexec := True\<rparr>)"
    using connect_socket_peer [OF co] by blast
  obtain s2 where s2: "k_lookup k2 f = Some s2" "rx s2 = rx s0"
    using send_command_spec [OF sc s1] by auto
  have "answers n s2" using ans d n s2 by (force simp: answering_def answers_def)
  then show ?thesis using receive_all_returns s2 by blast
qed

lemma open_event_stream_returns: "answering k \<Longrightarrow> \<exists>x. open_event_stream g k = Inr x"
proof -
  assume ans: "answering k"
  obtain f k1 where co: "connect_socket (gp_socket_path g) k = (f, k1)" by fastforce
  obtain sr k2 where sc: "send_command f TG_CONTROL_QUERY_DESCRIPTOR 0 0 0 k1 = (sr, k2)" by fastforce
  have "\<exists>x. receive_all f 88 k2 = Inr x" if "\<not> f < 0"
    using handshake_returns [OF ans _ co _ sc, of 88] that by simp
  then show ?thesis by (auto simp: open_event_stream_def co sc Let_def split_beta)
qed

lemma apply_hotplug_returns: "answering k \<Longrightarrow> \<exists>x. apply_hotplug g m k = Inr x"
proof -
  assume ans: "answering k"
  let ?c = "close_event_stream (g\<lparr>gp_descriptor := copy_descriptor (hm_descriptor m)\<rparr>) k"
  have "answering (snd ?c)" using ans by (simp add: answering_def dial_helpers)
  then obtain x where "open_event_stream (fst ?c) (snd ?c) = Inr x"
    using open_event_stream_returns by blast
  then show ?thesis by (auto simp: apply_hotplug_def Let_def split_beta)
qed

lemma open_monitor_returns: "answering k \<Longrightarrow> \<exists>x. open_monitor g k = Inr x"
proof -
  assume ans: "answering k"
  obtain f k1 where co: "connect_socket (gp_socket_path g) k = (f, k1)" by fastforce
  obtain sr k2 where sc: "send_command f TG_CONTROL_MONITOR 0 0 0 k1 = (sr, k2)" by fastforce
  have d2: "dial k2 = dial k"
    using dial_helpers(1) [of f TG_CONTROL_MONITOR 0 0 0 k1] dial_connect_socket [of "gp_socket_path g" k] co sc by simp
  show ?thesis
  proof (cases "f < 0")
    case True
    then show ?thesis by (simp add: open_monitor_def co)
  next
    case False
    obtain r b k3 where rc: "(if sr = 0 then receive_all f 96 k2 else Inr ((sr, []), k2)) = Inr ((r, b), k3)"
      using handshake_returns [OF ans _ co _ sc, of 96] False by (cases "sr = 0") auto
    have "dial k3 = dial k" using rc d2 receive_all_dial by (auto split: if_splits)
    then have "answering (snd (set_nonblocking f k3))"
      using ans by (simp add: answering_def dial_set_nonblocking)
    then obtain x where "apply_hotplug (g\<lparr>gp_monitor_fd := f, gp_monitor_buffer := []\<rparr>) (dec_hotplug b)
        (snd (set_nonblocking f k3)) = Inr x"
      using apply_hotplug_returns by blast
    then show ?thesis using False rc
      by (cases "sr = 0"; cases x) (auto simp: open_monitor_def co sc Let_def split_beta)
  qed
qed

lemma monitor_lost_dial: "dial (snd (snd (monitor_lost failed changed g k))) = dial k"
  using dial_helpers(2) by (auto simp: monitor_lost_def Let_def split_beta dial_frames)

lemma refresh_loop_returns:
  assumes "client_inv g k" "0 \<le> gp_monitor_fd g" "monitor_weight g k < fuel" "answering k"
  shows "\<exists>x. refresh_loop fuel changed g k = Inr x \<and> dial (snd (snd x)) = dial k"
  using assms
proof (induction fuel arbitrary: changed g k)
  case 0
  then show ?case by simp
next
  case (Suc fuel)
  let ?n = "96 - length (gp_monitor_buffer g)"
  obtain a k1 where rc: "k_recv_dontwait (gp_monitor_fd g) ?n k = (a, k1)" by fastforce
  have d1: "dial k1 = dial k" using dial_frames(7) [of "gp_monitor_fd g" ?n k] rc by simp
  have ans1: "answering k1" using Suc.prems(4) d1 by (simp add: answering_def)
  have "conn_inv g k" using Suc.prems(1) by (simp add: client_inv_def)
  note r1 = k_recv_dontwait_inv [OF rc this]
  have inv1: "client_inv g k1" using Suc.prems(1) r1 by (simp add: client_inv_def)
  have w: "monitor_weight g k1 < fuel" if "a \<noteq> Data []" "a \<noteq> RecvErr EAGAIN" "a \<noteq> RecvErr EBADF"
    using k_recv_dontwait_weight [OF rc that] Suc.prems(3) by simp
  show ?case
  proof (cases a)
    case (RecvErr e)
    then show ?thesis
      using Suc.IH [OF inv1 Suc.prems(2) _ ans1] w d1 monitor_lost_dial [of "Some e" changed g k1]
      by (cases "monitor_lost (Some e) changed g k1") (auto simp: rc)
  next
    case (Data bs)
    have len: "length (gp_monitor_buffer g) + length bs \<le> 96"
      using recv_fits [OF rc [unfolded Data]] Suc.prems(1) by (simp add: client_inv_def)
    let ?b = "gp_monitor_buffer g @ bs"
    let ?g = "g\<lparr>gp_monitor_buffer := ?b\<rparr>"
    show ?thesis
    proof (cases "bs = [] \<or> length ?b \<noteq> 96")
      case True
      have "client_inv ?g k1" if "length ?b \<noteq> 96"
        using inv1 that len Suc.prems(2) by (auto simp: client_inv_def conn_inv_def)
      moreover have "monitor_weight ?g k1 = monitor_weight g k1" by (simp add: monitor_weight_def)
      ultimately show ?thesis
        using Suc.prems(2) Suc.IH [of ?g k1 changed] w True d1 ans1 monitor_lost_dial [of None changed g k1]
        by (cases "monitor_lost None changed g k1") (auto simp: rc Data)
    next
      case False
      obtain ap g2 k2 where ah: "apply_hotplug ?g (dec_hotplug ?b) k1 = Inr (ap, g2, k2)"
        using apply_hotplug_returns [OF ans1] by (metis prod_cases3)
      have d2: "dial k2 = dial k" using apply_hotplug_dial [OF ah] d1 by simp
      have ans2: "answering k2" using Suc.prems(4) d2 by (simp add: answering_def)
      have "length ?b \<le> 96" using False by simp
      note h = hotplug_step_inv [OF inv1 this Suc.prems(2) ah]
      have w2: "monitor_weight (g2\<lparr>gp_monitor_buffer := []\<rparr>) k2 < fuel" using h w False Data by simp
      show ?thesis
        using False ah Suc.IH [OF h(1) _ w2 ans2] h(3) d2 by (auto simp: rc Data Let_def)
    qed
  qed
qed

lemma refresh_returns:
  assumes "client_inv g k" "answering k"
  shows "\<exists>x. refresh g k = Inr x \<and> (0 \<le> gp_monitor_fd g \<longrightarrow> dial (snd (snd x)) = dial k)"
  using refresh_loop_returns [of g k "refresh_fuel g k" 0] open_monitor_returns [of k g] assms
  by (auto simp: refresh_def refresh_fuel_weight)

lemma open_monitor_dial:
  assumes "open_monitor g k = Inr x"
  shows "dial (snd (snd x)) = dial k"
  using assms
  by (auto simp: open_monitor_def Let_def bindr_eq_Inr split_beta dial_frames dial_helpers dial_connect_socket
        dial_set_nonblocking dest!: receive_all_dial apply_hotplug_dial split: if_split_asm)

lemma update_returns:
  assumes inv: "client_inv g k" and ans: "answering k"
  shows "\<exists>x. update g k = Inr x"
proof -
  obtain r g1 k1 where rf: "refresh g k = Inr (r, g1, k1)"
    using refresh_returns [OF assms] by (metis prod_cases3)
  have "dial k1 = dial k"
    using rf refresh_returns [OF assms] open_monitor_dial [of g k "(r, g1, k1)"]
    by (cases "0 \<le> gp_monitor_fd g") (auto simp: refresh_def)
  then have "answering k1" using ans by (simp add: answering_def)
  then obtain y g2 k2 where "open_event_stream g1 k1 = Inr (y, g2, k2)"
    using open_event_stream_returns by (metis prod_cases3)
  then show ?thesis
    by (cases "read_events g2 k2"; cases "read_events g1 k1") (auto simp: update_def rf)
qed

end
