(* ===== verification/GamepadProps.thy ===== *)
theory GamepadProps
  imports GamepadTransfer
begin

text \<open>
  The client library as a transition system (\<open>client_call\<close>: one public call on a handle;
  \<open>client_step\<close>: a call, or the outside world moving), its interpretation as a
  \<open>transition_system\<close>, and the properties of \<open>src/src/termux_gamepad.c\<close> with their witnesses on a
  small example bridge.
\<close>

section \<open>Calls as steps\<close>

inductive client_call :: "termux_gamepad \<times> kernel \<Rightarrow> termux_gamepad \<times> kernel \<Rightarrow> bool" where
  call_refresh: "refresh g k = Inr (r, g', k') \<Longrightarrow> client_call (g, k) (g', k')"
| call_update: "update g k = Inr (r, g', k') \<Longrightarrow> client_call (g, k) (g', k')"
| call_rumble: "termux_gamepad_rumble (Some g) low high ms k = (r, k') \<Longrightarrow> client_call (g, k) (g, k')"
| call_stop: "termux_gamepad_stop_rumble (Some g) k = (r, k') \<Longrightarrow> client_call (g, k) (g, k')"

inductive_simps client_call_iff: "client_call (g, k) (g', k')"
inductive_cases client_callE: "client_call s t"

text \<open>The world may do anything to the sockets but close the handle's own descriptors.\<close>

inductive client_step :: "termux_gamepad \<times> kernel \<Rightarrow> termux_gamepad \<times> kernel \<Rightarrow> bool" where
  step_call: "client_call s t \<Longrightarrow> client_step s t"
| step_world: "(\<And>f. f \<in> gp_owned g \<Longrightarrow> k_lookup k' f \<noteq> None) \<Longrightarrow> client_step (g, k) (g, k')"

inductive_cases client_stepE: "client_step s t"

definition client_init :: "termux_gamepad \<times> kernel \<Rightarrow> bool" where
  "client_init s \<longleftrightarrow>
     (\<exists>mem env path k. termux_gamepad_create mem env path k = Inr (Some (fst s), snd s))"

lemma rumble_lookup:
  assumes "termux_gamepad_stop_rumble (Some g) k = (r, k') \<or> termux_gamepad_rumble (Some g) low high ms k = (r, k')"
  shows "f \<noteq> gp_event_fd g \<or> gp_event_fd g < 0 \<Longrightarrow> k_lookup k' f = k_lookup k f"
    and "(k_lookup k' f = None) = (k_lookup k f = None)"
  using assms
  by (auto simp: termux_gamepad_stop_rumble_def termux_gamepad_rumble_def send_command_lookup split: if_splits)

lemma rumble_inv:
  assumes "client_inv g k"
    "termux_gamepad_stop_rumble (Some g) k = (r, k') \<or> termux_gamepad_rumble (Some g) low high ms k = (r, k')"
  shows "client_inv g k' \<and> others g k' = others g k"
proof
  show "client_inv g k'"
    using assms(1) rumble_lookup(2) [OF assms(2)] by (simp add: client_inv_def conn_inv_def)
  show "others g k' = others g k"
    by (rule others_cong) (rule rumble_lookup(1) [OF assms(2)], auto simp: gp_owned_def)
qed

lemma client_call_inv:
  assumes "client_call (g, k) (g', k')" "client_inv g k"
  shows "client_inv g' k' \<and> others g' k' = others g k"
  using assms(1)
proof cases
  case (call_refresh r)
  then show ?thesis using refresh_inv assms(2) by blast
next
  case (call_update r)
  then show ?thesis using update_inv assms(2) by blast
next
  case (call_rumble low high ms r)
  then show ?thesis using rumble_inv [of g k r k' low high ms] assms(2) by simp
next
  case (call_stop r)
  then show ?thesis using rumble_inv [of g k r k'] assms(2) by simp
qed

lemma client_calls_inv:
  assumes "client_call\<^sup>*\<^sup>* s t" "client_inv (fst s) (snd s)"
  shows "client_inv (fst t) (snd t) \<and> others (fst t) (snd t) = others (fst s) (snd s)"
  using assms
proof (induction rule: rtranclp_induct)
  case base
  then show ?case by simp
next
  case (step t u)
  then show ?case using client_call_inv [of "fst t" "snd t" "fst u" "snd u"] by simp
qed

lemma world_inv:
  assumes "client_inv g k" "\<And>f. f \<in> gp_owned g \<Longrightarrow> k_lookup k' f \<noteq> None"
  shows "client_inv g k'"
  using assms by (auto simp: client_inv_def conn_inv_def gp_owned_def)

interpretation client: transition_system client_init client_step "\<lambda>(g, k). client_inv g k"
proof
  fix s
  assume "client_init s"
  then show "case s of (g, k) \<Rightarrow> client_inv g k"
    by (auto simp: client_init_def dest: create_inv)
next
  fix s t
  assume "case s of (g, k) \<Rightarrow> client_inv g k" "client_step s t"
  then show "case t of (g, k) \<Rightarrow> client_inv g k"
    by (cases s; cases t) (auto elim!: client_stepE dest: client_call_inv intro: world_inv)
qed

section \<open>An example bridge\<close>

text \<open>A process with three open descriptors and a bridge that answers two connections.\<close>

definition ex_descriptor :: tg_device_descriptor where
  "ex_descriptor = zero_descriptor\<lparr>dd_magic := TG_DEVICE_MAGIC, dd_version := TG_CONTROL_VERSION,
     dd_present := 1, dd_capabilities := 1, dd_input_mode := TG_INPUT_MODE_XINPUT,
     dd_vendor_id := 0x045e, dd_product_id := 0x028e, dd_device_id := 7,
     dd_name := lit ''pad'' @ replicate 61 0\<rparr>"

definition ex_hotplug :: tg_hotplug_message where
  "ex_hotplug = \<lparr>hm_magic = TG_HOTPLUG_MAGIC, hm_version = TG_CONTROL_VERSION,
     hm_action = TG_HOTPLUG_ADD, hm_pad0 = 0, hm_descriptor = ex_descriptor\<rparr>"

definition ex_events :: "tg_input_event list" where
  "ex_events = [\<lparr>ie_sec = 1, ie_usec = 2, ie_type = TG_EV_KEY, ie_code = TG_BTN_SOUTH, ie_value = 1\<rparr>,
     \<lparr>ie_sec = 1, ie_usec = 2, ie_type = TG_EV_SYN, ie_code = TG_SYN_REPORT, ie_value = 0\<rparr>]"

definition ex_event_bytes :: bytes where
  "ex_event_bytes = concat (map enc_event ex_events)"

definition ex_monitor_sock :: sock where
  "ex_monitor_sock = blank_sock\<lparr>rx := [RecvErr EINTR, Data (enc_hotplug ex_hotplug)]\<rparr>"

definition ex_event_sock :: sock where
  "ex_event_sock = blank_sock\<lparr>tx := [Wrote 5, SendAgain PollReady],
     rx := [Data (enc_descriptor ex_descriptor @ take 30 ex_event_bytes),
            RecvErr EINTR, Data (drop 30 ex_event_bytes)]\<rparr>"

definition ex_kernel :: kernel where
  "ex_kernel = \<lparr>fds = replicate 3 (Some blank_sock),
     dial = (\<lambda>n. if n = 0 then Connects ex_monitor_sock else if n = 1 then Connects ex_event_sock
                 else ConnectFails (ErrOther 0)),
     dialled = 0\<rparr>"

definition ex_created :: "termux_gamepad \<times> kernel" where
  "ex_created =
     (case termux_gamepad_create True (\<lambda>_. None) (Some (lit ''/s'')) ex_kernel of
        Inr (Some g, k) \<Rightarrow> (g, k) | _ \<Rightarrow> (initial_handle [], ex_kernel))"

definition ex_updated :: "int \<times> termux_gamepad \<times> kernel" where
  "ex_updated = (case update (fst ex_created) (snd ex_created) of
     Inr x \<Rightarrow> x | Inl _ \<Rightarrow> (0, ex_created))"

lemma ex_created_fds: "gp_monitor_fd (fst ex_created) = 3" "gp_event_fd (fst ex_created) = 4"
  by code_simp+

lemma ex_created_eq:
  "termux_gamepad_create True (\<lambda>_. None) (Some (lit ''/s'')) ex_kernel = Inr (Some (fst ex_created), snd ex_created)"
  using ex_created_fds(1)
  by (auto simp: ex_created_def initial_handle_def split: sum.splits option.splits prod.splits)

lemma ex_updated_result:
  "fst ex_updated = 1" "ts_buttons (gp_state (fst (snd ex_updated))) = 1"
  by code_simp+

lemma ex_updated_eq: "update (fst ex_created) (snd ex_created) = Inr ex_updated"
  using ex_updated_result(1) by (auto simp: ex_updated_def split: sum.splits)

lemma ex_created_init: "client_init ex_created"
  unfolding client_init_def using ex_created_eq by blast

lemma ex_created_inv: "client_inv (fst ex_created) (snd ex_created)"
  using create_inv [OF ex_created_eq] by simp

section \<open>The handle's invariant\<close>

lemma client_inv_facts:
  assumes "client_inv g k"
  shows "(0 \<le> gp_event_fd g \<longrightarrow> td_present (gp_descriptor g) \<noteq> 0 \<and> 0 \<le> gp_monitor_fd g \<and>
            gp_event_fd g \<noteq> gp_monitor_fd g \<and> k_lookup k (gp_event_fd g) \<noteq> None)"
    and "(0 \<le> gp_monitor_fd g \<longrightarrow> k_lookup k (gp_monitor_fd g) \<noteq> None)"
    and "(gp_event_fd g < 0 \<longrightarrow> gp_state g = reset_state \<and> gp_event_buffer g = [])"
    and "length (gp_event_buffer g) < 24" "length (gp_monitor_buffer g) < 96"
    and "length (td_name (gp_descriptor g)) = 64" "terminated (td_name (gp_descriptor g))"
  using assms by (auto simp: client_inv_def conn_inv_def wf_public_def not_less)

text \<open>C11: Whatever sequence of public calls a client makes after \<open>termux_gamepad_create\<close>, with the
  outside world moving in between, the handle is consistent: an event connection exists only for a
  present controller, next to an open and different monitor connection; without one the snapshot
  is the neutral one and no partial event is kept; both partial messages stay shorter than a whole
  one; the published name is a terminated 64 byte array.\<close>

theorem handle_consistent:
  assumes "client_init s" "client_step\<^sup>*\<^sup>* s (g, k)"
  shows "(0 \<le> gp_event_fd g \<longrightarrow> td_present (gp_descriptor g) \<noteq> 0 \<and> 0 \<le> gp_monitor_fd g \<and>
            gp_event_fd g \<noteq> gp_monitor_fd g \<and> k_lookup k (gp_event_fd g) \<noteq> None) \<and>
    (0 \<le> gp_monitor_fd g \<longrightarrow> k_lookup k (gp_monitor_fd g) \<noteq> None) \<and>
    (gp_event_fd g < 0 \<longrightarrow> gp_state g = reset_state \<and> gp_event_buffer g = []) \<and>
    length (gp_event_buffer g) < 24 \<and> length (gp_monitor_buffer g) < 96 \<and>
    length (td_name (gp_descriptor g)) = 64 \<and> terminated (td_name (gp_descriptor g))"
  using client.reachable_inv [OF assms] client_inv_facts [of g k] by simp

lemma ex_update_call: "client_call ex_created (snd ex_updated)"
  using call_update [of "fst ex_created" "snd ex_created" "fst ex_updated" "fst (snd ex_updated)" "snd (snd ex_updated)"]
    ex_updated_eq by simp

lemma ex_update_step: "client_step\<^sup>*\<^sup>* ex_created (fst (snd ex_updated), snd (snd ex_updated))"
  using step_call [OF ex_update_call] by auto

theorem handle_consistent_witness:
  "length (gp_event_buffer (fst (snd ex_updated))) < 24 \<and> ts_buttons (gp_state (fst (snd ex_updated))) = 1"
  using handle_consistent [OF ex_created_init ex_update_step] ex_updated_result(2) by simp

text \<open>C12: The library leaks nothing and touches nothing else: after \<open>termux_gamepad_create\<close>, any
  sequence of refreshes, updates and rumble requests, and \<open>termux_gamepad_destroy\<close>, the process has
  exactly the file descriptors it had before, each with the same socket behind it.\<close>

theorem create_destroy_balanced:
  assumes "termux_gamepad_create mem env path k = Inr (Some g, k1)"
    and "client_call\<^sup>*\<^sup>* (g, k1) (g', k')"
  shows "k_lookup (termux_gamepad_destroy (Some g') k') f = k_lookup k f"
proof -
  have inv: "client_inv g k1" "others g k1 = k_lookup k" using create_inv [OF assms(1)] by simp_all
  have "client_inv g' k'" "others g' k' = others g k1"
    using client_calls_inv [OF assms(2)] inv(1) by simp_all
  then show ?thesis using destroy_lookup [of g' k'] inv(2) by (simp add: client_inv_def)
qed

theorem create_destroy_balanced_witness:
  "k_lookup (termux_gamepad_destroy (Some (fst (snd ex_updated))) (snd (snd ex_updated))) 3 = k_lookup ex_kernel 3 \<and>
   k_lookup (snd (snd ex_updated)) 3 \<noteq> None \<and> k_lookup (snd (snd ex_updated)) 4 \<noteq> None"
proof -
  have "client_call\<^sup>*\<^sup>* (fst ex_created, snd ex_created) (fst (snd ex_updated), snd (snd ex_updated))"
    using ex_update_call by auto
  moreover have "k_lookup (snd (snd ex_updated)) 3 \<noteq> None" "k_lookup (snd (snd ex_updated)) 4 \<noteq> None"
    by code_simp+
  ultimately show ?thesis using create_destroy_balanced [OF ex_created_eq] by blast
qed

text \<open>C14: An update returns whenever every bridge it may connect to answers its handshake or hangs
  up; and the only reason for a refresh or an update not to return is such a handshake (the
  iteration bound of the model is never reached).\<close>

theorem update_terminates:
  assumes "client_inv g k"
  shows "(answering k \<longrightarrow> (\<exists>x. update g k = Inr x)) \<and>
    (\<forall>e. update g k = Inl e \<longrightarrow> e = Blocks) \<and> (\<forall>e. refresh g k = Inl e \<longrightarrow> e = Blocks)"
  using update_returns update_Inl refresh_Inl assms by blast

lemma ex_kernel_answering: "answering ex_kernel"
proof -
  have "96 \<le> length (pending (rx ex_monitor_sock))" "96 \<le> length (pending (rx ex_event_sock))"
    by code_simp+
  then have "answers 96 ex_monitor_sock" "answers 96 ex_event_sock"
    by (simp_all add: answers_def)
  then show ?thesis by (auto simp: answering_def ex_kernel_def split: if_splits)
qed

theorem update_terminates_witness: "\<exists>x. update (initial_handle (lit ''/s'')) ex_kernel = Inr x"
  using update_terminates [OF client_inv_initial [of "lit ''/s''" ex_kernel]] ex_kernel_answering by blast

section \<open>Events\<close>

lemma read_events_spec:
  assumes "length (gp_event_buffer g) < 24" "k_lookup k (gp_event_fd g) = Some s"
    "read_events g k = (r, g', k')"
  shows "r = loop_result (ending (rx s)) (count_reports (stream_events (event_stream g s))) \<and>
    (if stays_open (ending (rx s))
     then g' = g\<lparr>gp_state := run_events (gp_state g) (stream_events (event_stream g s)),
                 gp_event_buffer := leftover 24 (event_stream g s)\<rparr>
     else g' = g\<lparr>gp_event_fd := -1, gp_event_buffer := [], gp_state := reset_state\<rparr>)"
proof -
  obtain ret ended g1 s1 where lp: "event_loop g 0 s = (ret, ended, g1, s1)" by (metis prod_cases4)
  show ?thesis
    using event_loop_spec [OF assms(1) lp] assms(2,3)
    by (auto simp: read_events_def lp close_event_stream_def Let_def)
qed

lemma stream_events_encoded:
  "length rest < 24 \<Longrightarrow> stream_events (concat (map enc_event evs) @ rest) = evs"
  unfolding stream_events_def by (rule evt.decode_stream) simp_all

lemma leftover_encoded:
  "length rest < 24 \<Longrightarrow> leftover 24 (concat (map enc_event evs) @ rest) = rest"
proof (induction evs)
  case (Cons e evs)
  then show ?case using leftover_frame [of 24 "enc_event e"] by (simp add: evt.length_enc)
qed simp

text \<open>C13: However the bytes of the event stream are cut into packets, and wherever an interrupt falls,
  draining the connection applies exactly the events the bridge sent, in order: with \<open>b\<close> already
  buffered from the event cut off by an earlier update, the snapshot becomes that of the events
  \<open>evs\<close> whose images the stream carries, the bytes of the next, incomplete event are kept for the next update,
  and the result is the number of completed reports; at the end of the stream or on an error the
  connection is closed and the snapshot neutral.\<close>

theorem update_applies_events:
  assumes "client_inv g k" "k_lookup k (gp_event_fd g) = Some s" "read_events g k = (r, g', k')"
    and "gp_event_buffer g @ pending (rx s) = concat (map enc_event evs) @ rest" "length rest < 24"
  shows "(ending (rx s) \<in> {None, Some (RecvErr EAGAIN)} \<longrightarrow>
            r = count_reports evs \<and> gp_event_fd g' = gp_event_fd g \<and>
            gp_state g' = run_events (gp_state g) evs \<and> gp_event_buffer g' = rest) \<and>
    (ending (rx s) = Some (Data []) \<longrightarrow>
            r = count_reports evs \<and> gp_event_fd g' = -1 \<and> gp_state g' = reset_state) \<and>
    (\<forall>e. ending (rx s) = Some (RecvErr e) \<and> e \<noteq> EAGAIN \<longrightarrow>
            r = - err e \<and> gp_event_fd g' = -1 \<and> gp_state g' = reset_state)"
proof -
  have ev: "event_stream g s = concat (map enc_event evs) @ rest"
    using assms(4) by (simp add: event_stream_def)
  have buf: "length (gp_event_buffer g) < 24" using client_inv_facts(4) [OF assms(1)] .
  show ?thesis
    using read_events_spec [OF buf assms(2,3)] stream_events_encoded [OF assms(5)] leftover_encoded [OF assms(5)]
    by (auto simp: ev stays_open_def loop_result_def)
qed

definition ex_read :: "int \<times> termux_gamepad \<times> kernel" where
  "ex_read = read_events (fst ex_created) (snd ex_created)"

theorem update_applies_events_witness:
  "fst ex_read = 1 \<and> gp_state (fst (snd ex_read)) = run_events reset_state ex_events"
proof -
  obtain s where s: "k_lookup (snd ex_created) (gp_event_fd (fst ex_created)) = Some s"
    using client_inv_facts(1) [OF ex_created_inv] ex_created_fds(2) by auto
  have p: "gp_event_buffer (fst ex_created) = []" "gp_state (fst ex_created) = reset_state"
    "pending (rx (the (k_lookup (snd ex_created) (gp_event_fd (fst ex_created))))) = concat (map enc_event ex_events)"
    "case_option True (\<lambda>_. False) (ending (rx (the (k_lookup (snd ex_created) (gp_event_fd (fst ex_created))))))"
    by code_simp+
  have rd: "read_events (fst ex_created) (snd ex_created) = (fst ex_read, fst (snd ex_read), snd (snd ex_read))"
    by (simp add: ex_read_def)
  have "count_reports ex_events = 1" by code_simp
  then show ?thesis
    using update_applies_events [OF ex_created_inv s rd, of ex_events "[]"] p s
    by (auto split: option.splits)
qed

text \<open>After any sequence of events every part of the snapshot holds what the last event addressing
  it wrote: each of the six axes, each button bit, both hat directions, and the packet number has
  advanced by the number of completed reports, modulo its width.\<close>

theorem snapshot_is_last_write:
  assumes "i < 6" "j < 16" "length (ts_axes st) = 6"
  shows "ts_axes (run_events st evs) ! i = last_write (axis_write i) (ts_axes st ! i) evs \<and>
    bit (ts_buttons (run_events st evs)) j = last_write (button_write j) (bit (ts_buttons st) j) evs \<and>
    ts_hat_x (run_events st evs) = last_write hat_x_write (ts_hat_x st) evs \<and>
    ts_hat_y (run_events st evs) = last_write hat_y_write (ts_hat_y st) evs \<and>
    ts_packet_number (run_events st evs) = ts_packet_number st + of_int (count_reports evs)"
  using run_axis [OF assms(1,3)] run_button [OF assms(2)] run_hats run_packets by simp

theorem snapshot_is_last_write_witness:
  "ts_axes (run_events reset_state ex_events) ! 0 = 0 \<and> bit (ts_buttons (run_events reset_state ex_events)) 0"
proof -
  have "last_write (axis_write 0) 0 ex_events = 0" "last_write (button_write 0) False ex_events"
    by (simp_all add: ex_events_def axis_write_def button_write_def button_index_def)
  moreover have "ts_axes reset_state ! 0 = 0" "\<not> bit (ts_buttons reset_state) 0" "length (ts_axes reset_state) = 6"
    by (simp_all add: reset_state_def)
  ultimately show ?thesis using snapshot_is_last_write [of 0 0 reset_state ex_events] by simp
qed

text \<open>A trigger position of the wire, 0 to 255, is spread over the whole signed 16 bit range
  without overflow: 0 gives the minimum, 255 the maximum, and one step is 257.\<close>

theorem trigger_full_range:
  assumes "ie_type ev = TG_EV_ABS" "ie_code ev = TG_ABS_Z \<or> ie_code ev = TG_ABS_RZ"
    and "0 \<le> sint (ie_value ev)" "sint (ie_value ev) \<le> 255" "length (ts_axes st) = 6"
  shows "sint (ts_axes (state_event st ev) ! (if ie_code ev = TG_ABS_Z then 4 else 5)) =
    sint (ie_value ev) * 257 - 32768"
  using trigger_value [OF assms(3,4)] assms(1,2,5) by (auto simp: axis_event axis_write_def)

theorem trigger_full_range_witness:
  "sint (ts_axes (state_event reset_state
     \<lparr>ie_sec = 0, ie_usec = 0, ie_type = TG_EV_ABS, ie_code = TG_ABS_RZ, ie_value = 255\<rparr>) ! 5) = 32767"
  using trigger_full_range [of "\<lparr>ie_sec = 0, ie_usec = 0, ie_type = TG_EV_ABS, ie_code = TG_ABS_RZ, ie_value = 255\<rparr>"
    reset_state] by simp

section \<open>Transfers\<close>

text \<open>\<open>send_all\<close> delivers every byte in order or reports an error after a proper prefix, whatever
  short writes, interrupts and full buffers it meets; nothing is sent twice and no other
  descriptor is touched.\<close>

theorem send_all_delivers:
  assumes "send_all f bs k = (r, k')" "k_lookup k f = Some s"
  shows "\<exists>s' n. k_lookup k' f = Some s' \<and> sent s' = sent s @ take n bs \<and>
    (if r = 0 then n = length bs else r < 0 \<and> n < length bs) \<and>
    (f' = f \<or> k_lookup k' f' = k_lookup k f')"
proof -
  obtain r0 s1 where lp: "send_loop bs s = (r0, s1)" by fastforce
  have res: "k_lookup k' f = Some s1" "r = r0" "f' = f \<or> k_lookup k' f' = k_lookup k f'"
    using assms by (auto simp: send_all_def lp fdt.update_lookup split: if_splits)
  show ?thesis
  proof (cases "r = 0")
    case True
    then show ?thesis using send_loop_spec [OF lp] res by (intro exI [of _ s1] exI [of _ "length bs"]) simp
  next
    case False
    then obtain n where "n < length bs" "sent s1 = sent s @ take n bs" "r < 0"
      using send_loop_spec [OF lp] res by auto
    then show ?thesis using res False by (intro exI [of _ s1] exI [of _ n]) simp
  qed
qed

definition ex_send :: "int \<times> kernel" where
  "ex_send = send_all 1 [1, 2, 3]
     (ex_kernel\<lparr>fds := [None, Some (blank_sock\<lparr>tx := [Wrote 1, SendErr EINTR, SendAgain PollReady, Wrote 0]\<rparr>)]\<rparr>)"

theorem send_all_delivers_witness:
  "fst ex_send = - err EPIPE \<and> (\<exists>s n. k_lookup (snd ex_send) 1 = Some s \<and> sent s = take n [1, 2, 3] \<and> n < 3)"
proof -
  let ?s = "blank_sock\<lparr>tx := [Wrote 1, SendErr EINTR, SendAgain PollReady, Wrote 0]\<rparr>"
  let ?k = "ex_kernel\<lparr>fds := [None, Some ?s]\<rparr>"
  have "send_all 1 [1, 2, 3] ?k = (fst ex_send, snd ex_send)" by (simp add: ex_send_def)
  moreover have "k_lookup ?k 1 = Some ?s" by (simp add: fd_lookup_def)
  moreover have "fst ex_send = - err EPIPE" by code_simp
  moreover have "sent ?s = []" by (simp add: blank_sock_def)
  ultimately obtain s n where "k_lookup (snd ex_send) 1 = Some s" "sent s = take n [1, 2, 3]" "n < 3"
    "fst ex_send = - err EPIPE"
    using send_all_delivers [of 1 "[1, 2, 3]" ?k "fst ex_send" "snd ex_send" ?s 1] by auto
  then show ?thesis by blast
qed

text \<open>\<open>receive_all\<close> takes exactly the bytes asked for off the stream, however they are cut up, and
  leaves every later byte and the way the stream ends in place; on failure the result is negative.\<close>

theorem receive_all_exact:
  assumes "receive_all f n k = Inr ((r, buf), k')" "k_lookup k f = Some s"
  shows "\<exists>s'. k_lookup k' f = Some s' \<and> sent s' = sent s \<and> r \<le> 0 \<and>
    (r = 0 \<longrightarrow> length buf = n \<and> pending (rx s) = buf @ pending (rx s') \<and> ending (rx s') = ending (rx s))"
  using receive_all_spec [OF assms] by auto

definition ex_receive :: "(int \<times> bytes) \<times> kernel" where
  "ex_receive = (case receive_all 0 3
       (ex_kernel\<lparr>fds := [Some (blank_sock\<lparr>rx := [Data [1], RecvErr EINTR, Data [2, 3, 4]]\<rparr>)]\<rparr>) of
     Inr x \<Rightarrow> x | Inl _ \<Rightarrow> ((1, []), ex_kernel))"

theorem receive_all_exact_witness:
  "\<exists>s. k_lookup (snd ex_receive) 0 = Some s \<and> [1, 2, 3, 4] = snd (fst ex_receive) @ pending (rx s)"
proof -
  let ?s = "blank_sock\<lparr>rx := [Data [1], RecvErr EINTR, Data [2, 3, 4]]\<rparr>"
  let ?k = "ex_kernel\<lparr>fds := [Some ?s]\<rparr>"
  have r: "fst (fst ex_receive) = 0" by code_simp
  then have "receive_all 0 3 ?k = Inr ((fst (fst ex_receive), snd (fst ex_receive)), snd ex_receive)"
    by (auto simp: ex_receive_def split: sum.splits)
  moreover have "k_lookup ?k 0 = Some ?s" by (simp add: fd_lookup_def)
  moreover have "pending (rx ?s) = [1, 2, 3, 4]" by simp
  ultimately show ?thesis
    using receive_all_exact [of 0 3 ?k "fst (fst ex_receive)" "snd (fst ex_receive)" "snd ex_receive" ?s] r by auto
qed

text \<open>C16: When a device connection is opened, the descriptor was dialled at the configured path, the
  bridge has been sent exactly one descriptor query and nothing else, its answer was a valid
  descriptor of a present controller, every byte that follows the answer is still in the stream
  for the event loop, and the connection is non-blocking and closed on exec.\<close>

theorem device_handshake:
  assumes "client_inv g k" "open_event_stream g k = Inr (0, g', k')"
  shows "\<exists>s0 s b. dial k (dialled k) = Connects s0 \<and> k_lookup k' (gp_event_fd g') = Some s \<and>
    peer s = cstr (gp_socket_path g) \<and>
    sent s = enc_control (control_message TG_CONTROL_QUERY_DESCRIPTOR 0 0 0) \<and>
    nonblock s \<and> cloexec s \<and> pending (rx s0) = b @ pending (rx s) \<and> length b = 88 \<and>
    dd_magic (dec_descriptor b) = TG_DEVICE_MAGIC \<and> dd_version (dec_descriptor b) = TG_CONTROL_VERSION \<and>
    dd_present (dec_descriptor b) \<noteq> 0"
  using open_event_stream_content [OF _ assms(2)] assms(1) by (simp add: client_inv_def)

definition ex_open :: "int \<times> termux_gamepad \<times> kernel" where
  "ex_open = (case open_event_stream (initial_handle (lit ''/s'')) (ex_kernel\<lparr>dialled := 1\<rparr>) of
     Inr x \<Rightarrow> x | Inl _ \<Rightarrow> (1, initial_handle [], ex_kernel))"

theorem device_handshake_witness:
  "\<exists>s. k_lookup (snd (snd ex_open)) (gp_event_fd (fst (snd ex_open))) = Some s \<and> peer s = lit ''/s'' \<and> nonblock s"
proof -
  let ?k = "ex_kernel\<lparr>dialled := 1\<rparr>"
  have "fst ex_open = 0" by code_simp
  then have "open_event_stream (initial_handle (lit ''/s'')) ?k = Inr (0, fst (snd ex_open), snd (snd ex_open))"
    by (auto simp: ex_open_def split: sum.splits)
  moreover have "cstr (gp_socket_path (initial_handle (lit ''/s''))) = lit ''/s''"
    by (simp add: initial_handle_def lit_def)
  ultimately show ?thesis using device_handshake [OF client_inv_initial] by metis
qed

section \<open>Hotplug\<close>

lemma apply_hotplug_effect:
  assumes "apply_hotplug g m k = Inr (r, g', k')"
  shows "r = 1 \<or> g' = g \<and> k' = k"
    "r = 1 \<Longrightarrow> gp_descriptor g' = copy_descriptor (hm_descriptor m) \<and> gp_state g' = reset_state \<and>
       gp_event_buffer g' = [] \<and> (td_present (gp_descriptor g') = 0 \<longrightarrow> gp_event_fd g' = -1)"
proof -
  let ?d = "copy_descriptor (hm_descriptor m)"
  obtain g1 k1 where cl: "close_event_stream (g\<lparr>gp_descriptor := ?d\<rparr>) k = (g1, k1)" by fastforce
  have g1: "gp_descriptor g1 = ?d" "gp_state g1 = reset_state" "gp_event_buffer g1 = []" "gp_event_fd g1 = -1"
    using cl by (auto simp: close_event_stream_def)
  have op: "gp_descriptor g2 = ?d \<and> gp_state g2 = reset_state \<and> gp_event_buffer g2 = []"
    if "open_event_stream g1 k1 = Inr (x, g2, k2)" for x g2 k2
    using open_event_stream_cases [OF that] g1 by auto
  show "r = 1 \<or> g' = g \<and> k' = k"
    using assms by (auto simp: apply_hotplug_def Let_def cl bindr_eq_Inr split: if_splits)
  show "r = 1 \<Longrightarrow> gp_descriptor g' = ?d \<and> gp_state g' = reset_state \<and>
       gp_event_buffer g' = [] \<and> (td_present (gp_descriptor g') = 0 \<longrightarrow> gp_event_fd g' = -1)"
    using assms g1 op
    by (auto simp: apply_hotplug_def Let_def cl bindr_eq_Inr split: if_splits)
qed

text \<open>C15: A hotplug message with a wrong magic or version changes nothing; one that describes the
  controller already known changes nothing; any other replaces the public descriptor, reports
  a change, and leaves no trace of the old controller in the snapshot, and an absent controller has
  no event connection. Replaying a message that was applied is always without effect.\<close>

theorem hotplug_applied_once:
  assumes "apply_hotplug g m k = Inr (r, g', k')"
  shows "(if hm_magic m \<noteq> TG_HOTPLUG_MAGIC \<or> hm_version m \<noteq> TG_CONTROL_VERSION
     then r = - err EPROTO \<and> g' = g \<and> k' = k
     else if descriptor_equal (gp_descriptor g) (copy_descriptor (hm_descriptor m))
     then r = 0 \<and> g' = g \<and> k' = k
     else r = 1 \<and> gp_descriptor g' = copy_descriptor (hm_descriptor m) \<and> gp_state g' = reset_state \<and>
       (td_present (gp_descriptor g') = 0 \<longrightarrow> gp_event_fd g' = -1)) \<and>
    (0 \<le> r \<longrightarrow> apply_hotplug g' m k' = Inr (0, g', k'))"
proof -
  have res: "r = (if hm_magic m \<noteq> TG_HOTPLUG_MAGIC \<or> hm_version m \<noteq> TG_CONTROL_VERSION then - err EPROTO
     else if descriptor_equal (gp_descriptor g) (copy_descriptor (hm_descriptor m)) then 0 else 1)"
    using assms by (auto simp: apply_hotplug_def Let_def bindr_eq_Inr split_beta split: if_splits)
  have again: "apply_hotplug g' m k' = Inr (0, g', k')" if "0 \<le> r"
    using that res apply_hotplug_effect [OF assms]
    by (auto simp: apply_hotplug_def Let_def split: if_splits)
  have eff: "g' = g \<and> k' = k" if "r \<noteq> 1" using that apply_hotplug_effect(1) [OF assms] by blast
  show ?thesis using res again eff apply_hotplug_effect(2) [OF assms] by (auto split: if_splits)
qed

definition ex_hotplugged :: "int \<times> termux_gamepad \<times> kernel" where
  "ex_hotplugged = (case apply_hotplug (initial_handle (lit ''/s'')) ex_hotplug (ex_kernel\<lparr>dialled := 1\<rparr>) of
     Inr x \<Rightarrow> x | Inl _ \<Rightarrow> (0, initial_handle [], ex_kernel))"

theorem hotplug_applied_once_witness:
  "fst ex_hotplugged = 1 \<and>
   apply_hotplug (fst (snd ex_hotplugged)) ex_hotplug (snd (snd ex_hotplugged)) =
     Inr (0, fst (snd ex_hotplugged), snd (snd ex_hotplugged))"
proof -
  let ?k = "ex_kernel\<lparr>dialled := 1\<rparr>"
  have r: "fst ex_hotplugged = 1" by code_simp
  then have "apply_hotplug (initial_handle (lit ''/s'')) ex_hotplug ?k =
      Inr (fst ex_hotplugged, fst (snd ex_hotplugged), snd (snd ex_hotplugged))"
    by (auto simp: ex_hotplugged_def split: sum.splits)
  then show ?thesis using hotplug_applied_once r by (metis zero_le_one)
qed

section \<open>Losing the bridge\<close>

lemma sock_recv_at_end:
  assumes "pending (rx s) = []" "ending (rx s) = Some a" "0 < n" "sock_recv n s = (x, s')"
  shows "x = Some a \<or> x = Some (RecvErr EINTR)"
  using assms by (auto simp: sock_recv_def split: list.splits recv_ans.splits if_splits)

lemma ending_final: "ending r = Some a \<Longrightarrow> a \<noteq> RecvErr EINTR \<and> (\<forall>bs. a = Data bs \<longrightarrow> bs = [])"
  by (induction r rule: ending.induct) (auto split: if_splits)

definition end_errno :: "recv_ans \<Rightarrow> errno option" where
  "end_errno a = (case a of RecvErr e \<Rightarrow> Some e | Data _ \<Rightarrow> None)"

lemma refresh_loop_lost:
  assumes "k_lookup k (gp_monitor_fd g) = Some s" "pending (rx s) = []" "ending (rx s) = Some a"
    "a \<noteq> RecvErr EAGAIN" "rx_weight s < fuel" "length (gp_monitor_buffer g) < 96"
    "refresh_loop fuel changed g k = Inr x"
  shows "\<exists>k1. (\<forall>f. f \<noteq> gp_monitor_fd g \<longrightarrow> k_lookup k1 f = k_lookup k f) \<and> x = monitor_lost (end_errno a) changed g k1"
  using assms
proof (induction fuel arbitrary: k s)
  case 0
  then show ?case by simp
next
  case (Suc fuel)
  let ?n = "96 - length (gp_monitor_buffer g)"
  obtain b s1 where rc: "sock_recv ?n s = (b, s1)" by fastforce
  let ?k = "k\<lparr>fds := fd_update (gp_monitor_fd g) s1 (fds k)\<rparr>"
  have frame: "k_lookup ?k f = k_lookup k f" if "f \<noteq> gp_monitor_fd g" for f
    using that by (simp add: fdt.update_lookup)
  consider (last) "b = Some a" | (again) "b = Some (RecvErr EINTR)"
    using sock_recv_at_end [OF Suc.prems(2,3) _ rc] Suc.prems(6) by auto
  then show ?case
  proof cases
    case last
    then have kr: "k_recv_dontwait (gp_monitor_fd g) ?n k = (a, ?k)"
      by (simp add: k_recv_dontwait_def Suc.prems(1) rc)
    have "a \<noteq> RecvErr EINTR" "\<And>bs. a = Data bs \<Longrightarrow> bs = []"
      using ending_final [OF Suc.prems(3)] by simp_all
    then have "x = monitor_lost (end_errno a) changed g ?k"
      using Suc.prems(4,7) by (cases a) (auto simp: kr end_errno_def)
    then show ?thesis using frame by blast
  next
    case again
    then have kr: "k_recv_dontwait (gp_monitor_fd g) ?n k = (RecvErr EINTR, ?k)"
      by (simp add: k_recv_dontwait_def Suc.prems(1) rc)
    note i = sock_recv_interrupted [OF rc [unfolded again]] sock_recv_weight [OF rc [unfolded again]]
    have "k_lookup ?k (gp_monitor_fd g) = Some s1" using Suc.prems(1) by (simp add: fdt.update_lookup)
    moreover have "refresh_loop fuel changed g ?k = Inr x" using Suc.prems(7) by (simp add: kr)
    ultimately obtain k1 where "\<forall>f. f \<noteq> gp_monitor_fd g \<longrightarrow> k_lookup k1 f = k_lookup ?k f"
        "x = monitor_lost (end_errno a) changed g k1"
      using Suc.IH [of ?k s1] i Suc.prems(2-6) by auto
    then show ?thesis using frame by auto
  qed
qed

text \<open>C17: When the monitor connection has ended and nothing is left in it, a refresh closes both
  connections and reports the loss of a present controller as a change: the descriptor says absent
  with device id -1, the snapshot is neutral, and the next refresh starts from a new connection.\<close>

theorem bridge_loss:
  assumes "client_inv g k" "k_lookup k (gp_monitor_fd g) = Some s" "pending (rx s) = []"
    and "ending (rx s) = Some a" "a \<noteq> RecvErr EAGAIN" "refresh g k = Inr (r, g', k')"
  shows "gp_monitor_fd g' = -1 \<and> gp_event_fd g' < 0 \<and> gp_monitor_buffer g' = [] \<and>
    td_present (gp_descriptor g') = 0 \<and> gp_state g' = reset_state \<and>
    k_lookup k' (gp_monitor_fd g) = None \<and>
    (if td_present (gp_descriptor g) \<noteq> 0 then r = 1 \<and> td_device_id (gp_descriptor g') = -1
     else r = (case a of RecvErr e \<Rightarrow> - err e | Data _ \<Rightarrow> 0))"
proof -
  have mon: "0 \<le> gp_monitor_fd g" using fdt.lookup_nonneg [OF assms(2)] .
  have len: "length (gp_monitor_buffer g) < 96" using client_inv_facts(5) [OF assms(1)] .
  have w: "rx_weight s < refresh_fuel g k" by (simp add: refresh_fuel_def assms(2))
  have "refresh_loop (refresh_fuel g k) 0 g k = Inr (r, g', k')"
    using assms(6) mon by (simp add: refresh_def)
  then obtain k1 where "(r, g', k') = monitor_lost (end_errno a) 0 g k1"
    using refresh_loop_lost [OF assms(2,3,4,5) w len] by blast
  then show ?thesis
    using client_inv_facts(1,3) [OF assms(1)]
    by (cases "td_present (gp_descriptor g) = 0")
       (auto simp: monitor_lost_def Let_def close_event_stream_def end_errno_def split: recv_ans.splits)
qed

definition ex_hung_up :: kernel where
  "ex_hung_up = (snd ex_created)\<lparr>fds := fd_update 3 (blank_sock\<lparr>rx := [RecvErr EINTR, Data []]\<rparr>) (fds (snd ex_created))\<rparr>"

definition ex_lost :: "int \<times> termux_gamepad \<times> kernel" where
  "ex_lost = (case refresh (fst ex_created) ex_hung_up of Inr x \<Rightarrow> x | Inl _ \<Rightarrow> (-1, ex_created))"

lemma ex_hung_up_inv: "client_inv (fst ex_created) ex_hung_up"
proof (rule world_inv [OF ex_created_inv])
  show "k_lookup ex_hung_up f \<noteq> None" if "f \<in> gp_owned (fst ex_created)" for f
    using client_inv_facts(1,2) [OF ex_created_inv] that
    by (auto simp: ex_hung_up_def gp_owned_def fdt.update_lookup)
qed

theorem bridge_loss_witness:
  "fst ex_lost = 1 \<and> gp_event_fd (fst (snd ex_lost)) < 0 \<and> gp_state (fst (snd ex_lost)) = reset_state"
proof -
  let ?s = "blank_sock\<lparr>rx := [RecvErr EINTR, Data []]\<rparr>"
  have r: "fst ex_lost = 1" by code_simp
  then have "refresh (fst ex_created) ex_hung_up = Inr (fst ex_lost, fst (snd ex_lost), snd (snd ex_lost))"
    by (auto simp: ex_lost_def split: sum.splits)
  moreover have "k_lookup ex_hung_up (gp_monitor_fd (fst ex_created)) = Some ?s"
    using client_inv_facts(2) [OF ex_created_inv] ex_created_fds(1)
    by (auto simp: ex_hung_up_def fdt.update_lookup)
  moreover have "pending (rx ?s) = []" "ending (rx ?s) = Some (Data [])" by simp_all
  ultimately have "gp_event_fd (fst (snd ex_lost)) < 0 \<and> gp_state (fst (snd ex_lost)) = reset_state"
    using bridge_loss [OF ex_hung_up_inv] by blast
  then show ?thesis using r by blast
qed

section \<open>Rumble\<close>

text \<open>A rumble request without an event connection is refused with \<open>ENODEV\<close>; otherwise it puts
  exactly one 16 byte control message on the event connection (a stop request when both motors are
  zero, the given strengths and duration otherwise), or, when the result is an error, a proper
  prefix of it; no other descriptor is touched.\<close>

theorem rumble_request:
  assumes "gp_event_fd g < 0 \<or> k_lookup k (gp_event_fd g) = Some s"
    and "termux_gamepad_rumble (Some g) low high ms k = (r, k')"
  shows "if gp_event_fd g < 0 then r = - err ENODEV \<and> k' = k
    else \<exists>s'. k_lookup k' (gp_event_fd g) = Some s' \<and> r \<le> 0 \<and> rx s' = rx s \<and>
      (let message = enc_control (if low = 0 \<and> high = 0 then control_message TG_CONTROL_STOP_RUMBLE 0 0 0
                                  else control_message TG_CONTROL_RUMBLE low high ms)
       in (r = 0 \<and> sent s' = sent s @ message) \<or> (r < 0 \<and> (\<exists>m<16. sent s' = sent s @ take m message))) \<and>
      (f = gp_event_fd g \<or> k_lookup k' f = k_lookup k f)"
proof (cases "gp_event_fd g < 0")
  case True
  then show ?thesis using assms(2) by (simp add: termux_gamepad_rumble_def)
next
  case False
  let ?c = "if low = 0 \<and> high = 0 then TG_CONTROL_STOP_RUMBLE else TG_CONTROL_RUMBLE"
  let ?d = "if low = 0 \<and> high = 0 then 0 else ms"
  have s: "k_lookup k (gp_event_fd g) = Some s" using assms(1) False by simp
  have sc: "send_command (gp_event_fd g) ?c low high ?d k = (r, k')"
    using assms(2) False
    by (auto simp: termux_gamepad_rumble_def termux_gamepad_stop_rumble_def split: if_splits)
  have f: "f = gp_event_fd g \<or> k_lookup k' f = k_lookup k f" using send_command_lookup(1) [OF sc] by blast
  obtain s1 where "k_lookup k' (gp_event_fd g) = Some s1" "rx s1 = rx s" "r \<le> 0"
    "r = 0 \<longrightarrow> sent s1 = sent s @ enc_control (control_message ?c low high ?d)"
    "r \<noteq> 0 \<longrightarrow> (\<exists>m<16. sent s1 = sent s @ take m (enc_control (control_message ?c low high ?d)))"
    using send_command_spec [OF sc s] by blast
  moreover have "control_message ?c low high ?d = (if low = 0 \<and> high = 0
      then control_message TG_CONTROL_STOP_RUMBLE 0 0 0 else control_message TG_CONTROL_RUMBLE low high ms)"
    by simp
  ultimately show ?thesis using False f unfolding Let_def by (cases "r = 0") auto
qed

definition ex_rumble :: "int \<times> kernel" where
  "ex_rumble = termux_gamepad_rumble (Some (fst ex_created)) 0x1234 5 100 (snd ex_created)"

theorem rumble_request_witness:
  "\<exists>s s'. k_lookup (snd ex_created) 4 = Some s \<and> k_lookup (snd ex_rumble) 4 = Some s' \<and>
     sent s' = sent s @ enc_control (control_message TG_CONTROL_RUMBLE 0x1234 5 100)"
proof -
  obtain s where s: "k_lookup (snd ex_created) (gp_event_fd (fst ex_created)) = Some s"
    using client_inv_facts(1) [OF ex_created_inv] ex_created_fds(2) by auto
  have r: "termux_gamepad_rumble (Some (fst ex_created)) 0x1234 5 100 (snd ex_created) = (fst ex_rumble, snd ex_rumble)"
    by (simp add: ex_rumble_def)
  have "fst ex_rumble = 0" by code_simp
  then show ?thesis using rumble_request [OF disjI2 [OF s] r, of 0] s ex_created_fds(2) by (auto simp: Let_def)
qed

section \<open>Creation\<close>

lemma open_event_stream_path: "open_event_stream g k = Inr (r, g', k') \<Longrightarrow> gp_socket_path g' = gp_socket_path g"
  using open_event_stream_cases [of g k r g' k'] by auto

lemma apply_hotplug_path: "apply_hotplug g m k = Inr (r, g', k') \<Longrightarrow> gp_socket_path g' = gp_socket_path g"
  by (auto simp: apply_hotplug_def Let_def close_event_stream_def bindr_eq_Inr dest: open_event_stream_path
        split: if_splits)

lemma open_monitor_path: "open_monitor g k = Inr (r, g', k') \<Longrightarrow> gp_socket_path g' = gp_socket_path g"
  by (auto simp: open_monitor_def Let_def split_beta bindr_eq_Inr dest: apply_hotplug_path split: if_split_asm)

lemma create_None: "termux_gamepad_create mem env path k = Inr (h, k') \<Longrightarrow>
    (h = None) = (\<not> mem \<or> 108 \<le> length (cstr (default_path env path)))"
  by (auto simp: termux_gamepad_create_def Let_def strlen_from_cstr bindr_eq_Inr split: if_splits)

text \<open>\<open>termux_gamepad_create\<close> gives no handle only when memory runs out or the socket path does not
  fit a Unix address, and then it has opened nothing; a handle is given even when the bridge cannot be
  reached, its socket path is the argument, else the environment's, else the default, and a handle
  without a monitor connection reports an absent controller.\<close>

theorem create_outcome:
  assumes "termux_gamepad_create mem env path k = Inr (h, k')"
  shows "(h = None) = (\<not> mem \<or> 108 \<le> length (cstr (default_path env path))) \<and>
    (case h of None \<Rightarrow> k' = k
      | Some g \<Rightarrow> gp_socket_path g = cstr (default_path env path) \<and>
          (gp_monitor_fd g < 0 \<longrightarrow> td_present (gp_descriptor g) = 0 \<and> gp_event_fd g < 0))"
proof (cases h)
  case None
  then show ?thesis using assms create_None [OF assms]
    by (auto simp: termux_gamepad_create_def Let_def bindr_eq_Inr split: if_splits)
next
  case (Some g)
  have inv: "client_inv g k'" using create_inv assms Some by blast
  have "gp_socket_path g = cstr (default_path env path)"
    using assms Some open_monitor_path
    by (fastforce simp: termux_gamepad_create_def Let_def bindr_eq_Inr initial_handle_def split: if_splits)
  then show ?thesis using Some inv create_None [OF assms] by (auto simp: client_inv_def)
qed

theorem create_outcome_witness:
  "gp_socket_path (fst ex_created) = lit ''/s''"
proof -
  have "default_path (\<lambda>_. None) (Some (lit ''/s'')) = lit ''/s''" "cstr (lit ''/s'') = lit ''/s''"
    by (simp_all add: default_path_def lit_def)
  then show ?thesis using create_outcome [OF ex_created_eq] by simp
qed

section \<open>The public descriptor\<close>

text \<open>Two wire descriptors are published as the same controller, and so trigger no hotplug change,
  exactly when presence, rumble capability, input mode, vendor, product, device id and the first 63
  bytes of the name agree; on published descriptors the field by field comparison is equality.\<close>

theorem descriptor_identity:
  "descriptor_equal (copy_descriptor a) (copy_descriptor b) = (copy_descriptor a = copy_descriptor b) \<and>
   descriptor_equal (copy_descriptor a) (copy_descriptor b) =
    (dd_present a = dd_present b \<and>
     (dd_capabilities a AND TG_DEVICE_CAP_RUMBLE \<noteq> 0) = (dd_capabilities b AND TG_DEVICE_CAP_RUMBLE \<noteq> 0) \<and>
     dd_input_mode a = dd_input_mode b \<and> dd_vendor_id a = dd_vendor_id b \<and>
     dd_product_id a = dd_product_id b \<and> dd_device_id a = dd_device_id b \<and>
     take 63 (cstr (dd_name a)) = take 63 (cstr (dd_name b)))"
proof -
  have "strncmp_eq (td_name (copy_descriptor a)) (td_name (copy_descriptor b)) 64 =
    (take 63 (cstr (dd_name a)) = take 63 (cstr (dd_name b)))"
    by (simp add: strncmp_eq_def td_name_copy)
  moreover have "(td_capabilities (copy_descriptor a) = td_capabilities (copy_descriptor b)) =
    ((dd_capabilities a AND TG_DEVICE_CAP_RUMBLE \<noteq> 0) = (dd_capabilities b AND TG_DEVICE_CAP_RUMBLE \<noteq> 0))"
    by (simp add: copy_descriptor_def)
  ultimately show ?thesis
    by (simp add: descriptor_equal_copy flip: descriptor_equal_copy) (simp add: descriptor_equal_def copy_descriptor_def)
qed

end
