(* ===== verification/ShimState.thy ===== *)
theory ShimState
  imports GamepadState "HOL-Library.Signed_Division"
begin

text \<open>
  The state of the \<open>LD_PRELOAD\<close> shim, \<open>src/src/evdev_preload.c\<close>, and its operations that touch
  nothing else: the table of fake descriptors, the force-feedback effect slots, the answers to
  \<open>ioctl\<close> requests, and the conversion of evdev events to joystick events. The calls that reach the
  kernel are in \<open>ShimCalls\<close>.
\<close>

section \<open>State\<close>

text \<open>The functions \<open>tg_init\<close> looks up with \<open>dlsym(RTLD_NEXT, ...)\<close>; a pointer is the symbol it was
  looked up for, or \<open>None\<close> for null.\<close>

datatype symbol =
    Sym_open | Sym_open64 | Sym___open_2 | Sym_openat | Sym___openat_2 | Sym_ioctl
  | Sym_close | Sym_write | Sym_read | Sym_stat | Sym_stat64

abbreviation (input) TG_MAX_FAKE_FDS :: nat where "TG_MAX_FAKE_FDS \<equiv> 128"
abbreviation (input) TG_MAX_EFFECTS :: nat where "TG_MAX_EFFECTS \<equiv> 16"

text \<open>\<open>fk_raw\<close> is the used part of \<open>raw.bytes\<close>.\<close>

record tg_fake_fd =
  fk_fd :: fd
  fk_joydev :: bool
  fk_initializing :: bool
  fk_raw :: bytes
  fk_descriptor :: tg_device_descriptor

record tg_effect_slot =
  es_used :: bool
  es_fd :: fd
  es_low_frequency :: u16
  es_high_frequency :: u16
  es_duration_ms :: u16

text \<open>\<open>fake_fds\<close> is the array up to \<open>fake_count\<close>. \<open>errno_set\<close> is the last \<open>errno\<close> the shim itself has
  stored.\<close>

record shim =
  fake_fds :: "tg_fake_fd list"
  init_done :: bool
  mode_override :: int
  effect_slots :: "tg_effect_slot list"
  ff_gain :: u16
  real_open_fn :: "symbol option"
  real_open64_fn :: "symbol option"
  real___open_2_fn :: "symbol option"
  real_openat_fn :: "symbol option"
  real___openat_2_fn :: "symbol option"
  real_ioctl_fn :: "symbol option"
  real_close_fn :: "symbol option"
  real_write_fn :: "symbol option"
  real_read_fn :: "symbol option"
  real_stat_fn :: "symbol option"
  real_stat64_fn :: "symbol option"
  errno_set :: "errno option"

definition free_slot :: tg_effect_slot where
  "free_slot = \<lparr>es_used = False, es_fd = 0, es_low_frequency = 0, es_high_frequency = 0, es_duration_ms = 0\<rparr>"

text \<open>The static initialisers of a freshly loaded shim.\<close>

definition shim_loaded :: shim where
  "shim_loaded = \<lparr>fake_fds = [], init_done = False, mode_override = -1,
     effect_slots = replicate TG_MAX_EFFECTS free_slot, ff_gain = 0xffff,
     real_open_fn = None, real_open64_fn = None, real___open_2_fn = None, real_openat_fn = None,
     real___openat_2_fn = None, real_ioctl_fn = None, real_close_fn = None, real_write_fn = None,
     real_read_fn = None, real_stat_fn = None, real_stat64_fn = None, errno_set = None\<rparr>"

text \<open>\<open>dl\<close> says which symbols the dynamic loader finds behind the shim.\<close>

type_synonym loader = "symbol \<Rightarrow> bool"

definition dlsym :: "loader \<Rightarrow> symbol \<Rightarrow> symbol option" where
  "dlsym dl s = (if dl s then Some s else None)"

definition tg_init :: "loader \<Rightarrow> env \<Rightarrow> shim \<Rightarrow> shim" where
  "tg_init dl env sh =
     (if init_done sh then sh
      else let mode = env ''TERMUX_GAMEPAD_MODE'' in
        sh\<lparr>init_done := True,
           mode_override := (if tg_streq mode (Some (lit ''dinput'')) then 1
                             else if tg_streq mode (Some (lit ''xinput'')) then 0
                             else mode_override sh),
           real_open_fn := dlsym dl Sym_open, real_open64_fn := dlsym dl Sym_open64,
           real___open_2_fn := dlsym dl Sym___open_2, real_openat_fn := dlsym dl Sym_openat,
           real___openat_2_fn := dlsym dl Sym___openat_2, real_ioctl_fn := dlsym dl Sym_ioctl,
           real_close_fn := dlsym dl Sym_close, real_write_fn := dlsym dl Sym_write,
           real_read_fn := dlsym dl Sym_read, real_stat_fn := dlsym dl Sym_stat,
           real_stat64_fn := dlsym dl Sym_stat64\<rparr>)"

definition tg_backend_enabled :: "env \<Rightarrow> bool" where
  "tg_backend_enabled env =
     (let backend = termux_gamepad_get_backend env in backend = BACKEND_AUTO \<or> backend = BACKEND_UDEV)"

section \<open>Devices\<close>

definition tg_is_dinput :: "shim \<Rightarrow> tg_fake_fd option \<Rightarrow> bool" where
  "tg_is_dinput sh fake =
     (if 0 \<le> mode_override sh then mode_override sh \<noteq> 0
      else case fake of None \<Rightarrow> False | Some f \<Rightarrow> dd_input_mode (fk_descriptor f) = TG_INPUT_MODE_DINPUT)"

definition tg_device_name :: "shim \<Rightarrow> tg_fake_fd option \<Rightarrow> cstring" where
  "tg_device_name sh fake =
     (case fake of
        Some f \<Rightarrow> if char_at (dd_name (fk_descriptor f)) \<noteq> 0 then dd_name (fk_descriptor f)
          else if tg_is_dinput sh fake then TG_DINPUT_NAME else TG_XINPUT_NAME
      | None \<Rightarrow> if tg_is_dinput sh fake then TG_DINPUT_NAME else TG_XINPUT_NAME)"

definition tg_dinput_button_code :: "u16 \<Rightarrow> u16" where
  "tg_dinput_button_code code =
     (if code = TG_BTN_SOUTH then TG_BTN_TRIGGER
      else if code = TG_BTN_EAST then TG_BTN_THUMB
      else if code = TG_BTN_WEST then TG_BTN_THUMB2
      else if code = TG_BTN_NORTH then TG_BTN_TOP
      else if code = TG_BTN_TL then TG_BTN_TOP2
      else if code = TG_BTN_TR then TG_BTN_PINKIE
      else if code = TG_BTN_SELECT then TG_BTN_BASE
      else if code = TG_BTN_START then TG_BTN_BASE2
      else if code = TG_BTN_MODE then TG_BTN_BASE3
      else if code = TG_BTN_THUMBL then TG_BTN_BASE4
      else if code = TG_BTN_THUMBR then TG_BTN_BASE5
      else if code = 0x132 then TG_BTN_BASE6
      else code)"

section \<open>The table of fake descriptors\<close>

fun find_fake :: "fd \<Rightarrow> tg_fake_fd list \<Rightarrow> nat option" where
  "find_fake f [] = None"
| "find_fake f (e # es) = (if fk_fd e = f then Some 0 else map_option Suc (find_fake f es))"

text \<open>A pointer into \<open>fake_fds\<close> is the index of the entry.\<close>

definition tg_find_fake_fd :: "fd \<Rightarrow> shim \<Rightarrow> nat option" where
  "tg_find_fake_fd f sh = find_fake f (fake_fds sh)"

definition tg_is_fake_fd :: "fd \<Rightarrow> shim \<Rightarrow> bool" where
  "tg_is_fake_fd f sh = (tg_find_fake_fd f sh \<noteq> None)"

definition tg_add_fake_fd :: "fd \<Rightarrow> bool \<Rightarrow> tg_device_descriptor option \<Rightarrow> shim \<Rightarrow> shim" where
  "tg_add_fake_fd f joydev descriptor sh =
     (if f < 0 \<or> tg_is_fake_fd f sh \<or> TG_MAX_FAKE_FDS \<le> length (fake_fds sh) then sh
      else sh\<lparr>fake_fds := fake_fds sh @
             [\<lparr>fk_fd = f, fk_joydev = joydev, fk_initializing = joydev, fk_raw = [],
               fk_descriptor = (case descriptor of None \<Rightarrow> zero_descriptor | Some d \<Rightarrow> d)\<rparr>]\<rparr>)"

text \<open>Deleting moves the last entry into the hole.\<close>

definition tg_del_fake_fd :: "fd \<Rightarrow> shim \<Rightarrow> shim" where
  "tg_del_fake_fd f sh =
     (case tg_find_fake_fd f sh of
        None \<Rightarrow> sh
      | Some i \<Rightarrow> sh\<lparr>fake_fds := butlast ((fake_fds sh)[i := last (fake_fds sh)])\<rparr>)"

section \<open>Capabilities\<close>

definition set_bits :: "nat \<Rightarrow> nat list \<Rightarrow> bytes \<Rightarrow> bytes" where
  "set_bits len bits dst = foldl (\<lambda>d b. tg_set_bit d len b) dst bits"

definition tg_fill_bits :: "bytes \<Rightarrow> nat \<Rightarrow> nat \<Rightarrow> bool \<Rightarrow> bytes" where
  "tg_fill_bits dst len ev is_dinput =
     (let dst = tg_memzero dst len in
      if ev = TG_EV_KEY then
        (if is_dinput then set_bits len [TG_BTN_TRIGGER..<Suc TG_BTN_BASE6] dst
         else set_bits len [TG_BTN_SOUTH, TG_BTN_EAST, TG_BTN_WEST, TG_BTN_NORTH, TG_BTN_TL, TG_BTN_TR,
                TG_BTN_SELECT, TG_BTN_START, TG_BTN_MODE, TG_BTN_THUMBL, TG_BTN_THUMBR, 0x132] dst)
      else if ev = TG_EV_ABS then
        set_bits len [TG_ABS_X, TG_ABS_Y, TG_ABS_RX, TG_ABS_RY, TG_ABS_Z, TG_ABS_RZ, TG_ABS_HAT0X,
          TG_ABS_HAT0Y] dst
      else if ev = TG_EV_FF then
        (let dst = set_bits len [TG_FF_RUMBLE, TG_FF_GAIN] dst in
         if is_dinput then
           set_bits len [TG_FF_CONSTANT, TG_FF_SINE, TG_FF_TRIANGLE, TG_FF_SAW_UP, TG_FF_SAW_DOWN,
             TG_FF_RAMP, TG_FF_SPRING, TG_FF_DAMPER, TG_FF_INERTIA, TG_FF_FRICTION] dst
         else dst)
      else if ev = 0 then set_bits len [TG_EV_KEY, TG_EV_ABS, TG_EV_SYN, TG_EV_FF] dst
      else dst)"

section \<open>Force-feedback effects\<close>

definition tg_find_effect :: "fd \<Rightarrow> int \<Rightarrow> shim \<Rightarrow> int" where
  "tg_find_effect f ident sh =
     (if ident < 0 \<or> int TG_MAX_EFFECTS \<le> ident then -1
      else let slot = effect_slots sh ! nat ident in
        if es_used slot \<and> es_fd slot = f then ident else -1)"

definition tg_scaled_abs :: "s32 \<Rightarrow> u16" where
  "tg_scaled_abs value =
     (let v = (if sint value < 0 then - value else value);
          w = (if 32767 < sint v then 32767 else v)
      in ucast (w * 2))"

definition tg_is_condition_effect :: "u16 \<Rightarrow> bool" where
  "tg_is_condition_effect ty =
     (ty = TG_FF_SPRING \<or> ty = TG_FF_DAMPER \<or> ty = TG_FF_INERTIA \<or> ty = TG_FF_FRICTION)"

definition tg_condition_strength :: "tg_ff_condition_effect \<Rightarrow> u16" where
  "tg_condition_strength condition =
     (let strength = co_right_saturation condition;
          strength = (if strength < co_left_saturation condition then co_left_saturation condition else strength);
          coefficient = tg_scaled_abs (scast (co_right_coeff condition));
          strength = (if strength < coefficient then coefficient else strength);
          coefficient = tg_scaled_abs (scast (co_left_coeff condition))
      in if strength < coefficient then coefficient else strength)"

definition known_effect :: "u16 \<Rightarrow> bool" where
  "known_effect ty = (ty = TG_FF_RUMBLE \<or> ty = TG_FF_CONSTANT \<or> ty = TG_FF_PERIODIC \<or> ty = TG_FF_RAMP \<or>
     tg_is_condition_effect ty)"

text \<open>The motor strengths of an effect, as \<open>tg_upload_effect\<close> computes them.\<close>

definition effect_strength :: "tg_ff_effect \<Rightarrow> u16 \<times> u16" where
  "effect_strength effect =
     (if ff_type effect = TG_FF_CONSTANT then
        (let l = tg_scaled_abs (scast (u_constant_level effect)) in (l, l))
      else if ff_type effect = TG_FF_PERIODIC then
        (let l = tg_scaled_abs (scast (u_periodic_magnitude effect)) in (l, l))
      else if ff_type effect = TG_FF_RAMP then
        (let start = tg_scaled_abs (scast (u_ramp_start effect));
             end' = tg_scaled_abs (scast (u_ramp_end effect));
             l = (if end' < start then start else end') in (l, l))
      else if tg_is_condition_effect (ff_type effect) then
        (tg_condition_strength (u_condition 0 effect), tg_condition_strength (u_condition 1 effect))
      else (u_rumble_strong effect, u_rumble_weak effect))"

fun first_unused :: "tg_effect_slot list \<Rightarrow> nat" where
  "first_unused [] = 0"
| "first_unused (s # ss) = (if es_used s then Suc (first_unused ss) else 0)"

text \<open>The slot \<open>tg_upload_effect\<close> chooses, if any.\<close>

definition effect_target :: "fd \<Rightarrow> tg_ff_effect \<Rightarrow> shim \<Rightarrow> nat option" where
  "effect_target f effect sh =
     (let ident = sint (ff_id effect) in
      if \<not> known_effect (ff_type effect) then None
      else if ident = -1 then
        (let i = first_unused (effect_slots sh) in if i < TG_MAX_EFFECTS then Some i else None)
      else if ident < 0 \<or> int TG_MAX_EFFECTS \<le> ident \<or>
              es_used (effect_slots sh ! nat ident) \<and> es_fd (effect_slots sh ! nat ident) \<noteq> f then None
      else Some (nat ident))"

definition tg_upload_effect :: "fd \<Rightarrow> tg_ff_effect \<Rightarrow> shim \<Rightarrow> int \<times> tg_ff_effect \<times> shim" where
  "tg_upload_effect f effect sh =
     (case effect_target f effect sh of
        None \<Rightarrow> (-1, effect, sh)
      | Some i \<Rightarrow>
          (let (low, high) = effect_strength effect in
           (0, effect\<lparr>ff_id := word_of_nat i\<rparr>,
            sh\<lparr>effect_slots := (effect_slots sh)[i := \<lparr>es_used = True, es_fd = f, es_low_frequency = low,
                 es_high_frequency = high, es_duration_ms = ff_replay_length effect\<rparr>]\<rparr>)))"

definition tg_remove_effect :: "fd \<Rightarrow> int \<Rightarrow> shim \<Rightarrow> int \<times> shim" where
  "tg_remove_effect f ident sh =
     (let slot = tg_find_effect f ident sh in
      if slot < 0 then (-1, sh)
      else (0, sh\<lparr>effect_slots := (effect_slots sh)[nat slot := (effect_slots sh ! nat slot)\<lparr>es_used := False\<rparr>]\<rparr>))"

definition tg_clear_effects :: "fd \<Rightarrow> shim \<Rightarrow> shim" where
  "tg_clear_effects f sh =
     sh\<lparr>effect_slots := map (\<lambda>s. if es_used s \<and> es_fd s = f then s\<lparr>es_used := False\<rparr> else s) (effect_slots sh)\<rparr>"

section \<open>Answers to ioctl requests\<close>

text \<open>The memory behind the argument pointer is a byte list; \<open>poke\<close> stores a struct's image in it.\<close>

definition poke :: "nat \<Rightarrow> bytes \<Rightarrow> bytes \<Rightarrow> bytes" where
  "poke off bs mem = take off mem @ bs @ drop (off + length bs) mem"

definition enc_input_id :: "tg_input_id \<Rightarrow> bytes" where
  "enc_input_id i = to_le 2 (id_bustype i) @ to_le 2 (id_vendor i) @ to_le 2 (id_product i) @
     to_le 2 (id_version i)"

definition enc_absinfo :: "tg_input_absinfo \<Rightarrow> bytes" where
  "enc_absinfo a = to_le 4 (ai_value a) @ to_le 4 (ai_minimum a) @ to_le 4 (ai_maximum a) @
     to_le 4 (ai_fuzz a) @ to_le 4 (ai_flat a) @ to_le 4 (ai_resolution a)"

definition dec_effect :: "bytes \<Rightarrow> tg_ff_effect" where
  "dec_effect b = \<lparr>ff_type = of_le (field 0 2 b), ff_id = of_le (field 2 2 b),
     ff_direction = of_le (field 4 2 b), ff_trigger_button = of_le (field 6 2 b),
     ff_trigger_interval = of_le (field 8 2 b), ff_replay_length = of_le (field 10 2 b),
     ff_replay_delay = of_le (field 12 2 b), ff_storage = field 16 32 b\<rparr>"

definition fake_input_id :: "shim \<Rightarrow> tg_fake_fd \<Rightarrow> tg_input_id" where
  "fake_input_id sh fake =
     \<lparr>id_bustype = TG_BUS_USB,
      id_vendor = (if tg_is_dinput sh (Some fake) then TG_DINPUT_VENDOR else ucast (dd_vendor_id (fk_descriptor fake))),
      id_product = (if tg_is_dinput sh (Some fake) then TG_DINPUT_PRODUCT else ucast (dd_product_id (fk_descriptor fake))),
      id_version = 0x0114\<rparr>"

definition fake_absinfo :: "nat \<Rightarrow> tg_input_absinfo" where
  "fake_absinfo code =
     (let a = \<lparr>ai_value = 0, ai_minimum = 0, ai_maximum = 0, ai_fuzz = 0, ai_flat = 0, ai_resolution = 0\<rparr> in
      if code = TG_ABS_Z \<or> code = TG_ABS_RZ then a\<lparr>ai_minimum := 0, ai_maximum := 255, ai_flat := 0\<rparr>
      else if code = TG_ABS_HAT0X \<or> code = TG_ABS_HAT0Y then a\<lparr>ai_minimum := -1, ai_maximum := 1\<rparr>
      else a\<lparr>ai_minimum := -32768, ai_maximum := 32767, ai_flat := 4096\<rparr>)"

definition tg_fake_ioctl :: "shim \<Rightarrow> tg_fake_fd \<Rightarrow> u64 \<Rightarrow> u64 \<Rightarrow> bytes \<Rightarrow> int \<times> bytes" where
  "tg_fake_ioctl sh fake req arg mem =
     (let nr = ioc_nr req; sz = ioc_size req in
      if ioc_type req \<noteq> 0x45 then (-1, mem)
      else if nr = 0x01 \<and> arg \<noteq> 0 \<and> 4 \<le> sz then (0, poke 0 (to_le 4 (0x010001 :: s32)) mem)
      else if nr = 0x02 \<and> arg \<noteq> 0 \<and> 8 \<le> sz then (0, poke 0 (enc_input_id (fake_input_id sh fake)) mem)
      else if nr = 0x06 \<and> arg \<noteq> 0 \<and> sz \<noteq> 0 then
        (let name = tg_device_name sh (Some fake) in
         (int (tg_strlen (Some name)) + 1, tg_copy mem (Some name) sz))
      else if (nr = 0x20 \<or> nr = 0x20 + TG_EV_KEY \<or> nr = 0x20 + TG_EV_REL \<or> nr = 0x20 + TG_EV_ABS \<or>
               nr = 0x20 + TG_EV_FF) \<and> arg \<noteq> 0 then
        (0, tg_fill_bits mem sz (nr - 0x20) (tg_is_dinput sh (Some fake)))
      else if 0x40 \<le> nr \<and> nr \<le> 0x40 + TG_ABS_MAX \<and> arg \<noteq> 0 \<and> 24 \<le> sz then
        (0, poke 0 (enc_absinfo (fake_absinfo (nr - 0x40))) mem)
      else if nr = 0x84 \<and> arg \<noteq> 0 \<and> 4 \<le> sz then
        (0, poke 0 (to_le 4 (of_nat TG_MAX_EFFECTS :: s32)) mem)
      else (-1, mem))"

definition tg_fake_joy_ioctl :: "shim \<Rightarrow> tg_fake_fd \<Rightarrow> u64 \<Rightarrow> u64 \<Rightarrow> bytes \<Rightarrow> int \<times> bytes" where
  "tg_fake_joy_ioctl sh fake req arg mem =
     (let nr = ioc_nr req; sz = ioc_size req in
      if ioc_type req \<noteq> 0x6a \<or> arg = 0 then (-1, mem)
      else if nr = 0x01 \<and> 4 \<le> sz then (0, poke 0 (to_le 4 (0x020100 :: u32)) mem)
      else if nr = 0x11 \<and> 1 \<le> sz then (0, poke 0 [8] mem)
      else if nr = 0x12 \<and> 1 \<le> sz then (0, poke 0 [12] mem)
      else if nr = 0x13 \<and> sz \<noteq> 0 then
        (let name = tg_device_name sh (Some fake) in
         (int (tg_strlen (Some name)) + 1, tg_copy mem (Some name) sz))
      else (-1, mem))"

text \<open>The branches of \<open>ioctl\<close> for a fake descriptor: result, the caller's memory, state.\<close>

definition fake_ioctl :: "tg_fake_fd \<Rightarrow> u64 \<Rightarrow> u64 \<Rightarrow> bytes \<Rightarrow> shim \<Rightarrow> int \<times> bytes \<times> shim" where
  "fake_ioctl fake req arg mem sh =
     (let nr = ioc_nr req; sz = ioc_size req in
      if fk_joydev fake then
        (let (r, mem') = tg_fake_joy_ioctl sh fake req arg mem in (r, mem', sh))
      else if nr = 0x80 \<and> arg \<noteq> 0 \<and> 48 \<le> sz then
        (let (r, effect, sh') = tg_upload_effect (fk_fd fake) (dec_effect mem) sh
         in (r, poke 2 (to_le 2 (ff_id effect)) mem, sh'))
      else if nr = 0x81 \<and> 4 \<le> sz then
        (let (r, sh') = tg_remove_effect (fk_fd fake) (sint (ucast arg :: s32)) sh in (r, mem, sh'))
      else (let (r, mem') = tg_fake_ioctl sh fake req arg mem in (r, mem', sh)))"

section \<open>Joystick events\<close>

definition tg_joy_axis_number :: "u16 \<Rightarrow> int" where
  "tg_joy_axis_number code =
     (if code = TG_ABS_X then 0 else if code = TG_ABS_Y then 1 else if code = TG_ABS_Z then 2
      else if code = TG_ABS_RX then 3 else if code = TG_ABS_RY then 4 else if code = TG_ABS_RZ then 5
      else if code = TG_ABS_HAT0X then 6 else if code = TG_ABS_HAT0Y then 7 else -1)"

definition tg_joy_button_number :: "u16 \<Rightarrow> int" where
  "tg_joy_button_number code =
     (if code = TG_BTN_SOUTH then 0 else if code = TG_BTN_EAST then 1 else if code = TG_BTN_NORTH then 2
      else if code = TG_BTN_WEST then 3 else if code = TG_BTN_TL then 4 else if code = TG_BTN_TR then 5
      else if code = TG_BTN_SELECT then 6 else if code = TG_BTN_START then 7
      else if code = TG_BTN_MODE then 8 else if code = TG_BTN_THUMBL then 9
      else if code = TG_BTN_THUMBR then 10 else if code = 0x132 then 11 else -1)"

definition tg_joy_axis_value :: "u16 \<Rightarrow> s32 \<Rightarrow> s16" where
  "tg_joy_axis_value code value =
     (if code = TG_ABS_Z \<or> code = TG_ABS_RZ then
        (let v = (if sint value < 0 then 0 else if 255 < sint value then 255 else value)
         in ucast (v * 257 - 32767))
      else if code = TG_ABS_HAT0X \<or> code = TG_ABS_HAT0Y then
        (if sint value < 0 then -32767 else if 0 < sint value then 32767 else 0)
      else
        (let v = (if sint value < -32767 then -32767 else if 32767 < sint value then 32767 else value)
         in ucast v))"

text \<open>The time stamp: seconds and microseconds are signed 64 bit; the division truncates towards 0.\<close>

definition joy_time :: "tg_input_event \<Rightarrow> u32" where
  "joy_time input = ucast (ie_sec input * 1000 + word_of_int (sint (ie_usec input) sdiv 1000))"

definition tg_convert_joy_event :: "tg_fake_fd \<Rightarrow> tg_input_event \<Rightarrow> bool \<times> tg_fake_fd \<times> tg_js_event" where
  "tg_convert_joy_event fake input =
     (let output = \<lparr>js_time = joy_time input, js_value = 0, js_type = 0, js_number = 0\<rparr>;
          flag = (\<lambda>t. if fk_initializing fake then t OR TG_JS_EVENT_INIT else t) in
      if ie_type input = TG_EV_SYN \<and> ie_code input = TG_SYN_REPORT then
        (False, fake\<lparr>fk_initializing := False\<rparr>, output)
      else if ie_type input = TG_EV_ABS then
        (let number = tg_joy_axis_number (ie_code input) in
         if number < 0 then (False, fake, output)
         else (True, fake, output\<lparr>js_type := flag TG_JS_EVENT_AXIS, js_number := word_of_int number,
                 js_value := tg_joy_axis_value (ie_code input) (ie_value input)\<rparr>))
      else if ie_type input = TG_EV_KEY then
        (let number = tg_joy_button_number (ie_code input) in
         if number < 0 then (False, fake, output)
         else (True, fake, output\<lparr>js_type := flag TG_JS_EVENT_BUTTON, js_number := word_of_int number,
                 js_value := (if ie_value input \<noteq> 0 then 1 else 0)\<rparr>))
      else (False, fake, output))"

section \<open>The table's laws\<close>

text \<open>What a table of entries keyed by a descriptor promises; the shim's operations rely on it.\<close>

locale keyed_table =
  fixes key :: "'e \<Rightarrow> fd"
    and lookup :: "fd \<Rightarrow> 't \<Rightarrow> 'e option"
    and add :: "'e \<Rightarrow> 't \<Rightarrow> 't"
    and del :: "fd \<Rightarrow> 't \<Rightarrow> 't"
    and full :: "'t \<Rightarrow> bool"
    and wf :: "'t \<Rightarrow> bool"
  assumes lookup_key: "lookup f t = Some e \<Longrightarrow> key e = f"
    and add_wf: "wf t \<Longrightarrow> 0 \<le> key e \<Longrightarrow> wf (add e t)"
    and del_wf: "wf t \<Longrightarrow> wf (del f t)"
    and add_lookup: "wf t \<Longrightarrow> 0 \<le> key e \<Longrightarrow>
      lookup f (add e t) = (if f = key e \<and> lookup f t = None \<and> \<not> full t then Some e else lookup f t)"
    and del_lookup: "wf t \<Longrightarrow> lookup f (del g t) = (if f = g then None else lookup f t)"
begin

lemma add_del_inverse:
  assumes "wf t" "0 \<le> key e" "lookup (key e) t = None"
  shows "lookup f (del (key e) (add e t)) = lookup f t"
  using assms by (simp add: del_lookup add_wf add_lookup)

lemma del_absent:
  assumes "wf t" "lookup g t = None"
  shows "lookup f (del g t) = lookup f t"
  using assms by (simp add: del_lookup)

lemma add_keeps: "wf t \<Longrightarrow> 0 \<le> key e \<Longrightarrow> lookup f t = Some x \<Longrightarrow> lookup f (add e t) = Some x"
  by (simp add: add_lookup)

lemma full_add: "wf t \<Longrightarrow> 0 \<le> key e \<Longrightarrow> full t \<Longrightarrow> lookup f (add e t) = lookup f t"
  by (simp add: add_lookup)

end

text \<open>The shim's table as such a table.\<close>

definition fake_at :: "fd \<Rightarrow> tg_fake_fd list \<Rightarrow> tg_fake_fd option" where
  "fake_at f es = map_option (nth es) (find_fake f es)"

definition fake_add :: "tg_fake_fd \<Rightarrow> tg_fake_fd list \<Rightarrow> tg_fake_fd list" where
  "fake_add e es = (if find_fake (fk_fd e) es \<noteq> None \<or> TG_MAX_FAKE_FDS \<le> length es then es else es @ [e])"

definition fake_del :: "fd \<Rightarrow> tg_fake_fd list \<Rightarrow> tg_fake_fd list" where
  "fake_del f es = (case find_fake f es of None \<Rightarrow> es | Some i \<Rightarrow> butlast (es[i := last es]))"

definition wf_fakes :: "tg_fake_fd list \<Rightarrow> bool" where
  "wf_fakes es \<longleftrightarrow> length es \<le> TG_MAX_FAKE_FDS \<and> distinct (map fk_fd es) \<and> (\<forall>e\<in>set es. 0 \<le> fk_fd e)"

lemma tg_add_fake_fd_table:
  "0 \<le> f \<Longrightarrow> fake_fds (tg_add_fake_fd f joydev d sh) =
     fake_add \<lparr>fk_fd = f, fk_joydev = joydev, fk_initializing = joydev, fk_raw = [],
       fk_descriptor = (case d of None \<Rightarrow> zero_descriptor | Some x \<Rightarrow> x)\<rparr> (fake_fds sh)"
  by (simp add: tg_add_fake_fd_def fake_add_def tg_is_fake_fd_def tg_find_fake_fd_def)

lemma tg_del_fake_fd_table: "fake_fds (tg_del_fake_fd f sh) = fake_del f (fake_fds sh)"
  by (simp add: tg_del_fake_fd_def fake_del_def tg_find_fake_fd_def split: option.splits)

lemma find_fake_Some: "find_fake f es = Some i \<Longrightarrow> i < length es \<and> fk_fd (es ! i) = f"
  by (induction es arbitrary: i) (auto split: if_splits)

lemma find_fake_None: "find_fake f es = None \<longleftrightarrow> f \<notin> fk_fd ` set es"
  by (induction es) auto

lemma fake_at_None: "fake_at f es = None \<longleftrightarrow> f \<notin> fk_fd ` set es"
  by (simp add: fake_at_def find_fake_None)

lemma fake_at_Some:
  assumes "distinct (map fk_fd es)"
  shows "fake_at f es = Some e \<longleftrightarrow> e \<in> set es \<and> fk_fd e = f"
proof
  assume "fake_at f es = Some e"
  then show "e \<in> set es \<and> fk_fd e = f"
    by (auto simp: fake_at_def dest!: find_fake_Some)
next
  assume e: "e \<in> set es \<and> fk_fd e = f"
  then obtain x where x: "fake_at f es = Some x" using fake_at_None by (metis image_eqI not_None_eq)
  then have "x \<in> set es" "fk_fd x = f" by (auto simp: fake_at_def dest!: find_fake_Some)
  then have "x = e" using assms e by (metis distinct_map inj_onD)
  then show "fake_at f es = Some e" using x by simp
qed

lemma fake_del_set:
  assumes "distinct (map fk_fd es)"
  shows "distinct (map fk_fd (fake_del f es)) \<and> set (fake_del f es) = {e \<in> set es. fk_fd e \<noteq> f}"
proof (cases "find_fake f es")
  case None
  then have "f \<notin> fk_fd ` set es" "fake_del f es = es" by (simp_all add: fake_del_def flip: find_fake_None)
  then show ?thesis using assms by auto
next
  case (Some i)
  note i = find_fake_Some [OF Some]
  then obtain ys y where es: "es = ys @ [y]" by (metis append_butlast_last_id list.size(3) not_less_zero)
  have d: "distinct (map fk_fd ys)" "fk_fd y \<notin> fk_fd ` set ys" using assms es by auto
  show ?thesis
  proof (cases "i = length ys")
    case True
    then have "fake_del f es = ys" "fk_fd y = f" using i es Some by (auto simp: fake_del_def)
    moreover have "fk_fd e \<noteq> fk_fd y" if "e \<in> set ys" for e using d(2) that by (metis image_eqI)
    ultimately show ?thesis using d es by auto
  next
    case False
    then have il: "i < length ys" using i es by simp
    then have del: "fake_del f es = ys[i := y]"
      using i es Some by (auto simp: fake_del_def list_update_append1)
    have "set (ys[i := y]) = insert y (set ys - {ys ! i})"
      using d(1) il by (auto simp: set_update_distinct distinct_map)
    moreover have "fk_fd (ys ! i) = f" using i il es by (simp add: nth_append)
    moreover have "fk_fd y \<noteq> f" using d(2) il calculation(2) by (metis image_eqI nth_mem)
    moreover have "e = ys ! i" if "e \<in> set ys" "fk_fd e = f" for e
      using d(1) il calculation(2) that by (metis distinct_map inj_onD nth_mem)
    moreover have "distinct (map fk_fd (ys[i := y]))"
      using d by (simp add: map_update distinct_list_update)
    ultimately show ?thesis using es del by auto
  qed
qed

interpretation fakes: keyed_table fk_fd fake_at fake_add fake_del "\<lambda>es. TG_MAX_FAKE_FDS \<le> length es" wf_fakes
proof
  fix f :: fd and t and e :: tg_fake_fd
  assume "fake_at f t = Some e"
  then show "fk_fd e = f" by (auto simp: fake_at_def dest!: find_fake_Some)
next
  fix t and e :: tg_fake_fd
  assume "wf_fakes t" "0 \<le> fk_fd e"
  then show "wf_fakes (fake_add e t)"
    by (auto simp: wf_fakes_def fake_add_def find_fake_None)
next
  fix t f
  assume "wf_fakes t"
  moreover have "length (fake_del f t) \<le> length t" by (simp add: fake_del_def split: option.splits)
  ultimately show "wf_fakes (fake_del f t)"
    using fake_del_set [of t f] by (auto simp: wf_fakes_def)
next
  fix t and e :: tg_fake_fd and f :: fd
  assume t: "wf_fakes t" "0 \<le> fk_fd e"
  have "find_fake f (t @ [e]) = (case find_fake f t of Some i \<Rightarrow> Some i | None \<Rightarrow> if fk_fd e = f then Some (length t) else None)"
    by (induction t) (auto split: option.splits)
  then show "fake_at f (fake_add e t) = (if f = fk_fd e \<and> fake_at f t = None \<and> \<not> TG_MAX_FAKE_FDS \<le> length t
      then Some e else fake_at f t)"
    by (auto simp: fake_add_def fake_at_def nth_append dest: find_fake_Some split: option.splits)
next
  fix t f g
  assume t: "wf_fakes t"
  then have d: "distinct (map fk_fd t)" by (simp add: wf_fakes_def)
  show "fake_at f (fake_del g t) = (if f = g then None else fake_at f t)"
  proof (cases "f = g \<or> fake_at f t = None")
    case True
    then have "fake_at f (fake_del g t) = None"
      using fake_del_set [OF d, of g] by (auto simp: fake_at_None)
    then show ?thesis using True by auto
  next
    case False
    then obtain e where e: "fake_at f t = Some e" by auto
    then have "e \<in> set t" "fk_fd e = f" using fake_at_Some [OF d] by auto
    then have "fake_at f (fake_del g t) = Some e"
      using False fake_del_set [OF d, of g] by (subst fake_at_Some) auto
    then show ?thesis using False e by simp
  qed
qed

end
