(* ===== verification/ShimCalls.thy ===== *)
theory ShimCalls
  imports ShimState GamepadClient
begin

text \<open>
  The functions the shim puts in front of the C library, \<open>src/src/evdev_preload.c\<close>: opening the fake
  device nodes, \<open>ioctl\<close>, \<open>read\<close>, \<open>write\<close>, \<open>stat\<close> and \<open>close\<close>.

  The C library behind the shim: \<open>socket\<close>, \<open>connect\<close>, \<open>send\<close>, \<open>recv\<close>, \<open>fcntl\<close>, and the real \<open>read\<close>,
  \<open>write\<close> and \<open>close\<close>, act on the kernel model; what the real \<open>open\<close>s, \<open>ioctl\<close> and \<open>stat\<close>s do for
  files that are not the shim's is the parameter \<open>libc\<close>.
\<close>

section \<open>The C library behind the shim\<close>

record libc =
  lc_open :: "symbol \<Rightarrow> cstring option \<Rightarrow> u32 \<Rightarrow> u32 \<Rightarrow> kernel \<Rightarrow> int \<times> kernel"
  lc_openat :: "symbol \<Rightarrow> int \<Rightarrow> cstring option \<Rightarrow> u32 \<Rightarrow> u32 \<Rightarrow> kernel \<Rightarrow> int \<times> kernel"
  lc_ioctl :: "fd \<Rightarrow> u64 \<Rightarrow> u64 \<Rightarrow> bytes \<Rightarrow> kernel \<Rightarrow> int \<times> bytes \<times> kernel"
  lc_stat :: "symbol \<Rightarrow> cstring option \<Rightarrow> bytes option \<Rightarrow> int \<times> bytes option"

text \<open>The real \<open>close\<close>, \<open>write\<close> and \<open>read\<close>; a failing call gives -1. A read into a null buffer fails.\<close>

definition k_close_result :: "fd \<Rightarrow> kernel \<Rightarrow> int \<times> kernel" where
  "k_close_result f k = (if k_lookup k f = None then -1 else 0, k_close f k)"

definition k_write :: "fd \<Rightarrow> bytes \<Rightarrow> kernel \<Rightarrow> int \<times> kernel" where
  "k_write f bs k = (case k_send f bs k of (Wrote n, k') \<Rightarrow> (int n, k') | (_, k') \<Rightarrow> (-1, k'))"

definition sock_read :: "nat \<Rightarrow> sock \<Rightarrow> fault + ((int \<times> bytes) \<times> sock)" where
  "sock_read n s =
     (case sock_recv n s of
        (None, s') \<Rightarrow> if nonblock s then Inr ((-1, []), s) else Inl Blocks
      | (Some (Data bs), s') \<Rightarrow> Inr ((int (length bs), bs), s')
      | (Some (RecvErr e), s') \<Rightarrow> Inr ((-1, []), s'))"

definition k_read :: "fd \<Rightarrow> bool \<Rightarrow> nat \<Rightarrow> kernel \<Rightarrow> fault + ((int \<times> bytes) \<times> kernel)" where
  "k_read f buffer n k = (if buffer then on_sock f (-1, []) (sock_read n) k else Inr ((-1, []), k))"

text \<open>\<open>recv\<close> of \<open>n\<close> bytes with \<open>MSG_WAITALL\<close> on a blocking socket: an error or the end of the stream
  cuts it short. The result is the bytes received.\<close>

function recv_waitall :: "nat \<Rightarrow> bytes \<Rightarrow> sock \<Rightarrow> fault + (bytes \<times> sock)" where
  "recv_waitall n got s =
     (if n \<le> length got then Inr (got, s)
      else case sock_recv (n - length got) s of
        (None, s') \<Rightarrow> Inl Blocks
      | (Some (Data bs), s') \<Rightarrow> if bs \<noteq> [] then recv_waitall n (got @ bs) s' else Inr (got, s')
      | (Some (RecvErr e), s') \<Rightarrow> Inr (got, s'))"
  by pat_completeness auto
termination
  by (relation "measure (\<lambda>(n, got, s). rx_weight s)") (auto dest: sock_recv_weight [OF sym])

declare recv_waitall.simps [simp del]

section \<open>Sending control messages and closing\<close>

definition tg_send_control :: "fd \<Rightarrow> u16 \<Rightarrow> u16 \<Rightarrow> u16 \<Rightarrow> u32 \<Rightarrow> kernel \<Rightarrow> int \<times> kernel" where
  "tg_send_control f command low high duration_ms k =
     (case k_send f (enc_control (control_message command low high duration_ms)) k of
        (Wrote n, k') \<Rightarrow> (if n = 16 then 0 else -1, k')
      | (_, k') \<Rightarrow> (-1, k'))"

definition shim_close :: "loader \<Rightarrow> env \<Rightarrow> fd \<Rightarrow> shim \<Rightarrow> kernel \<Rightarrow> int \<times> shim \<times> kernel" where
  "shim_close dl env f sh k =
     (let sh1 = tg_init dl env sh;
          (sh2, k2) = (case tg_find_fake_fd f sh1 of
             Some i \<Rightarrow>
               if \<not> fk_joydev (fake_fds sh1 ! i)
               then (tg_clear_effects f sh1, snd (tg_send_control f TG_CONTROL_STOP_RUMBLE 0 0 0 k))
               else (sh1, k)
           | None \<Rightarrow> (sh1, k));
          sh3 = tg_del_fake_fd f sh2
      in case real_close_fn sh3 of
           Some _ \<Rightarrow> (let (r, k3) = k_close_result f k2 in (r, sh3, k3))
         | None \<Rightarrow> (-1, sh3, k2))"

section \<open>Opening a device\<close>

abbreviation (input) TG_O_NONBLOCK :: u32 where "TG_O_NONBLOCK \<equiv> 0x800"

definition tg_connect_device ::
  "loader \<Rightarrow> env \<Rightarrow> u32 \<Rightarrow> bool \<Rightarrow> shim \<Rightarrow> kernel \<Rightarrow> fault + (int \<times> shim \<times> kernel)" where
  "tg_connect_device dl env flags joydev sh k =
     (let path = default_path env None in
      if 108 \<le> tg_strlen (Some path) then Inr (-1, sh, k)
      else case k_socket k of
        (Inl e, k1) \<Rightarrow> Inr (-1, sh, k1)
      | (Inr f, k1) \<Rightarrow>
          (case k_connect f (cstr (tg_copy (replicate 108 0) (Some path) 108)) k1 of
             (Some e, k2) \<Rightarrow> (let (_, sh3, k3) = shim_close dl env f sh k2 in Inr (-1, sh3, k3))
           | (None, k2) \<Rightarrow>
               (let (sent_result, k3) = tg_send_control f TG_CONTROL_QUERY_DESCRIPTOR 0 0 0 k2 in
                bindr (if sent_result = 0 then on_sock f [] (recv_waitall 88 []) k3 else Inr ([], k3))
                  (\<lambda>(buf, k4).
                     let descriptor = dec_descriptor buf in
                     if length buf \<noteq> 88 \<or> dd_magic descriptor \<noteq> TG_DEVICE_MAGIC \<or>
                        dd_version descriptor \<noteq> TG_CONTROL_VERSION \<or> dd_present descriptor = 0
                     then (let (_, sh5, k5) = shim_close dl env f sh k4
                           in Inr (-1, sh5\<lparr>errno_set := Some ENODEV\<rparr>, k5))
                     else (let k5 = (if flags AND TG_O_NONBLOCK \<noteq> 0 then snd (k_set_nonblock f k4) else k4);
                               k6 = k_set_cloexec f k5
                           in Inr (f, tg_add_fake_fd f joydev (Some descriptor) sh, k6))))))"

text \<open>The debug trace of opens below \<open>/dev/input/\<close>, written to descriptor 2.\<close>

definition tg_debug_open_path :: "env \<Rightarrow> cstring option \<Rightarrow> shim \<Rightarrow> kernel \<Rightarrow> kernel" where
  "tg_debug_open_path env path sh k =
     (let prefix = lit ''/dev/input/'' in
      case (env ''TERMUX_GAMEPAD_DEBUG'', path, real_write_fn sh) of
        (Some enabled, Some p, Some _) \<Rightarrow>
          if char_at enabled \<noteq> 0 \<and> take (length prefix) (cstr p) = prefix
          then snd (k_write 2 [10] (snd (k_write 2 (cstr p) (snd (k_write 2 (lit ''termux-gamepad open: '') k)))))
          else k
      | _ \<Rightarrow> k)"

text \<open>The device node a path names: \<open>Some joydev\<close>.\<close>

definition fake_node :: "cstring option \<Rightarrow> bool option" where
  "fake_node path =
     (if tg_streq path (Some TG_FAKE_DEVNODE) then Some False
      else if tg_streq path (Some TG_FAKE_HAPTIC_ALIAS_NODE) then Some False
      else if tg_streq path (Some TG_FAKE_JOYDEV_NODE) then Some True
      else None)"

definition call_open ::
  "libc \<Rightarrow> symbol \<Rightarrow> cstring option \<Rightarrow> u32 \<Rightarrow> u32 \<Rightarrow> shim \<Rightarrow> kernel \<Rightarrow> fault + (int \<times> shim \<times> kernel)" where
  "call_open lc f path flags mode sh k = (let (r, k') = lc_open lc f path flags mode k in Inr (r, sh, k'))"

definition tg_open_common ::
  "libc \<Rightarrow> loader \<Rightarrow> env \<Rightarrow> cstring option \<Rightarrow> u32 \<Rightarrow> u32 \<Rightarrow> symbol option \<Rightarrow> shim \<Rightarrow> kernel \<Rightarrow>
     fault + (int \<times> shim \<times> kernel)" where
  "tg_open_common lc dl env path flags mode fallback sh k =
     (let sh1 = tg_init dl env sh in
      if \<not> tg_backend_enabled env then
        (case fallback of None \<Rightarrow> Inl NullCall | Some f \<Rightarrow> call_open lc f path flags mode sh1 k)
      else let k1 = tg_debug_open_path env path sh1 k in
        case fake_node path of
          Some joydev \<Rightarrow> tg_connect_device dl env flags joydev sh1 k1
        | None \<Rightarrow> (case fallback of None \<Rightarrow> Inr (-1, sh1, k1)
                   | Some f \<Rightarrow> call_open lc f path flags mode sh1 k1))"

definition termux_evdev_shim_active :: "env \<Rightarrow> bool" where
  "termux_evdev_shim_active env = tg_backend_enabled env"

definition shim_open ::
  "libc \<Rightarrow> loader \<Rightarrow> env \<Rightarrow> cstring option \<Rightarrow> u32 \<Rightarrow> u32 \<Rightarrow> shim \<Rightarrow> kernel \<Rightarrow> fault + (int \<times> shim \<times> kernel)" where
  "shim_open lc dl env path flags mode sh k =
     tg_open_common lc dl env path flags mode (real_open_fn sh) sh k"

definition shim_open64 ::
  "libc \<Rightarrow> loader \<Rightarrow> env \<Rightarrow> cstring option \<Rightarrow> u32 \<Rightarrow> u32 \<Rightarrow> shim \<Rightarrow> kernel \<Rightarrow> fault + (int \<times> shim \<times> kernel)" where
  "shim_open64 lc dl env path flags mode sh k =
     (let sh1 = tg_init dl env sh in
      tg_open_common lc dl env path flags mode
        (if real_open64_fn sh1 \<noteq> None then real_open64_fn sh1 else real_open_fn sh1) sh1 k)"

definition shim___open_2 ::
  "libc \<Rightarrow> loader \<Rightarrow> env \<Rightarrow> cstring option \<Rightarrow> u32 \<Rightarrow> u32 \<Rightarrow> shim \<Rightarrow> kernel \<Rightarrow> fault + (int \<times> shim \<times> kernel)" where
  "shim___open_2 lc dl env path flags ignored sh k =
     (let sh1 = tg_init dl env sh in
      tg_open_common lc dl env path flags 0
        (if real___open_2_fn sh1 \<noteq> None then real___open_2_fn sh1 else real_open_fn sh1) sh1 k)"

definition shim_openat ::
  "libc \<Rightarrow> loader \<Rightarrow> env \<Rightarrow> int \<Rightarrow> cstring option \<Rightarrow> u32 \<Rightarrow> u32 \<Rightarrow> shim \<Rightarrow> kernel \<Rightarrow>
     fault + (int \<times> shim \<times> kernel)" where
  "shim_openat lc dl env dirfd path flags mode sh k =
     (let sh1 = tg_init dl env sh in
      case fake_node path of
        Some joydev \<Rightarrow> tg_connect_device dl env flags joydev sh1 k
      | None \<Rightarrow> (case real_openat_fn sh1 of
                   None \<Rightarrow> Inr (-1, sh1, k)
                 | Some f \<Rightarrow> (let (r, k') = lc_openat lc f dirfd path flags mode k in Inr (r, sh1, k'))))"

definition shim___openat_2 ::
  "libc \<Rightarrow> loader \<Rightarrow> env \<Rightarrow> int \<Rightarrow> cstring option \<Rightarrow> u32 \<Rightarrow> u32 \<Rightarrow> shim \<Rightarrow> kernel \<Rightarrow>
     fault + (int \<times> shim \<times> kernel)" where
  "shim___openat_2 lc dl env dirfd path flags ignored sh k =
     (let sh1 = tg_init dl env sh in
      case fake_node path of
        Some joydev \<Rightarrow> tg_connect_device dl env flags joydev sh1 k
      | None \<Rightarrow>
          (case real___openat_2_fn sh1 of
             Some f \<Rightarrow> (let (r, k') = lc_openat lc f dirfd path flags 0 k in Inr (r, sh1, k'))
           | None \<Rightarrow>
               (case real_openat_fn sh1 of
                  Some f \<Rightarrow> (let (r, k') = lc_openat lc f dirfd path flags 0 k in Inr (r, sh1, k'))
                | None \<Rightarrow> Inr (-1, sh1, k))))"

section \<open>ioctl\<close>

definition shim_ioctl ::
  "libc \<Rightarrow> loader \<Rightarrow> env \<Rightarrow> fd \<Rightarrow> u64 \<Rightarrow> u64 \<Rightarrow> bytes \<Rightarrow> shim \<Rightarrow> kernel \<Rightarrow> int \<times> bytes \<times> shim \<times> kernel" where
  "shim_ioctl lc dl env f req arg mem sh k =
     (let sh1 = tg_init dl env sh in
      case tg_find_fake_fd f sh1 of
        Some i \<Rightarrow> (let (r, mem', sh2) = fake_ioctl (fake_fds sh1 ! i) req arg mem sh1 in (r, mem', sh2, k))
      | None \<Rightarrow>
          (case real_ioctl_fn sh1 of
             None \<Rightarrow> (-1, mem, sh1, k)
           | Some _ \<Rightarrow> (let (r, mem', k') = lc_ioctl lc f req arg mem k in (r, mem', sh1, k'))))"

section \<open>read\<close>

text \<open>The inner loop of \<open>read\<close> on a joystick node: \<open>None\<close> when the raw event is complete, else the
  result of the read that stopped it. \<open>avail\<close> says whether \<open>real_read_fn\<close> is set.\<close>

function fill_raw :: "bool \<Rightarrow> tg_fake_fd \<Rightarrow> sock \<Rightarrow> fault + (int option \<times> tg_fake_fd \<times> sock)" where
  "fill_raw avail fake s =
     (if 24 \<le> length (fk_raw fake) then Inr (None, fake, s)
      else if \<not> avail then Inr (Some (-1), fake, s)
      else case sock_read (24 - length (fk_raw fake)) s of
        Inl e \<Rightarrow> Inl e
      | Inr ((got, bs), s') \<Rightarrow>
          if got \<le> 0 then Inr (Some got, fake, s')
          else fill_raw avail (fake\<lparr>fk_raw := fk_raw fake @ bs\<rparr>) s')"
  by pat_completeness auto
termination
  by (relation "measure (\<lambda>(avail, fake, s). rx_weight s)")
     (auto simp: sock_read_def dest!: sock_recv_weight split: option.splits recv_ans.splits prod.splits if_splits)

declare fill_raw.simps [simp del]

definition raw_weight :: "tg_fake_fd \<Rightarrow> sock \<Rightarrow> nat" where
  "raw_weight fake s = length (fk_raw fake) + rx_weight s"

lemma sock_read_data:
  assumes "sock_read n s = Inr ((got, bs), s')" "0 < got"
  shows "sock_recv n s = (Some (Data bs), s') \<and> got = int (length bs) \<and> bs \<noteq> []"
  using assms by (auto simp: sock_read_def split: option.splits recv_ans.splits prod.splits if_splits)

lemma sock_recv_data_weight:
  "sock_recv n s = (Some (Data bs), s') \<Longrightarrow> length bs + rx_weight s' \<le> rx_weight s"
  by (auto simp: sock_recv_def rx_weight_def split: list.splits recv_ans.splits if_splits)

lemma fill_raw_weight:
  assumes "fill_raw avail fake s = Inr (None, fake', s')"
  shows "24 \<le> length (fk_raw fake') \<and> raw_weight fake' s' \<le> raw_weight fake s"
  using assms
proof (induction avail fake s rule: fill_raw.induct)
  case (1 avail fake s)
  show ?case
  proof (cases "24 \<le> length (fk_raw fake) \<or> \<not> avail")
    case True
    then show ?thesis using "1.prems" by (auto simp: fill_raw.simps [of avail fake s] split: if_split_asm)
  next
    case False
    then obtain got bs s1 where r: "sock_read (24 - length (fk_raw fake)) s = Inr ((got, bs), s1)" "\<not> got \<le> 0"
      and rec: "fill_raw avail (fake\<lparr>fk_raw := fk_raw fake @ bs\<rparr>) s1 = Inr (None, fake', s')"
      using "1.prems" False by (subst (asm) fill_raw.simps) (auto split: sum.splits if_splits)
    have "sock_recv (24 - length (fk_raw fake)) s = (Some (Data bs), s1)"
      using sock_read_data [OF r(1)] r(2) by simp
    from sock_recv_data_weight [OF this]
    show ?thesis using "1.IH" [OF _ _ r(1) refl refl] False r(2) rec
      by (auto simp: raw_weight_def)
  qed
qed

lemma convert_raw: "tg_convert_joy_event fake ev = (emit, fake', output) \<Longrightarrow> fk_raw fake' = fk_raw fake"
  by (auto simp: tg_convert_joy_event_def Let_def split: if_splits)

text \<open>The outer loop; \<open>produced\<close> are the events already stored in the caller's buffer.\<close>

function joy_loop ::
  "bool \<Rightarrow> nat \<Rightarrow> tg_js_event list \<Rightarrow> tg_fake_fd \<Rightarrow> sock \<Rightarrow>
     fault + ((int \<times> tg_js_event list) \<times> tg_fake_fd \<times> sock)" where
  "joy_loop avail capacity produced fake s =
     (if capacity \<le> length produced then Inr ((int (8 * length produced), produced), fake, s)
      else case fill_raw avail fake s of
        Inl e \<Rightarrow> Inl e
      | Inr (Some got, fake', s') \<Rightarrow>
          Inr ((if produced \<noteq> [] then int (8 * length produced) else got, produced), fake', s')
      | Inr (None, fake', s') \<Rightarrow>
          (case tg_convert_joy_event (fake'\<lparr>fk_raw := []\<rparr>) (dec_event (fk_raw fake')) of
             (emit, fake2, output) \<Rightarrow>
               joy_loop avail capacity (if emit then produced @ [output] else produced) fake2 s'))"
  by pat_completeness auto
termination
  by (relation "measure (\<lambda>(avail, capacity, produced, fake, s). raw_weight fake s)")
     (auto dest!: fill_raw_weight convert_raw [OF sym] simp: raw_weight_def)

declare joy_loop.simps [simp del]

text \<open>DirectInput reads rename the key codes of the complete events in the buffer.\<close>

definition rename_event :: "bytes \<Rightarrow> bytes" where
  "rename_event b =
     (let event = dec_event b in
      if ie_type event = TG_EV_KEY then enc_event (event\<lparr>ie_code := tg_dinput_button_code (ie_code event)\<rparr>) else b)"

definition rename_buffer :: "bytes \<Rightarrow> bytes" where
  "rename_buffer bs = concat (map rename_event (chunks 24 bs)) @ leftover 24 bs"

definition shim_read ::
  "loader \<Rightarrow> env \<Rightarrow> fd \<Rightarrow> bool \<Rightarrow> nat \<Rightarrow> shim \<Rightarrow> kernel \<Rightarrow> fault + ((int \<times> bytes) \<times> shim \<times> kernel)" where
  "shim_read dl env f buffer n sh k =
     (let sh1 = tg_init dl env sh;
          real = (if real_read_fn sh1 \<noteq> None then k_read f buffer n k else Inr ((-1, []), k)) in
      case tg_find_fake_fd f sh1 of
        None \<Rightarrow> bindr real (\<lambda>(r, k'). Inr (r, sh1, k'))
      | Some i \<Rightarrow>
          (let fake = fake_fds sh1 ! i in
           if \<not> fk_joydev fake then
             bindr real (\<lambda>((got, bs), k').
               if \<not> tg_is_dinput sh1 (Some fake) \<or> got \<le> 0 \<or> \<not> buffer then Inr ((got, bs), sh1, k')
               else Inr ((got, rename_buffer bs), sh1, k'))
           else if \<not> buffer \<or> n < 8 then Inr ((-1, []), sh1, k)
           else bindr (on_sock f ((-1, []), fake)
                   (\<lambda>s. map_sum id (\<lambda>(r, fake', s'). ((r, fake'), s'))
                          (joy_loop (real_read_fn sh1 \<noteq> None) (n div 8) [] fake s)) k)
                 (\<lambda>(((got, events), fake'), k').
                    Inr ((got, concat (map enc_js events)), sh1\<lparr>fake_fds := (fake_fds sh1)[i := fake']\<rparr>, k'))))"

section \<open>write\<close>

text \<open>The gain applied to a strength.\<close>

definition scaled :: "u16 \<Rightarrow> u16 \<Rightarrow> u16" where
  "scaled strength gain = ucast ((ucast strength * ucast gain :: u32) div 0xffff)"

fun write_events :: "fd \<Rightarrow> tg_input_event list \<Rightarrow> shim \<Rightarrow> kernel \<Rightarrow> bool \<times> shim \<times> kernel" where
  "write_events f [] sh k = (True, sh, k)"
| "write_events f (e # es) sh k =
     (if ie_type e \<noteq> TG_EV_FF then write_events f es sh k
      else if ie_code e = TG_FF_GAIN then
        (let gain = sint (ie_value e);
             gain = (if gain < 0 then 0 else if 0xffff < gain then 0xffff else gain)
         in write_events f es (sh\<lparr>ff_gain := word_of_int gain\<rparr>) k)
      else let slot = tg_find_effect f (uint (ie_code e)) sh in
        if slot < 0 then (False, sh, k)
        else if sint (ie_value e) \<le> 0 then
          (let (r, k') = tg_send_control f TG_CONTROL_STOP_RUMBLE 0 0 0 k in
           if r < 0 then (False, sh, k') else write_events f es sh k')
        else
          (let s = effect_slots sh ! nat slot;
               low = scaled (es_low_frequency s) (ff_gain sh);
               high = scaled (es_high_frequency s) (ff_gain sh);
               duration = (if es_duration_ms s = 0 then 2500 else ucast (es_duration_ms s));
               (r, k') = tg_send_control f TG_CONTROL_RUMBLE low high duration k
           in if r < 0 then (False, sh, k') else write_events f es sh k'))"

definition shim_write ::
  "loader \<Rightarrow> env \<Rightarrow> fd \<Rightarrow> bytes option \<Rightarrow> nat \<Rightarrow> shim \<Rightarrow> kernel \<Rightarrow> int \<times> shim \<times> kernel" where
  "shim_write dl env f buffer n sh k =
     (let sh1 = tg_init dl env sh in
      case tg_find_fake_fd f sh1 of
        None \<Rightarrow> (case (real_write_fn sh1, buffer) of
                   (Some _, Some bs) \<Rightarrow> (let (r, k') = k_write f (take n bs) k in (r, sh1, k'))
                 | _ \<Rightarrow> (-1, sh1, k))
      | Some i \<Rightarrow>
          if fk_joydev (fake_fds sh1 ! i) then (-1, sh1, k)
          else case buffer of
            None \<Rightarrow> (-1, sh1, k)
          | Some bs \<Rightarrow>
              if n mod 24 \<noteq> 0 then (-1, sh1, k)
              else (let (ok, sh2, k2) = write_events f (map dec_event (chunks 24 (take n bs))) sh1 k
                    in (if ok then int n else -1, sh2, k2)))"

section \<open>stat\<close>

definition fake_stat_image :: "bool \<Rightarrow> bytes" where
  "fake_stat_image joydev =
     to_le 8 (1 :: u64) @ to_le 8 (if joydev then 199 else 99 :: u64) @
     to_le 4 (0x21b0 :: u32) @ to_le 4 (1 :: u32) @ to_le 4 (0 :: u32) @ to_le 4 (0 :: u32) @
     to_le 8 (push_bit 8 13 OR 99 :: u64) @ to_le 8 (0 :: u64) @ to_le 8 (0 :: u64) @
     to_le 4 (4096 :: s32) @ to_le 4 (0 :: s32) @ replicate 64 0"

text \<open>\<open>tg_fake_stat\<close>; the output buffer is \<open>None\<close> for a null pointer.\<close>

definition tg_fake_stat :: "bytes option \<Rightarrow> bool \<Rightarrow> int \<times> bytes option" where
  "tg_fake_stat output joydev =
     (case output of None \<Rightarrow> (-1, None) | Some mem \<Rightarrow> (0, Some (poke 0 (fake_stat_image joydev) mem)))"

definition shim_stat ::
  "libc \<Rightarrow> loader \<Rightarrow> env \<Rightarrow> cstring option \<Rightarrow> bytes option \<Rightarrow> shim \<Rightarrow> (int \<times> bytes option) \<times> shim" where
  "shim_stat lc dl env path output sh =
     (let sh1 = tg_init dl env sh in
      case fake_node path of
        Some joydev \<Rightarrow> (tg_fake_stat output joydev, sh1)
      | None \<Rightarrow> (case real_stat_fn sh1 of Some f \<Rightarrow> (lc_stat lc f path output, sh1)
                 | None \<Rightarrow> ((-1, output), sh1)))"

definition shim_stat64 ::
  "libc \<Rightarrow> loader \<Rightarrow> env \<Rightarrow> cstring option \<Rightarrow> bytes option \<Rightarrow> shim \<Rightarrow> (int \<times> bytes option) \<times> shim" where
  "shim_stat64 lc dl env path output sh =
     (let sh1 = tg_init dl env sh in
      case fake_node path of
        Some joydev \<Rightarrow> (tg_fake_stat output joydev, sh1)
      | None \<Rightarrow>
          (case real_stat64_fn sh1 of
             Some f \<Rightarrow> (lc_stat lc f path output, sh1)
           | None \<Rightarrow> (case real_stat_fn sh1 of Some f \<Rightarrow> (lc_stat lc f path output, sh1)
                      | None \<Rightarrow> ((-1, output), sh1))))"

end
