(* ===== verification/ShimInvariant.thy ===== *)
theory ShimInvariant
  imports ShimCalls GamepadTransfer
begin

text \<open>
  The invariant of the shim and what its operations do to the table of fake descriptors, the effect
  slots and the kernel: entries are distinct open descriptors of valid devices with an incomplete
  raw event, and every used effect slot belongs to an open event device.
\<close>

section \<open>The invariant\<close>

definition valid_device :: "tg_device_descriptor \<Rightarrow> bool" where
  "valid_device d \<longleftrightarrow> dd_magic d = TG_DEVICE_MAGIC \<and> dd_version d = TG_CONTROL_VERSION \<and> dd_present d \<noteq> 0 \<and>
     wf_descriptor d"

definition wf_entry :: "tg_fake_fd \<Rightarrow> bool" where
  "wf_entry e \<longleftrightarrow> length (fk_raw e) < 24 \<and> valid_device (fk_descriptor e)"

definition shim_inv :: "shim \<Rightarrow> kernel \<Rightarrow> bool" where
  "shim_inv sh k \<longleftrightarrow>
     wf_fakes (fake_fds sh) \<and> (\<forall>e\<in>set (fake_fds sh). wf_entry e \<and> k_lookup k (fk_fd e) \<noteq> None) \<and>
     length (effect_slots sh) = TG_MAX_EFFECTS \<and>
     (\<forall>s\<in>set (effect_slots sh). es_used s \<longrightarrow>
        (\<exists>e\<in>set (fake_fds sh). fk_fd e = es_fd s \<and> \<not> fk_joydev e))"

lemma tg_init_simps [simp]:
  "fake_fds (tg_init dl env sh) = fake_fds sh"
  "effect_slots (tg_init dl env sh) = effect_slots sh"
  "ff_gain (tg_init dl env sh) = ff_gain sh"
  "errno_set (tg_init dl env sh) = errno_set sh"
  "init_done (tg_init dl env sh)"
  "tg_init dl env (tg_init dl' env' sh) = tg_init dl' env' sh"
  "shim_inv (tg_init dl env sh) k = shim_inv sh k"
  by (simp_all add: tg_init_def Let_def shim_inv_def)

lemma tg_init_done: "init_done sh \<Longrightarrow> tg_init dl env sh = sh"
  by (simp add: tg_init_def)

lemma shim_inv_errno [simp]: "shim_inv (sh\<lparr>errno_set := e\<rparr>) k = shim_inv sh k"
  by (simp add: shim_inv_def)

text \<open>The world may change sockets, not close descriptors.\<close>

lemma shim_inv_kernel:
  assumes "shim_inv sh k" "\<And>f. k_lookup k f \<noteq> None \<Longrightarrow> k_lookup k' f \<noteq> None"
  shows "shim_inv sh k'"
  using assms by (auto simp: shim_inv_def)

lemma find_fake_entry:
  assumes "tg_find_fake_fd f sh = Some i"
  shows "i < length (fake_fds sh)" "fk_fd (fake_fds sh ! i) = f" "fake_fds sh ! i \<in> set (fake_fds sh)"
  using find_fake_Some assms by (auto simp: tg_find_fake_fd_def)

lemma find_fake_absent: "tg_find_fake_fd f sh = None \<longleftrightarrow> f \<notin> fk_fd ` set (fake_fds sh)"
  by (simp add: tg_find_fake_fd_def find_fake_None)

section \<open>Sending and receiving\<close>

lemma k_send_lookup:
  assumes "k_send f bs k = (a, k')"
  shows "g \<noteq> f \<Longrightarrow> k_lookup k' g = k_lookup k g" and "(k_lookup k' g = None) = (k_lookup k g = None)"
  using assms by (auto simp: k_send_def fdt.update_lookup split: option.splits prod.splits if_splits)

lemma tg_send_control_lookup:
  assumes "tg_send_control f c l h d k = (r, k')"
  shows "g \<noteq> f \<Longrightarrow> k_lookup k' g = k_lookup k g" and "(k_lookup k' g = None) = (k_lookup k g = None)"
proof -
  obtain a k1 where s: "k_send f (enc_control (control_message c l h d)) k = (a, k1)" by fastforce
  have "k' = k1" using assms s by (auto simp: tg_send_control_def split: send_ans.splits)
  then show "g \<noteq> f \<Longrightarrow> k_lookup k' g = k_lookup k g" "(k_lookup k' g = None) = (k_lookup k g = None)"
    using k_send_lookup [OF s] by simp_all
qed

lemma tg_send_control_spec:
  assumes "tg_send_control f c l h d k = (r, k')" "k_lookup k f = Some s"
  shows "\<exists>s' n. k_lookup k' f = Some s' \<and> rx s' = rx s \<and> peer s' = peer s \<and> (r = 0 \<or> r = -1) \<and> n \<le> 16 \<and>
    sent s' = sent s @ take n (enc_control (control_message c l h d)) \<and> (r = 0) = (n = 16)"
proof -
  let ?m = "enc_control (control_message c l h d)"
  obtain a s1 where ss: "sock_send ?m s = (a, s1)" by fastforce
  have len: "length ?m = 16" by (rule ctl.length_enc) simp
  have k': "k_lookup k' f = Some s1" and r: "r = (if a = Wrote 16 then 0 else -1)"
    using assms by (auto simp: tg_send_control_def k_send_def ss fdt.update_lookup split: send_ans.splits if_splits)
  show ?thesis
  proof (cases a)
    case (Wrote n)
    then show ?thesis using sock_send_Wrote [OF ss [unfolded Wrote]] sock_send_frame [OF ss] k' r len
      by (intro exI [of _ s1] exI [of _ n]) auto
  next
    case (SendErr e)
    then show ?thesis using sock_send_other [OF ss] sock_send_frame [OF ss] k' r
      by (intro exI [of _ s1] exI [of _ 0]) auto
  next
    case (SendAgain p)
    then show ?thesis using sock_send_other [OF ss] sock_send_frame [OF ss] k' r
      by (intro exI [of _ s1] exI [of _ 0]) auto
  qed
qed

lemma recv_waitall_spec:
  assumes "recv_waitall n got s = Inr (buf, s')" "length got \<le> n"
  shows "sent s' = sent s \<and> peer s' = peer s \<and> length buf \<le> n \<and>
    (\<exists>more. buf = got @ more \<and> pending (rx s) = more @ pending (rx s') \<or> length buf < n)"
  using assms
proof (induction "rx_weight s" arbitrary: got s rule: less_induct)
  case less
  note unfold = recv_waitall.simps [of n got s]
  show ?case
  proof (cases "n \<le> length got")
    case True
    then have "recv_waitall n got s = Inr (got, s)" by (simp add: unfold)
    then show ?thesis using less.prems by simp
  next
    case False
    obtain a s1 where rc: "sock_recv (n - length got) s = (a, s1)" by fastforce
    note fr = sock_recv_frame [OF rc]
    show ?thesis
    proof (cases "\<exists>bs. a = Some (Data bs) \<and> bs \<noteq> []")
      case True
      then obtain bs where bs: "a = Some (Data bs)" "bs \<noteq> []" by blast
      note rc' = rc [unfolded bs(1)]
      have "recv_waitall n (got @ bs) s1 = Inr (buf, s')" using less.prems False bs by (simp add: unfold rc)
      moreover have "rx_weight s1 < rx_weight s" using sock_recv_weight [OF rc'] bs(2) by simp
      moreover have "length (got @ bs) \<le> n" using sock_recv_length [OF rc'] False by simp
      ultimately show ?thesis
        using less.hyps [of s1 "got @ bs"] sock_recv_pending [OF rc' bs(2)] fr by auto
    next
      case False: False
      then show ?thesis using less.prems fr \<open>\<not> n \<le> length got\<close>
        by (auto simp: unfold rc split: option.splits recv_ans.splits)
    qed
  qed
qed

section \<open>Closing\<close>

lemma shim_close_absent:
  assumes "init_done sh" "f \<notin> fk_fd ` set (fake_fds sh)" "shim_close dl env f sh k = (r, sh', k')"
  shows "sh' = sh" "k_lookup k' = (if real_close_fn sh = None then k_lookup k else (k_lookup k)(f := None))"
  using assms
  by (auto simp: shim_close_def tg_init_done find_fake_absent tg_del_fake_fd_def k_close_result_def Let_def
        split: option.splits) (metis find_fake_absent option.distinct(1))+

lemma fake_fds_clear [simp]:
  "fake_fds (tg_clear_effects f sh) = fake_fds sh"
  "real_close_fn (tg_clear_effects f sh) = real_close_fn sh"
  "init_done (tg_clear_effects f sh) = init_done sh"
  by (simp_all add: tg_clear_effects_def)

lemma tg_del_frame [simp]:
  "effect_slots (tg_del_fake_fd f sh) = effect_slots sh"
  "real_close_fn (tg_del_fake_fd f sh) = real_close_fn sh"
  "ff_gain (tg_del_fake_fd f sh) = ff_gain sh"
  by (simp_all add: tg_del_fake_fd_def split: option.splits)

text \<open>Everything \<open>close\<close> does, by the kind of descriptor.\<close>

definition closed_slots :: "fd \<Rightarrow> shim \<Rightarrow> tg_effect_slot list" where
  "closed_slots f sh =
     (case tg_find_fake_fd f sh of
        Some i \<Rightarrow> if fk_joydev (fake_fds sh ! i) then effect_slots sh
                  else effect_slots (tg_clear_effects f sh)
      | None \<Rightarrow> effect_slots sh)"

lemma shim_close_effect:
  assumes "shim_close dl env f sh k = (r, sh', k')"
  shows "fake_fds sh' = fake_del f (fake_fds sh)" "effect_slots sh' = closed_slots f sh"
    "g \<noteq> f \<Longrightarrow> k_lookup k' g = k_lookup k g"
    "real_close_fn (tg_init dl env sh) \<noteq> None \<Longrightarrow> k_lookup k' f = None"
    "ff_gain sh' = ff_gain sh" "init_done sh'"
proof -
  let ?sh = "tg_init dl env sh"
  have find: "tg_find_fake_fd f ?sh = tg_find_fake_fd f sh" by (simp add: tg_find_fake_fd_def)
  obtain r1 k1 where sc: "tg_send_control f TG_CONTROL_STOP_RUMBLE 0 0 0 k = (r1, k1)" by fastforce
  note l = tg_send_control_lookup(1) [OF sc]
  let ?mid = "case tg_find_fake_fd f sh of Some i \<Rightarrow>
      if fk_joydev (fake_fds sh ! i) then (?sh, k) else (tg_clear_effects f ?sh, k1) | None \<Rightarrow> (?sh, k)"
  have out: "(r, sh', k') = (case real_close_fn (tg_del_fake_fd f (fst ?mid)) of
      Some _ \<Rightarrow> (fst (k_close_result f (snd ?mid)), tg_del_fake_fd f (fst ?mid), k_close f (snd ?mid))
    | None \<Rightarrow> (-1, tg_del_fake_fd f (fst ?mid), snd ?mid))"
    using assms by (auto simp: shim_close_def find sc k_close_result_def Let_def split: option.splits if_splits)
  have sh': "sh' = tg_del_fake_fd f (fst ?mid)" using out by (auto split: option.splits)
  have k': "k' = (if real_close_fn ?sh = None then snd ?mid else k_close f (snd ?mid))"
    using out by (auto split: option.splits if_splits)
  show "fake_fds sh' = fake_del f (fake_fds sh)"
    by (simp add: sh' tg_del_fake_fd_table split: option.splits)
  show "effect_slots sh' = closed_slots f sh"
    by (simp add: sh' closed_slots_def tg_clear_effects_def split: option.splits)
  show "g \<noteq> f \<Longrightarrow> k_lookup k' g = k_lookup k g"
    by (simp add: k' l split: option.splits)
  show "k_lookup k' f = None" if "real_close_fn ?sh \<noteq> None"
    using that by (subst k') (simp only: if_False k_close_lookup fun_upd_same)
  show "ff_gain sh' = ff_gain sh" by (simp add: sh' tg_clear_effects_def split: option.splits)
  show "init_done sh'" by (simp add: sh' tg_del_fake_fd_def split: option.splits)
qed

lemma wf_fakes_distinct: "wf_fakes es \<Longrightarrow> distinct (map fk_fd es)"
  by (simp add: wf_fakes_def)

lemma entry_unique:
  assumes "wf_fakes es" "e \<in> set es" "e' \<in> set es" "fk_fd e = fk_fd e'"
  shows "e = e'"
  using assms by (metis distinct_map inj_onD wf_fakes_distinct)

lemma closed_slots_owner:
  assumes inv: "shim_inv sh k" and s: "s \<in> set (closed_slots f sh)" "es_used s"
  shows "es_fd s \<noteq> f \<and> (\<exists>e\<in>set (fake_fds sh). fk_fd e = es_fd s \<and> \<not> fk_joydev e)"
proof -
  have own: "\<exists>e\<in>set (fake_fds sh). fk_fd e = es_fd x \<and> \<not> fk_joydev e"
    if "x \<in> set (effect_slots sh)" "es_used x" for x
    using inv that by (auto simp: shim_inv_def)
  show ?thesis
  proof (cases "tg_find_fake_fd f sh")
    case None
    then have "s \<in> set (effect_slots sh)" using s(1) by (simp add: closed_slots_def)
    then show ?thesis using own s(2) None find_fake_absent by fastforce
  next
    case (Some i)
    note i = find_fake_entry [OF Some]
    show ?thesis
    proof (cases "fk_joydev (fake_fds sh ! i)")
      case True
      then have "s \<in> set (effect_slots sh)" using s(1) Some by (simp add: closed_slots_def)
      then obtain e where "e \<in> set (fake_fds sh)" "fk_fd e = es_fd s" "\<not> fk_joydev e" using own s(2) by blast
      then show ?thesis using True i entry_unique inv by (metis shim_inv_def)
    next
      case False
      then obtain x where "x \<in> set (effect_slots sh)" "s = (if es_used x \<and> es_fd x = f then x\<lparr>es_used := False\<rparr> else x)"
        using s(1) Some by (auto simp: closed_slots_def tg_clear_effects_def)
      then show ?thesis using own s(2) by (auto split: if_splits)
    qed
  qed
qed

lemma shim_close_inv:
  assumes inv: "shim_inv sh k" and cl: "shim_close dl env f sh k = (r, sh', k')"
  shows "shim_inv sh' k'"
proof -
  note e = shim_close_effect [OF cl]
  have w: "wf_fakes (fake_fds sh)" using inv by (simp add: shim_inv_def)
  note d = fake_del_set [OF wf_fakes_distinct [OF w], of f]
  have len: "length (closed_slots f sh) = TG_MAX_EFFECTS"
    using inv by (auto simp: closed_slots_def tg_clear_effects_def shim_inv_def split: option.splits)
  have own: "\<exists>x\<in>set (fake_fds sh'). fk_fd x = es_fd s \<and> \<not> fk_joydev x"
    if "s \<in> set (effect_slots sh')" "es_used s" for s
    using closed_slots_owner [OF inv, of s f] that d by (auto simp: e(1,2))
  have ent: "wf_entry x \<and> k_lookup k' (fk_fd x) \<noteq> None" if "x \<in> set (fake_fds sh')" for x
    using that inv d e(3) [of "fk_fd x"] by (auto simp: e(1) shim_inv_def)
  show ?thesis using own ent len fakes.del_wf [OF w, of f] by (simp add: shim_inv_def e(1,2))
qed

section \<open>Connecting a device\<close>

lemma wf_entry_new:
  "valid_device d \<Longrightarrow> wf_entry \<lparr>fk_fd = f, fk_joydev = j, fk_initializing = i, fk_raw = [], fk_descriptor = d\<rparr>"
  by (simp add: wf_entry_def)

lemma tg_add_inv:
  assumes inv: "shim_inv sh k" and f: "0 \<le> f" "k_lookup k' f \<noteq> None" and d: "valid_device d"
    and keep: "\<And>g. k_lookup k g \<noteq> None \<Longrightarrow> k_lookup k' g \<noteq> None"
  shows "shim_inv (tg_add_fake_fd f joydev (Some d) sh) k'"
proof -
  let ?e = "\<lparr>fk_fd = f, fk_joydev = joydev, fk_initializing = joydev, fk_raw = [], fk_descriptor = d\<rparr>"
  have t: "fake_fds (tg_add_fake_fd f joydev (Some d) sh) = fake_add ?e (fake_fds sh)"
    using tg_add_fake_fd_table [OF f(1)] by simp
  have s: "effect_slots (tg_add_fake_fd f joydev (Some d) sh) = effect_slots sh"
    by (simp add: tg_add_fake_fd_def)
  have w: "wf_fakes (fake_add ?e (fake_fds sh))"
    using fakes.add_wf [of "fake_fds sh" ?e] inv f by (simp add: shim_inv_def)
  have sub: "set (fake_fds sh) \<subseteq> set (fake_add ?e (fake_fds sh))"
    "set (fake_add ?e (fake_fds sh)) \<subseteq> insert ?e (set (fake_fds sh))"
    by (auto simp: fake_add_def)
  have "wf_entry x \<and> k_lookup k' (fk_fd x) \<noteq> None" if "x \<in> set (fake_add ?e (fake_fds sh))" for x
  proof (cases "x = ?e")
    case True
    then show ?thesis using f(2) wf_entry_new [OF d] by simp
  next
    case False
    then show ?thesis using that sub(2) inv keep by (auto simp: shim_inv_def)
  qed
  moreover have "\<exists>x\<in>set (fake_add ?e (fake_fds sh)). fk_fd x = es_fd y \<and> \<not> fk_joydev x"
    if "y \<in> set (effect_slots sh)" "es_used y" for y
    using inv that sub(1) unfolding shim_inv_def by (meson subsetD)
  ultimately show ?thesis using inv w by (simp add: shim_inv_def t s)
qed

lemma recv_waitall_fd:
  assumes "on_sock f [] (recv_waitall n []) k = Inr (buf, k')" "k_lookup k f = Some s"
  shows "\<exists>s'. k_lookup k' f = Some s' \<and> sent s' = sent s \<and> peer s' = peer s \<and> length buf \<le> n \<and>
    (length buf = n \<longrightarrow> pending (rx s) = buf @ pending (rx s'))"
proof -
  obtain s' where "recv_waitall n [] s = Inr (buf, s')" "k' = k\<lparr>fds := fd_update f s' (fds k)\<rparr>"
    using assms by (auto simp: on_sock_def bindr_eq_Inr)
  then show ?thesis using recv_waitall_spec [of n "[]" s buf s'] assms(2) by (auto simp: fdt.update_lookup)
qed

lemma wf_dec_descriptor: "length b = 88 \<Longrightarrow> wf_descriptor (dec_descriptor b)"
  by (rule dev.wf_dec)

lemma k_set_nonblock_content:
  assumes "k_set_nonblock f k = (e, k')" "k_lookup k f = Some s"
  shows "\<exists>s'. k_lookup k' f = Some s' \<and> sent s' = sent s \<and> peer s' = peer s \<and> rx s' = rx s"
  using assms by (auto simp: k_set_nonblock_def fdt.update_lookup split: option.splits)

text \<open>The two outcomes of a connection attempt. A failed one has touched at most one descriptor that was
  not open before.\<close>

lemma tg_connect_device_cases:
  assumes ini: "init_done sh" and inv: "shim_inv sh k"
    and op: "tg_connect_device dl env flags joydev sh k = Inr (r, sh', k')"
  shows "(r = -1 \<and> (sh' = sh \<or> sh' = sh\<lparr>errno_set := Some ENODEV\<rparr>) \<and>
      (\<forall>g. k_lookup k g \<noteq> None \<longrightarrow> k_lookup k' g = k_lookup k g) \<and>
      (real_close_fn sh \<noteq> None \<longrightarrow> k_lookup k' = k_lookup k)) \<or>
    (\<exists>s0 s b. 0 \<le> r \<and> k_lookup k r = None \<and> dial k (dialled k) = Connects s0 \<and>
      (\<forall>g. g \<noteq> r \<longrightarrow> k_lookup k' g = k_lookup k g) \<and> k_lookup k' r = Some s \<and>
      peer s = cstr (default_path env None) \<and>
      sent s = enc_control (control_message TG_CONTROL_QUERY_DESCRIPTOR 0 0 0) \<and>
      pending (rx s0) = b @ pending (rx s) \<and> length b = 88 \<and> valid_device (dec_descriptor b) \<and> cloexec s \<and>
      sh' = tg_add_fake_fd r joydev (Some (dec_descriptor b)) sh)"
proof -
  let ?path = "default_path env None"
  have absent: "f \<notin> fk_fd ` set (fake_fds sh)" if "k_lookup k f = None" for f
    using inv that by (auto simp: shim_inv_def)
  show ?thesis
  proof (cases "108 \<le> tg_strlen (Some ?path)")
    case True
    then show ?thesis using op by (auto simp: tg_connect_device_def)
  next
    case short: False
    then have len: "length (cstr ?path) < 108" by (simp add: tg_strlen_def strlen_from_cstr)
    then have path: "cstr (tg_copy (replicate 108 0) (Some ?path) 108) = cstr ?path" by (simp add: tg_copy_cstr)
    obtain r1 k1 where so: "k_socket k = (r1, k1)" by fastforce
    show ?thesis
    proof (cases r1)
      case (Inl e)
      then show ?thesis using op short k_socket_Inl [of k e k1] so by (auto simp: tg_connect_device_def)
    next
      case (Inr f)
      note sk = k_socket_Inr [OF so [unfolded Inr]]
      have d1: "dial k1 = dial k" "dialled k1 = dialled k"
        using so Inr by (auto simp: k_socket_def Let_def split: attempt.splits prod.splits)
      have fail: "(\<forall>g. k_lookup k g \<noteq> None \<longrightarrow> k_lookup k5 g = k_lookup k g) \<and> sh5 = sh \<and>
          (real_close_fn sh \<noteq> None \<longrightarrow> k_lookup k5 = k_lookup k)"
        if "shim_close dl env f sh k4 = (x, sh5, k5)" "\<And>g. g \<noteq> f \<Longrightarrow> k_lookup k4 g = k_lookup k g" for k4 k5 sh5 x
        using shim_close_absent [OF ini absent [OF sk(2)] that(1)] that(2) sk(2)
        by (auto simp: fun_eq_iff) (metis option.distinct(1))
      obtain e k2 where co: "k_connect f (cstr ?path) k1 = (e, k2)" by fastforce
      show ?thesis
      proof (cases e)
        case (Some err)
        obtain x sh5 k5 where cl: "shim_close dl env f sh k2 = (x, sh5, k5)" by (metis prod_cases3)
        have "k_lookup k2 g = k_lookup k g" if "g \<noteq> f" for g
          using co Some sk(3) that by (auto simp: k_connect_def Let_def split: attempt.splits)
        from fail [OF cl this] show ?thesis using op short so Inr co path Some cl
          by (auto simp: tg_connect_device_def)
      next
        case None
        obtain s0 where s0: "dial k (dialled k) = Connects s0"
          and s1: "k_lookup k2 f = Some (s0\<lparr>peer := cstr ?path, sent := [], nonblock := False, cloexec := True\<rparr>)"
          and o1: "\<And>g. g \<noteq> f \<Longrightarrow> k_lookup k2 g = k_lookup k g"
          using co None d1 sk(3)
          by (auto simp: k_connect_def Let_def fdt.update_lookup split: attempt.splits)
        obtain sr k3 where sc: "tg_send_control f TG_CONTROL_QUERY_DESCRIPTOR 0 0 0 k2 = (sr, k3)" by fastforce
        have o2: "\<And>g. g \<noteq> f \<Longrightarrow> k_lookup k3 g = k_lookup k g" using tg_send_control_lookup(1) [OF sc] o1 by simp
        obtain s2 n where s2: "k_lookup k3 f = Some s2" "rx s2 = rx s0" "peer s2 = cstr ?path"
          "sent s2 = take n (enc_control (control_message TG_CONTROL_QUERY_DESCRIPTOR 0 0 0))" "(sr = 0) = (n = 16)"
          using tg_send_control_spec [OF sc s1] by auto
        obtain buf k4 where rc: "(if sr = 0 then on_sock f [] (recv_waitall 88 []) k3 else Inr ([], k3)) = Inr (buf, k4)"
          and rest: "(let descriptor = dec_descriptor buf in
             if length buf \<noteq> 88 \<or> dd_magic descriptor \<noteq> TG_DEVICE_MAGIC \<or>
                dd_version descriptor \<noteq> TG_CONTROL_VERSION \<or> dd_present descriptor = 0
             then (let (_, sh5, k5) = shim_close dl env f sh k4
                   in Inr (-1, sh5\<lparr>errno_set := Some ENODEV\<rparr>, k5))
             else (let k5 = (if flags AND TG_O_NONBLOCK \<noteq> 0 then snd (k_set_nonblock f k4) else k4);
                       k6 = k_set_cloexec f k5
                   in Inr (f, tg_add_fake_fd f joydev (Some descriptor) sh, k6))) = (Inr (r, sh', k') :: fault + _)"
          using op short so Inr co path None sc
          by (auto simp: tg_connect_device_def bindr_eq_Inr)
        have o3: "\<And>g. g \<noteq> f \<Longrightarrow> k_lookup k4 g = k_lookup k g"
          using rc o2 on_sock_lookup(1) [of f "[]" "recv_waitall 88 []" k3 buf k4] by (auto split: if_splits)
        show ?thesis
        proof (cases "length buf \<noteq> 88 \<or> dd_magic (dec_descriptor buf) \<noteq> TG_DEVICE_MAGIC \<or>
                dd_version (dec_descriptor buf) \<noteq> TG_CONTROL_VERSION \<or> dd_present (dec_descriptor buf) = 0")
          case True
          obtain x sh5 k5 where cl: "shim_close dl env f sh k4 = (x, sh5, k5)" by (metis prod_cases3)
          from fail [OF cl o3] show ?thesis using rest True cl by (auto simp: Let_def)
        next
          case False
          then have "sr = 0" using rc by (cases "sr = 0") auto
          then have rc': "on_sock f [] (recv_waitall 88 []) k3 = Inr (buf, k4)" using rc by simp
          obtain e5 k5 where nb: "k_set_nonblock f k4 = (e5, k5)" by fastforce
          let ?k5 = "if flags AND TG_O_NONBLOCK \<noteq> 0 then k5 else k4"
          obtain s3 where s3: "k_lookup k4 f = Some s3" "sent s3 = sent s2" "peer s3 = peer s2"
            "pending (rx s0) = buf @ pending (rx s3)"
            using recv_waitall_fd [OF rc' s2(1)] False s2(2) by auto
          obtain s4 where s4: "k_lookup ?k5 f = Some s4" "sent s4 = sent s3" "peer s4 = peer s3" "rx s4 = rx s3"
            using s3(1) k_set_nonblock_content [OF nb s3(1)] by (cases "flags AND TG_O_NONBLOCK = 0") auto
          have o4: "k_lookup ?k5 g = k_lookup k g" if "g \<noteq> f" for g
            using o3 [OF that] k_set_nonblock_lookup(1) [OF nb that] by simp
          have fin: "r = f" "sh' = tg_add_fake_fd f joydev (Some (dec_descriptor buf)) sh" "k' = k_set_cloexec f ?k5"
            using rest False nb by (auto simp: Let_def)
          have "k_lookup k' f = Some (s4\<lparr>cloexec := True\<rparr>)"
            using s4(1) unfolding fin(3) by (simp add: k_set_cloexec_def fdt.update_lookup)
          moreover have "\<forall>g. g \<noteq> f \<longrightarrow> k_lookup k' g = k_lookup k g"
            unfolding fin(3) using o4 k_set_cloexec_lookup(1) by metis
          moreover have "valid_device (dec_descriptor buf)"
            using False wf_dec_descriptor by (simp add: valid_device_def)
          moreover have "sent s4 = enc_control (control_message TG_CONTROL_QUERY_DESCRIPTOR 0 0 0)"
            using s2(4,5) s3(2) s4(2) \<open>sr = 0\<close> ctl.length_enc by simp
          ultimately show ?thesis
            using fin sk s0 s2 s3 s4 False by (intro disjI2 exI [of _ s0] exI [of _ "s4\<lparr>cloexec := True\<rparr>"] exI [of _ buf]) simp
        qed
      qed
    qed
  qed
qed

lemma tg_connect_device_inv:
  assumes ini: "init_done sh" and inv: "shim_inv sh k"
    and op: "tg_connect_device dl env flags joydev sh k = Inr (r, sh', k')"
  shows "shim_inv sh' k' \<and> (\<forall>g. k_lookup k g \<noteq> None \<longrightarrow> k_lookup k' g = k_lookup k g)"
proof -
  consider (fail) "sh' = sh \<or> sh' = sh\<lparr>errno_set := Some ENODEV\<rparr>"
      "\<forall>g. k_lookup k g \<noteq> None \<longrightarrow> k_lookup k' g = k_lookup k g"
    | (ok) s b where "0 \<le> r" "k_lookup k r = None" "\<forall>g. g \<noteq> r \<longrightarrow> k_lookup k' g = k_lookup k g"
      "k_lookup k' r = Some s" "valid_device (dec_descriptor b)"
      "sh' = tg_add_fake_fd r joydev (Some (dec_descriptor b)) sh"
    using tg_connect_device_cases [OF ini inv op] by blast
  then show ?thesis
  proof cases
    case fail
    then show ?thesis using shim_inv_kernel [OF inv, of k'] by (metis shim_inv_errno)
  next
    case ok
    have "\<forall>g. k_lookup k g \<noteq> None \<longrightarrow> k_lookup k' g = k_lookup k g" using ok(2,3) by metis
    then show ?thesis using tg_add_inv [OF inv ok(1) _ ok(5), of k' joydev] ok(4,6) by simp
  qed
qed

section \<open>Effects\<close>

lemma first_unused_spec: "first_unused ss < length ss \<Longrightarrow> \<not> es_used (ss ! first_unused ss)"
  by (induction ss) auto

lemma first_unused_full: "length ss \<le> first_unused ss \<longleftrightarrow> (\<forall>s\<in>set ss. es_used s)"
  by (induction ss) auto

lemma effect_target_bounds:
  assumes "effect_target f e sh = Some i" "length (effect_slots sh) = TG_MAX_EFFECTS"
  shows "i < TG_MAX_EFFECTS" "\<not> es_used (effect_slots sh ! i) \<or> es_fd (effect_slots sh ! i) = f"
  using assms first_unused_spec [of "effect_slots sh"]
  by (auto simp: effect_target_def Let_def split: if_splits)

lemma slots_update_inv:
  assumes inv: "shim_inv sh k" and i: "i < TG_MAX_EFFECTS"
    and own: "es_used s \<longrightarrow> (\<exists>e\<in>set (fake_fds sh). fk_fd e = es_fd s \<and> \<not> fk_joydev e)"
  shows "shim_inv (sh\<lparr>effect_slots := (effect_slots sh)[i := s]\<rparr>) k"
  using inv own set_update_subset_insert [of "effect_slots sh" i s] by (auto simp: shim_inv_def)

lemma tg_find_effect_spec:
  assumes "0 \<le> tg_find_effect f ident sh"
  shows "tg_find_effect f ident sh = ident" "0 \<le> ident" "ident < 16"
    "es_used (effect_slots sh ! nat ident)" "es_fd (effect_slots sh ! nat ident) = f"
  using assms by (auto simp: tg_find_effect_def Let_def split: if_splits)

lemma fake_ioctl_effect:
  assumes inv: "shim_inv sh k" and e: "e \<in> set (fake_fds sh)" and op: "fake_ioctl e req arg mem sh = (r, mem', sh')"
  shows "shim_inv sh' k \<and> fake_fds sh' = fake_fds sh"
proof -
  have len: "length (effect_slots sh) = TG_MAX_EFFECTS" using inv by (simp add: shim_inv_def)
  show ?thesis
  proof (cases "fk_joydev e")
    case True
    then show ?thesis using op inv by (auto simp: fake_ioctl_def Let_def split: prod.splits)
  next
    case False
    have up: "shim_inv sh2 k \<and> fake_fds sh2 = fake_fds sh"
      if "tg_upload_effect (fk_fd e) ef sh = (x, ef', sh2)" for ef x ef' sh2
    proof (cases "effect_target (fk_fd e) ef sh")
      case None
      then show ?thesis using that inv by (simp add: tg_upload_effect_def)
    next
      case (Some i)
      obtain lo hi where st: "effect_strength ef = (lo, hi)" by fastforce
      let ?new = "\<lparr>es_used = True, es_fd = fk_fd e, es_low_frequency = lo, es_high_frequency = hi,
          es_duration_ms = ff_replay_length ef\<rparr>"
      have "sh2 = sh\<lparr>effect_slots := (effect_slots sh)[i := \<lparr>es_used = True, es_fd = fk_fd e,
          es_low_frequency = lo, es_high_frequency = hi, es_duration_ms = ff_replay_length ef\<rparr>]\<rparr>"
        using that Some st by (simp add: tg_upload_effect_def)
      moreover have "es_used ?new \<longrightarrow> (\<exists>x\<in>set (fake_fds sh). fk_fd x = es_fd ?new \<and> \<not> fk_joydev x)"
        using e False by auto
      ultimately show ?thesis using slots_update_inv [OF inv effect_target_bounds(1) [OF Some len], of ?new] by simp
    qed
    have rm: "shim_inv sh2 k \<and> fake_fds sh2 = fake_fds sh"
      if "tg_remove_effect (fk_fd e) ident sh = (x, sh2)" for ident x sh2
    proof (cases "tg_find_effect (fk_fd e) ident sh < 0")
      case True
      then show ?thesis using that inv by (simp add: tg_remove_effect_def Let_def)
    next
      case False
      then show ?thesis using that tg_find_effect_spec [of "fk_fd e" ident sh]
          slots_update_inv [OF inv, of "nat ident" "(effect_slots sh ! nat ident)\<lparr>es_used := False\<rparr>"]
        by (auto simp: tg_remove_effect_def Let_def)
    qed
    show ?thesis using op False inv up rm
      by (auto simp: fake_ioctl_def Let_def split: prod.splits if_splits)
  qed
qed

section \<open>Reading joystick events\<close>

text \<open>What one event is converted to; \<open>ini\<close> says whether the device is still reporting its initial
  state.\<close>

definition joy_event :: "bool \<Rightarrow> tg_input_event \<Rightarrow> tg_js_event list" where
  "joy_event ini ev =
     (let flag = (\<lambda>t. if ini then t OR TG_JS_EVENT_INIT else t :: u8);
          axis = tg_joy_axis_number (ie_code ev); button = tg_joy_button_number (ie_code ev) in
      if ie_type ev = TG_EV_ABS \<and> 0 \<le> axis then
        [\<lparr>js_time = joy_time ev, js_value = tg_joy_axis_value (ie_code ev) (ie_value ev),
          js_type = flag TG_JS_EVENT_AXIS, js_number = word_of_int axis\<rparr>]
      else if ie_type ev = TG_EV_KEY \<and> 0 \<le> button then
        [\<lparr>js_time = joy_time ev, js_value = (if ie_value ev \<noteq> 0 then 1 else 0),
          js_type = flag TG_JS_EVENT_BUTTON, js_number = word_of_int button\<rparr>]
      else [])"

text \<open>A stream of events: the initial state lasts until the first report.\<close>

fun joy_events :: "bool \<Rightarrow> tg_input_event list \<Rightarrow> tg_js_event list" where
  "joy_events ini [] = []"
| "joy_events ini (e # es) = joy_event ini e @ joy_events (ini \<and> \<not> is_report e) es"

lemma convert_is_joy_event:
  assumes "tg_convert_joy_event fake ev = (emit, fake', output)"
  shows "(if emit then [output] else []) = joy_event (fk_initializing fake) ev"
    "fake' = fake\<lparr>fk_initializing := fk_initializing fake \<and> \<not> is_report ev\<rparr>"
  using assms
  by (auto simp: tg_convert_joy_event_def joy_event_def is_report_def Let_def split: if_splits)

text \<open>All the data a socket will still deliver.\<close>

fun rx_bytes :: "recv_ans list \<Rightarrow> bytes" where
  "rx_bytes [] = []"
| "rx_bytes (RecvErr e # r) = rx_bytes r"
| "rx_bytes (Data bs # r) = bs @ rx_bytes r"

lemma sock_read_bytes:
  assumes "sock_read n s = Inr ((got, bs), s')"
  shows "rx_bytes (rx s) = bs @ rx_bytes (rx s')" "length bs \<le> n" "got \<le> 0 \<Longrightarrow> bs = []" "0 < got \<Longrightarrow> bs \<noteq> []"
    "sent s' = sent s" "peer s' = peer s"
  using assms
  by (auto simp: sock_read_def sock_recv_def split: option.splits recv_ans.splits prod.splits if_splits list.splits)

lemma fill_raw_spec:
  assumes "fill_raw avail fake s = Inr (stop, fake', s')" "length (fk_raw fake) \<le> 24"
  shows "fk_raw fake @ rx_bytes (rx s) = fk_raw fake' @ rx_bytes (rx s') \<and> sent s' = sent s \<and>
    (\<exists>raw. fake' = fake\<lparr>fk_raw := raw\<rparr>) \<and>
    (case stop of None \<Rightarrow> length (fk_raw fake') = 24 | Some got \<Rightarrow> got \<le> 0 \<and> length (fk_raw fake') < 24)"
  using assms
proof (induction avail fake s rule: fill_raw.induct)
  case (1 avail fake s)
  show ?case
  proof (cases "24 \<le> length (fk_raw fake) \<or> \<not> avail")
    case True
    then show ?thesis using "1.prems" by (subst (asm) fill_raw.simps) (auto split: if_split_asm intro: exI [of _ "fk_raw fake"])
  next
    case False
    then obtain got bs s1 where r: "sock_read (24 - length (fk_raw fake)) s = Inr ((got, bs), s1)"
      using "1.prems"(1) by (subst (asm) fill_raw.simps) (auto split: sum.splits)
    note b = sock_read_bytes [OF r]
    show ?thesis
    proof (cases "got \<le> 0")
      case True
      then show ?thesis using "1.prems" False r b
        by (subst (asm) fill_raw.simps) (auto intro: exI [of _ "fk_raw fake"])
    next
      case pos: False
      have rec: "fill_raw avail (fake\<lparr>fk_raw := fk_raw fake @ bs\<rparr>) s1 = Inr (stop, fake', s')"
        using "1.prems"(1) False r pos by (subst (asm) fill_raw.simps) simp
      have "length (fk_raw fake) < 24" using False by simp
      then have len: "length (fk_raw (fake\<lparr>fk_raw := fk_raw fake @ bs\<rparr>)) \<le> 24" using b(2) by simp
      show ?thesis using "1.IH" [OF _ _ r refl refl pos rec len] False b by auto
    qed
  qed
qed

text \<open>The loop loses nothing and invents nothing: the bytes it has consumed are the images of the events
  \<open>evs\<close>, and what it stored is their conversion.\<close>

lemma joy_loop_spec:
  assumes "joy_loop avail capacity produced fake s = Inr ((got, events), fake', s')" "length (fk_raw fake) < 24"
  shows "\<exists>evs. fk_raw fake @ rx_bytes (rx s) = concat (map enc_event evs) @ fk_raw fake' @ rx_bytes (rx s') \<and>
    events = produced @ joy_events (fk_initializing fake) evs \<and>
    (\<exists>raw. length raw < 24 \<and> fake' = fake\<lparr>fk_raw := raw,
        fk_initializing := fk_initializing fake \<and> \<not> (\<exists>e\<in>set evs. is_report e)\<rparr>) \<and>
    sent s' = sent s \<and> length events \<le> max capacity (length produced) \<and>
    (if events \<noteq> [] then got = int (8 * length events) else got \<le> 0)"
  using assms
proof (induction avail capacity produced fake s rule: joy_loop.induct)
  case (1 avail capacity produced fake s)
  show ?case
  proof (cases "capacity \<le> length produced")
    case True
    then show ?thesis using "1.prems"
      by (subst (asm) joy_loop.simps) (auto intro!: exI [of _ "[]"] exI [of _ "fk_raw fake"])
  next
    case False
    then obtain stop fake1 s1 where fr: "fill_raw avail fake s = Inr (stop, fake1, s1)"
      using "1.prems"(1) by (subst (asm) joy_loop.simps) (auto split: sum.splits)
    note f = fill_raw_spec [OF fr less_imp_le [OF "1.prems"(2)]]
    show ?thesis
    proof (cases stop)
      case (Some g)
      then have "joy_loop avail capacity produced fake s =
          Inr ((if produced \<noteq> [] then int (8 * length produced) else g, produced), fake1, s1)"
        using False fr by (subst joy_loop.simps) simp
      then have "got = (if produced \<noteq> [] then int (8 * length produced) else g)" "events = produced"
        "fake' = fake1" "s' = s1"
        using "1.prems"(1) by simp_all
      then show ?thesis using False f Some
        by (auto split: if_splits intro!: exI [of _ "[]"] exI [of _ "fk_raw fake1"])
    next
      case None
      let ?ev = "dec_event (fk_raw fake1)"
      obtain emit fake2 outp where cv: "tg_convert_joy_event (fake1\<lparr>fk_raw := []\<rparr>) ?ev = (emit, fake2, outp)"
        by (metis prod_cases3)
      note c = convert_is_joy_event [OF cv]
      let ?p = "if emit then produced @ [outp] else produced"
      have rec: "joy_loop avail capacity ?p fake2 s1 = Inr ((got, events), fake', s')"
        using "1.prems"(1) False fr None cv by (subst (asm) joy_loop.simps) simp
      have ini: "fk_initializing fake1 = fk_initializing fake" using f by auto
      have raw: "length (fk_raw fake2) < 24" "fk_raw fake2 = []" using c(2) by simp_all
      obtain evs where evs: "fk_raw fake2 @ rx_bytes (rx s1) = concat (map enc_event evs) @ fk_raw fake' @ rx_bytes (rx s')"
        "events = ?p @ joy_events (fk_initializing fake2) evs"
        "\<exists>raw. length raw < 24 \<and> fake' = fake2\<lparr>fk_raw := raw,
           fk_initializing := fk_initializing fake2 \<and> \<not> (\<exists>e\<in>set evs. is_report e)\<rparr>"
        "sent s' = sent s1" "length events \<le> max capacity (length ?p)"
        "if events \<noteq> [] then got = int (8 * length events) else got \<le> 0"
        using "1.IH" [OF False fr refl None refl cv [symmetric] refl rec raw(1)] by blast
      have img: "enc_event ?ev = fk_raw fake1" using f None by (intro evt.enc_dec) simp
      have p: "?p = produced @ joy_event (fk_initializing fake) ?ev" using c(1) ini by (auto split: if_splits)
      obtain raw' where raw': "length raw' < 24" "fake' = fake2\<lparr>fk_raw := raw',
           fk_initializing := fk_initializing fake2 \<and> \<not> (\<exists>e\<in>set evs. is_report e)\<rparr>" using evs(3) by blast
      obtain raw1 where raw1: "fake1 = fake\<lparr>fk_raw := raw1\<rparr>" using f by blast
      show ?thesis
      proof (intro exI [of _ "?ev # evs"] conjI)
        show "fk_raw fake @ rx_bytes (rx s) = concat (map enc_event (?ev # evs)) @ fk_raw fake' @ rx_bytes (rx s')"
          using f evs(1) raw(2) img by simp
        show "events = produced @ joy_events (fk_initializing fake) (?ev # evs)"
          using evs(2) p c(2) ini by simp
        show "\<exists>raw. length raw < 24 \<and> fake' = fake\<lparr>fk_raw := raw, fk_initializing := fk_initializing fake \<and>
            \<not> (\<exists>e\<in>set (?ev # evs). is_report e)\<rparr>"
          using raw' c(2) raw1 by (intro exI [of _ raw']) auto
        show "sent s' = sent s" using evs(4) f by simp
        show "length events \<le> max capacity (length produced)" using evs(5) False by (auto simp: max_def split: if_splits)
      qed (use evs(6) in simp)
    qed
  qed
qed

end
