(* ===== verification/ShimSystem.thy ===== *)
theory ShimSystem
  imports ShimInvariant
begin

text \<open>
  The shim as a transition system (\<open>shim_step\<close>: one intercepted call, or the world moving), the
  proof that every call keeps the invariant, and the interpretation as a \<open>transition_system\<close>.
\<close>

section \<open>Calls as steps\<close>

text \<open>The documented behaviour the shim relies on: opening files, \<open>ioctl\<close> and \<open>stat\<close> close no
  descriptor.\<close>

definition libc_ok :: "libc \<Rightarrow> bool" where
  "libc_ok lc \<longleftrightarrow>
     (\<forall>s p fl m k f. k_lookup k f \<noteq> None \<longrightarrow> k_lookup (snd (lc_open lc s p fl m k)) f \<noteq> None) \<and>
     (\<forall>s d p fl m k f. k_lookup k f \<noteq> None \<longrightarrow> k_lookup (snd (lc_openat lc s d p fl m k)) f \<noteq> None) \<and>
     (\<forall>g r a m k f. k_lookup k f \<noteq> None \<longrightarrow> k_lookup (snd (snd (lc_ioctl lc g r a m k))) f \<noteq> None)"

text \<open>The C library, loader and environment may be different at every call.\<close>

inductive shim_step :: "shim \<times> kernel \<Rightarrow> shim \<times> kernel \<Rightarrow> bool" where
  step_open: "libc_ok lc \<Longrightarrow> shim_open lc dl env path flags mode sh k = Inr (r, sh', k') \<Longrightarrow> shim_step (sh, k) (sh', k')"
| step_open64: "libc_ok lc \<Longrightarrow> shim_open64 lc dl env path flags mode sh k = Inr (r, sh', k') \<Longrightarrow> shim_step (sh, k) (sh', k')"
| step___open_2: "libc_ok lc \<Longrightarrow> shim___open_2 lc dl env path flags mode sh k = Inr (r, sh', k') \<Longrightarrow> shim_step (sh, k) (sh', k')"
| step_openat: "libc_ok lc \<Longrightarrow> shim_openat lc dl env dirfd path flags mode sh k = Inr (r, sh', k') \<Longrightarrow> shim_step (sh, k) (sh', k')"
| step___openat_2: "libc_ok lc \<Longrightarrow> shim___openat_2 lc dl env dirfd path flags mode sh k = Inr (r, sh', k') \<Longrightarrow> shim_step (sh, k) (sh', k')"
| step_ioctl: "libc_ok lc \<Longrightarrow> shim_ioctl lc dl env f req arg mem sh k = (r, mem', sh', k') \<Longrightarrow> shim_step (sh, k) (sh', k')"
| step_read: "shim_read dl env f buffer n sh k = Inr (r, sh', k') \<Longrightarrow> shim_step (sh, k) (sh', k')"
| step_write: "shim_write dl env f data n sh k = (r, sh', k') \<Longrightarrow> shim_step (sh, k) (sh', k')"
| step_stat: "shim_stat lc dl env path out sh = (r, sh') \<Longrightarrow> shim_step (sh, k) (sh', k)"
| step_stat64: "shim_stat64 lc dl env path out sh = (r, sh') \<Longrightarrow> shim_step (sh, k) (sh', k)"
| step_close: "shim_close dl env f sh k = (r, sh', k') \<Longrightarrow> shim_step (sh, k) (sh', k')"
| step_world: "(\<And>f. k_lookup k f \<noteq> None \<Longrightarrow> k_lookup k' f \<noteq> None) \<Longrightarrow> shim_step (sh, k) (sh, k')"

inductive_cases shim_stepE: "shim_step (sh, k) (sh', k')"

lemma call_open_inv:
  assumes "libc_ok lc" "shim_inv sh k" "call_open lc s path flags mode sh k = Inr (r, sh', k')"
  shows "shim_inv sh' k'"
proof -
  have "sh' = sh" "k' = snd (lc_open lc s path flags mode k)"
    using assms(3) by (auto simp: call_open_def split: prod.splits)
  then show ?thesis using shim_inv_kernel [OF assms(2)] assms(1) by (auto simp: libc_ok_def)
qed

lemma k_write_open: "k_lookup (snd (k_write f bs k)) g = None \<longleftrightarrow> k_lookup k g = None"
proof -
  obtain a k1 where s: "k_send f bs k = (a, k1)" by fastforce
  then show ?thesis using k_send_lookup(2) [OF s] by (cases a) (simp_all add: k_write_def)
qed

lemma debug_open: "k_lookup (tg_debug_open_path env path sh k) g = None \<longleftrightarrow> k_lookup k g = None"
  by (simp add: tg_debug_open_path_def Let_def k_write_open split: option.splits)

lemma debug_inv: "shim_inv sh k \<Longrightarrow> shim_inv sh (tg_debug_open_path env path sh k)"
  by (rule shim_inv_kernel) (simp_all add: debug_open)

lemma tg_open_common_inv:
  assumes "libc_ok lc" "shim_inv sh k" "tg_open_common lc dl env path flags mode fb sh k = Inr (r, sh', k')"
  shows "shim_inv sh' k'"
proof -
  let ?sh = "tg_init dl env sh" and ?k = "tg_debug_open_path env path (tg_init dl env sh) k"
  have i1: "shim_inv ?sh k" using assms(2) by simp
  note i = i1 debug_inv [OF i1, of env path]
  show ?thesis
    using assms(3) call_open_inv [OF assms(1) i(1)] call_open_inv [OF assms(1) i(2)] i
      tg_connect_device_inv [OF tg_init_simps(5) i(2), of dl env flags _ r sh' k']
    by (auto simp: tg_open_common_def Let_def split: if_splits option.splits)
qed

lemma openat_inv:
  assumes "libc_ok lc" "shim_inv sh k" "(let (r, k') = lc_openat lc s d path flags m k in Inr (r, sh, k')) = (Inr (r, sh', k') :: fault + _)"
  shows "shim_inv sh' k'"
proof -
  have "sh' = sh" "k' = snd (lc_openat lc s d path flags m k)" using assms(3) by (auto split: prod.splits)
  then show ?thesis using shim_inv_kernel [OF assms(2)] assms(1) by (auto simp: libc_ok_def)
qed

lemma shim_openat_inv:
  assumes "libc_ok lc" "shim_inv sh k"
  shows "shim_openat lc dl env d path flags mode sh k = Inr (r, sh', k') \<Longrightarrow> shim_inv sh' k'"
    and "shim___openat_2 lc dl env d path flags mode sh k = Inr (r, sh', k') \<Longrightarrow> shim_inv sh' k'"
proof -
  let ?sh = "tg_init dl env sh"
  have i: "shim_inv ?sh k" using assms(2) by simp
  note at = openat_inv [OF assms(1) i] and con = tg_connect_device_inv [OF tg_init_simps(5) i]
  show "shim_openat lc dl env d path flags mode sh k = Inr (r, sh', k') \<Longrightarrow> shim_inv sh' k'"
    unfolding shim_openat_def Let_def [of ?sh]
    using at con i by (auto split: option.splits)
  show "shim___openat_2 lc dl env d path flags mode sh k = Inr (r, sh', k') \<Longrightarrow> shim_inv sh' k'"
    unfolding shim___openat_2_def Let_def [of ?sh]
    using at con i by (auto split: option.splits)
qed

lemma shim_ioctl_inv:
  assumes "libc_ok lc" "shim_inv sh k" "shim_ioctl lc dl env f req arg mem sh k = (r, mem', sh', k')"
  shows "shim_inv sh' k'"
proof -
  let ?sh = "tg_init dl env sh"
  have i: "shim_inv ?sh k" using assms(2) by simp
  show ?thesis
  proof (cases "tg_find_fake_fd f ?sh")
    case None
    obtain r1 m1 k1 where l: "lc_ioctl lc f req arg mem k = (r1, m1, k1)" by (metis prod_cases3)
    have "shim_inv ?sh k1"
      using shim_inv_kernel [OF i, of k1] assms(1) l unfolding libc_ok_def by (metis snd_conv)
    then show ?thesis using assms(3) None i l by (auto simp: shim_ioctl_def Let_def split: option.splits)
  next
    case (Some j)
    note e = find_fake_entry(3) [OF Some]
    obtain r1 m1 sh1 where l: "fake_ioctl (fake_fds ?sh ! j) req arg mem ?sh = (r1, m1, sh1)" by (metis prod_cases3)
    then show ?thesis using assms(3) Some fake_ioctl_effect [OF i e l] by (simp add: shim_ioctl_def Let_def)
  qed
qed

section \<open>Reading\<close>

lemma k_read_open:
  assumes "k_read f buffer n k = Inr (x, k')"
  shows "k_lookup k' g = None \<longleftrightarrow> k_lookup k g = None" "g \<noteq> f \<Longrightarrow> k_lookup k' g = k_lookup k g"
  using assms on_sock_lookup [of f "(-1, [])" "sock_read n" k x k'] by (auto simp: k_read_def split: if_splits)

lemma update_entry_inv:
  assumes inv: "shim_inv sh k" and j: "j < length (fake_fds sh)"
    and e: "fk_fd e = fk_fd (fake_fds sh ! j)" "fk_joydev e = fk_joydev (fake_fds sh ! j)"
      "fk_descriptor e = fk_descriptor (fake_fds sh ! j)" "length (fk_raw e) < 24"
    and k: "\<And>g. k_lookup k g \<noteq> None \<Longrightarrow> k_lookup k' g \<noteq> None"
  shows "shim_inv (sh\<lparr>fake_fds := (fake_fds sh)[j := e]\<rparr>) k'"
proof -
  let ?es = "(fake_fds sh)[j := e]"
  have fdmap: "map fk_fd ?es = map fk_fd (fake_fds sh)"
    using j by (intro nth_equalityI) (auto simp: nth_list_update e(1))
  have sub: "x \<in> set ?es \<Longrightarrow> x = e \<or> x \<in> set (fake_fds sh)" for x
    using set_update_subset_insert [of "fake_fds sh" j e] by auto
  have old: "wf_entry (fake_fds sh ! j)" "k_lookup k (fk_fd (fake_fds sh ! j)) \<noteq> None" "0 \<le> fk_fd (fake_fds sh ! j)"
    using inv j by (auto simp: shim_inv_def wf_fakes_def)
  have ent: "wf_entry x \<and> k_lookup k' (fk_fd x) \<noteq> None \<and> 0 \<le> fk_fd x" if "x \<in> set ?es" for x
    using sub [OF that] inv old e k by (auto simp: shim_inv_def wf_entry_def wf_fakes_def)
  have own: "\<exists>x\<in>set ?es. fk_fd x = fk_fd y \<and> \<not> fk_joydev x" if y: "y \<in> set (fake_fds sh)" "\<not> fk_joydev y" for y
  proof -
    obtain i where i: "i < length (fake_fds sh)" "y = fake_fds sh ! i" using y(1) by (metis in_set_conv_nth)
    show ?thesis
    proof (cases "i = j")
      case True
      then show ?thesis using e y(2) i j by (intro bexI [of _ e]) (auto simp: set_update_memI)
    next
      case False
      then have "?es ! i = y" using i by simp
      then show ?thesis using i y(2) by (metis length_list_update nth_mem)
    qed
  qed
  have w: "wf_fakes ?es" using inv fdmap ent by (simp add: shim_inv_def wf_fakes_def)
  show ?thesis using inv w ent own by (simp add: shim_inv_def) metis
qed

lemma shim_read_inv:
  assumes inv: "shim_inv sh k" and op: "shim_read dl env f buffer n sh k = Inr (r, sh', k')"
  shows "shim_inv sh' k'"
proof -
  let ?sh = "tg_init dl env sh"
  let ?real = "if real_read_fn ?sh \<noteq> None then k_read f buffer n k else Inr ((-1, []), k)"
  have i: "shim_inv ?sh k" using inv by simp
  have real: "shim_inv ?sh k1" if "?real = Inr (x, k1)" for x k1
  proof (rule shim_inv_kernel [OF i])
    show "k_lookup k g \<noteq> None \<Longrightarrow> k_lookup k1 g \<noteq> None" for g
      using that k_read_open(1) [of f buffer n k x k1 g] by (auto split: if_splits)
  qed
  show ?thesis
  proof (cases "tg_find_fake_fd f ?sh")
    case None
    then show ?thesis using op real by (auto simp: shim_read_def Let_def bindr_eq_Inr)
  next
    case (Some j)
    note e = find_fake_entry [OF Some]
    let ?e = "fake_fds ?sh ! j"
    show ?thesis
    proof (cases "fk_joydev ?e \<and> buffer \<and> \<not> n < 8")
      case False
      then show ?thesis using op Some real i
        by (auto simp: shim_read_def Let_def bindr_eq_Inr split_beta split: if_split_asm)
    next
      case True
      obtain got evs e1 where os: "on_sock f ((-1, []), ?e) (\<lambda>s. map_sum id (\<lambda>(r, fake', s'). ((r, fake'), s'))
          (joy_loop (real_read_fn ?sh \<noteq> None) (n div 8) [] ?e s)) k = Inr (((got, evs), e1), k')"
        and sh': "sh' = ?sh\<lparr>fake_fds := (fake_fds ?sh)[j := e1]\<rparr>"
        using op Some True by (auto simp: shim_read_def Let_def bindr_eq_Inr split_beta)
      have raw: "length (fk_raw ?e) < 24" using i e(3) by (auto simp: shim_inv_def wf_entry_def)
      have "fk_fd e1 = fk_fd ?e \<and> fk_joydev e1 = fk_joydev ?e \<and> fk_descriptor e1 = fk_descriptor ?e \<and> length (fk_raw e1) < 24"
      proof (cases "k_lookup k f")
        case None
        then show ?thesis using os raw by (simp add: on_sock_def)
      next
        case (Some s)
        then obtain s1 where "joy_loop (real_read_fn ?sh \<noteq> None) (n div 8) [] ?e s = Inr ((got, evs), e1, s1)"
          using os by (cases "joy_loop (real_read_fn ?sh \<noteq> None) (n div 8) [] ?e s") (auto simp: on_sock_def)
        from joy_loop_spec [OF this raw] show ?thesis by auto
      qed
      then show ?thesis unfolding sh'
        using update_entry_inv [OF i e(1), of e1 k'] on_sock_lookup(2) [OF os] by simp
    qed
  qed
qed

section \<open>Writing\<close>

lemma write_events_effect:
  assumes "write_events f es sh k = (ok, sh', k')"
  shows "(\<exists>g. sh' = sh\<lparr>ff_gain := g\<rparr>) \<and> (\<forall>x. (k_lookup k' x = None) = (k_lookup k x = None)) \<and>
    (\<forall>x. x \<noteq> f \<longrightarrow> k_lookup k' x = k_lookup k x)"
  using assms
proof (induction es arbitrary: sh k)
  case Nil
  then show ?case by (auto intro: exI [of _ "ff_gain sh"])
next
  case (Cons e es)
  have sent: ?case if s: "tg_send_control f c l h d k = (r, k1)"
    and fin: "(if r < 0 then (False, sh, k1) else write_events f es sh k1) = (ok, sh', k')" for c l h d r k1
  proof (cases "r < 0")
    case True
    then show ?thesis using fin tg_send_control_lookup [OF s] by (auto intro: exI [of _ "ff_gain sh"])
  next
    case False
    then show ?thesis using fin tg_send_control_lookup [OF s] Cons.IH [of sh k1] by auto
  qed
  have gain: ?case if "write_events f es (sh\<lparr>ff_gain := g\<rparr>) k = (ok, sh', k')" for g
    using Cons.IH [OF that] by auto
  show ?case
  proof (cases "ie_type e \<noteq> TG_EV_FF \<or> ie_code e = TG_FF_GAIN")
    case True
    then show ?thesis using Cons.prems Cons.IH [of sh k] gain by (auto simp: Let_def split: if_splits)
  next
    case False
    let ?slot = "tg_find_effect f (uint (ie_code e)) sh"
    let ?s = "effect_slots sh ! nat ?slot"
    show ?thesis
    proof (cases "?slot < 0")
      case True
      then show ?thesis using False Cons.prems by (auto simp: Let_def intro: exI [of _ "ff_gain sh"])
    next
      case slot: False
      show ?thesis
      proof (cases "sint (ie_value e) \<le> 0")
        case True
        then show ?thesis using False slot Cons.prems sent
          by (cases "tg_send_control f TG_CONTROL_STOP_RUMBLE 0 0 0 k") (simp add: Let_def)
      next
        case pos: False
        let ?d = "if es_duration_ms ?s = 0 then 2500 else ucast (es_duration_ms ?s) :: u32"
        obtain r k1 where c: "tg_send_control f TG_CONTROL_RUMBLE (scaled (es_low_frequency ?s) (ff_gain sh))
            (scaled (es_high_frequency ?s) (ff_gain sh)) ?d k = (r, k1)" by fastforce
        then have "(if r < 0 then (False, sh, k1) else write_events f es sh k1) = (ok, sh', k')"
          using False slot pos Cons.prems by (simp add: Let_def)
        from sent [OF c this] show ?thesis .
      qed
    qed
  qed
qed

lemma shim_write_inv:
  assumes inv: "shim_inv sh k" and op: "shim_write dl env f data n sh k = (r, sh', k')"
  shows "shim_inv sh' k'"
proof -
  let ?sh = "tg_init dl env sh"
  have i: "shim_inv ?sh k" using inv by simp
  have wr: "shim_inv ?sh (snd (k_write f bs k))" for bs
    by (rule shim_inv_kernel [OF i]) (simp add: k_write_open)
  have ev: "shim_inv sh1 k1" if w: "write_events f es ?sh k = (ok, sh1, k1)" for es ok sh1 k1
  proof -
    obtain g where "sh1 = ?sh\<lparr>ff_gain := g\<rparr>" using write_events_effect [OF w] by blast
    moreover have "shim_inv ?sh k1" using write_events_effect [OF w] by (intro shim_inv_kernel [OF i]) auto
    ultimately show ?thesis by (simp add: shim_inv_def)
  qed
  show ?thesis
  proof (cases "tg_find_fake_fd f ?sh")
    case None
    then show ?thesis using op i wr
      by (auto simp: shim_write_def Let_def split_beta split: option.splits)
  next
    case (Some j)
    obtain ok sh1 k1 where "write_events f (map dec_event (chunks 24 (take n (the data)))) ?sh k = (ok, sh1, k1)"
      by (metis prod_cases3)
    then show ?thesis using op i ev Some
      by (auto simp: shim_write_def Let_def split: option.splits if_splits)
  qed
qed

section \<open>The transition system\<close>

lemma shim_step_inv:
  assumes "shim_inv sh k" "shim_step (sh, k) (sh', k')"
  shows "shim_inv sh' k'"
  using assms(2)
proof cases
  case (step_open lc dl env path flags mode r)
  then show ?thesis using tg_open_common_inv assms(1) unfolding shim_open_def by blast
next
  case (step_open64 lc dl env path flags mode r)
  then show ?thesis using tg_open_common_inv [of lc "tg_init dl env sh"] assms(1)
    by (auto simp: shim_open64_def Let_def)
next
  case (step___open_2 lc dl env path flags mode r)
  then show ?thesis using tg_open_common_inv [of lc "tg_init dl env sh"] assms(1)
    by (auto simp: shim___open_2_def Let_def)
next
  case (step_openat lc dl env dirfd path flags mode r)
  then show ?thesis using shim_openat_inv(1) assms(1) by blast
next
  case (step___openat_2 lc dl env dirfd path flags mode r)
  then show ?thesis using shim_openat_inv(2) assms(1) by blast
next
  case (step_ioctl lc dl env f req arg mem r mem')
  then show ?thesis using shim_ioctl_inv assms(1) by blast
next
  case (step_read dl env f buffer n r)
  then show ?thesis using shim_read_inv assms(1) by blast
next
  case (step_write dl env f data n r)
  then show ?thesis using shim_write_inv assms(1) by blast
next
  case (step_stat lc dl env path out r)
  then show ?thesis using assms(1)
    by (auto simp: shim_stat_def Let_def split: option.splits dest: sym [of "tg_init dl env sh"])
next
  case (step_stat64 lc dl env path out r)
  then show ?thesis using assms(1)
    by (auto simp: shim_stat64_def Let_def split: option.splits dest: sym [of "tg_init dl env sh"])
next
  case (step_close dl env f r)
  then show ?thesis using shim_close_inv assms(1) by blast
next
  case step_world
  then show ?thesis using shim_inv_kernel assms(1) by blast
qed

lemma shim_inv_loaded: "shim_inv shim_loaded k"
  by (simp add: shim_inv_def shim_loaded_def wf_fakes_def free_slot_def)

interpretation shim: transition_system "\<lambda>(sh, k). sh = shim_loaded" shim_step "\<lambda>(sh, k). shim_inv sh k"
proof
  fix s :: "shim \<times> kernel"
  assume "case s of (sh, k) \<Rightarrow> sh = shim_loaded"
  then show "case s of (sh, k) \<Rightarrow> shim_inv sh k" using shim_inv_loaded by (cases s) simp
next
  fix s t :: "shim \<times> kernel"
  assume "case s of (sh, k) \<Rightarrow> shim_inv sh k" "shim_step s t"
  then show "case t of (sh, k) \<Rightarrow> shim_inv sh k" using shim_step_inv by (cases s; cases t) simp
qed

end
