(* ===== verification/ShimProps.thy ===== *)
theory ShimProps
  imports ShimSystem
begin

text \<open>
  The properties of \<open>src/src/evdev_preload.c\<close> with their witnesses on a small example process.
\<close>

section \<open>An example process\<close>

definition sx_env :: env where
  "sx_env = (\<lambda>_. None)"

definition sx_loader :: loader where
  "sx_loader = (\<lambda>_. True)"

text \<open>A C library that finds no file.\<close>

definition sx_libc :: libc where
  "sx_libc = \<lparr>lc_open = (\<lambda>_ _ _ _ k. (-1, k)), lc_openat = (\<lambda>_ _ _ _ _ k. (-1, k)),
     lc_ioctl = (\<lambda>_ _ _ m k. (-1, m, k)), lc_stat = (\<lambda>_ _ m. (-1, m))\<rparr>"

lemma sx_libc_ok: "libc_ok sx_libc"
  by (simp add: libc_ok_def sx_libc_def)

definition sx_descriptor :: tg_device_descriptor where
  "sx_descriptor = zero_descriptor\<lparr>dd_magic := TG_DEVICE_MAGIC, dd_version := TG_CONTROL_VERSION,
     dd_present := 1, dd_capabilities := 1, dd_input_mode := TG_INPUT_MODE_DINPUT,
     dd_name := lit ''pad'' @ replicate 61 0\<rparr>"

definition sx_events :: "tg_input_event list" where
  "sx_events = [\<lparr>ie_sec = 1, ie_usec = 2000, ie_type = TG_EV_KEY, ie_code = TG_BTN_SOUTH, ie_value = 1\<rparr>,
     \<lparr>ie_sec = 1, ie_usec = 2000, ie_type = TG_EV_SYN, ie_code = TG_SYN_REPORT, ie_value = 0\<rparr>]"

definition sx_event_bytes :: bytes where
  "sx_event_bytes = concat (map enc_event sx_events)"

definition sx_sock :: sock where
  "sx_sock = blank_sock\<lparr>rx := [Data (enc_descriptor sx_descriptor @ take 10 sx_event_bytes),
     Data (drop 10 sx_event_bytes)]\<rparr>"

definition sx_kernel :: kernel where
  "sx_kernel = \<lparr>fds = replicate 3 (Some blank_sock), dial = (\<lambda>n. Connects sx_sock), dialled = 0\<rparr>"

definition sx_run :: "fault + (int \<times> shim \<times> kernel) \<Rightarrow> int \<times> shim \<times> kernel" where
  "sx_run x = (case x of Inr y \<Rightarrow> y | Inl _ \<Rightarrow> (-2, shim_loaded, sx_kernel))"

lemma sx_run_eq: "fst (sx_run x) = r \<Longrightarrow> r \<noteq> -2 \<Longrightarrow> x = Inr (r, fst (snd (sx_run x)), snd (snd (sx_run x)))"
  by (cases x) (auto simp: sx_run_def)

text \<open>An event device opened first, a joystick device second.\<close>

text \<open>A joystick device opened by a fresh process.\<close>

definition sx_opened :: "int \<times> shim \<times> kernel" where
  "sx_opened = sx_run (shim_open sx_libc sx_loader sx_env (Some TG_FAKE_JOYDEV_NODE) 0 0 shim_loaded sx_kernel)"

lemma sx_opened_result: "fst sx_opened = 3" "map fk_fd (fake_fds (fst (snd sx_opened))) = [3]"
  by code_simp+

lemma sx_opened_eq:
  "shim_open sx_libc sx_loader sx_env (Some TG_FAKE_JOYDEV_NODE) 0 0 shim_loaded sx_kernel =
     Inr (3, fst (snd sx_opened), snd (snd sx_opened))"
  unfolding sx_opened_def using sx_opened_result(1) by (intro sx_run_eq) (simp_all add: sx_opened_def)

lemma sx_opened_reachable:
  "shim_step\<^sup>*\<^sup>* (shim_loaded, sx_kernel) (fst (snd sx_opened), snd (snd sx_opened))"
  using step_open [OF sx_libc_ok sx_opened_eq] by (rule r_into_rtranclp)

text \<open>A process with an event device on descriptor 3, with an uploaded rumble effect, and a joystick device
  on descriptor 4.\<close>

definition sx_entry :: tg_fake_fd where
  "sx_entry = \<lparr>fk_fd = 3, fk_joydev = False, fk_initializing = False, fk_raw = [], fk_descriptor = sx_descriptor\<rparr>"

definition sx_joy_entry :: tg_fake_fd where
  "sx_joy_entry = \<lparr>fk_fd = 4, fk_joydev = True, fk_initializing = True, fk_raw = [], fk_descriptor = sx_descriptor\<rparr>"

definition sx_slot :: tg_effect_slot where
  "sx_slot = \<lparr>es_used = True, es_fd = 3, es_low_frequency = 0x8000, es_high_frequency = 0x1234,
     es_duration_ms = 500\<rparr>"

definition sx_shim :: shim where
  "sx_shim = (tg_init sx_loader sx_env shim_loaded)\<lparr>fake_fds := [sx_entry, sx_joy_entry],
     effect_slots := sx_slot # replicate 15 free_slot\<rparr>"

definition sx_k :: kernel where
  "sx_k = \<lparr>fds = replicate 4 (Some blank_sock) @ [Some (blank_sock\<lparr>rx := [Data (take 10 sx_event_bytes),
       RecvErr EAGAIN, Data (drop 10 sx_event_bytes)]\<rparr>)],
     dial = (\<lambda>n. Connects sx_sock), dialled = 2\<rparr>"

lemma sx_lookup: "k_lookup sx_k 3 = Some blank_sock"
  "k_lookup sx_k 4 = Some (blank_sock\<lparr>rx := [Data (take 10 sx_event_bytes), RecvErr EAGAIN, Data (drop 10 sx_event_bytes)]\<rparr>)"
  by (simp_all add: sx_k_def fd_lookup_def nth_append numeral_eq_Suc)

lemma sx_descriptor_valid: "valid_device sx_descriptor"
  by (simp add: valid_device_def sx_descriptor_def wf_descriptor_def zero_descriptor_def)

lemma sx_inv: "shim_inv sx_shim sx_k"
  using sx_descriptor_valid sx_lookup
  by (simp add: shim_inv_def sx_shim_def wf_fakes_def wf_entry_def sx_entry_def sx_joy_entry_def sx_slot_def
      free_slot_def)

lemma sx_shim_parts:
  "init_done sx_shim" "ff_gain sx_shim = 0xffff" "effect_slots sx_shim ! 0 = sx_slot"
  "tg_find_fake_fd 3 sx_shim = Some 0" "tg_find_fake_fd 4 sx_shim = Some 1" "fake_fds sx_shim ! 0 = sx_entry"
  "fake_fds sx_shim ! 1 = sx_joy_entry" "real_close_fn sx_shim = Some Sym_close"
  "real_read_fn sx_shim = Some Sym_read"
  by (simp_all add: sx_shim_def shim_loaded_def tg_find_fake_fd_def sx_entry_def sx_joy_entry_def)
     (simp_all add: tg_init_def Let_def shim_loaded_def dlsym_def sx_loader_def)

section \<open>The shim's invariant\<close>

text \<open>C19: Whatever calls a process makes through a freshly loaded shim, the table of fake descriptors
  keeps at most 128 entries with distinct, open descriptors of valid, present controllers, each with
  less than one whole raw event buffered; there are always 16 effect slots, and every used one
  belongs to a descriptor that is still in the table as an event device.\<close>

theorem shim_consistent:
  assumes "shim_step\<^sup>*\<^sup>* (shim_loaded, k0) (sh, k)"
  shows "length (fake_fds sh) \<le> 128 \<and> distinct (map fk_fd (fake_fds sh)) \<and>
    (\<forall>e\<in>set (fake_fds sh). 0 \<le> fk_fd e \<and> k_lookup k (fk_fd e) \<noteq> None \<and> length (fk_raw e) < 24 \<and>
       valid_device (fk_descriptor e)) \<and>
    length (effect_slots sh) = 16 \<and>
    (\<forall>s\<in>set (effect_slots sh). es_used s \<longrightarrow>
       (\<exists>e\<in>set (fake_fds sh). fk_fd e = es_fd s \<and> \<not> fk_joydev e))"
proof -
  have "case (sh, k) of (sh, k) \<Rightarrow> shim_inv sh k"
    using shim.reachable_inv [OF _ assms] by simp
  then show ?thesis by (auto simp: shim_inv_def wf_fakes_def wf_entry_def)
qed

theorem shim_consistent_witness:
  "map fk_fd (fake_fds (fst (snd sx_opened))) = [3] \<and> length (effect_slots (fst (snd sx_opened))) = 16"
  using shim_consistent [OF sx_opened_reachable] sx_opened_result(2) by simp

section \<open>Opening\<close>

text \<open>C20: Opening a fake device node either fails with -1, leaving the table of fake descriptors, the
  effects and every descriptor of the process as they were, or gives a new descriptor: connected to
  the configured socket, over which exactly one descriptor query has been sent and a valid
  descriptor of a present controller been received, and entered in the table with the node's
  kind and that descriptor as long as the table has room; no other descriptor is touched.\<close>

theorem device_open_outcome:
  assumes "init_done sh" "shim_inv sh k" "real_close_fn sh \<noteq> None"
    and "tg_connect_device dl env flags joydev sh k = Inr (r, sh', k')"
  shows "(r = -1 \<and> fake_fds sh' = fake_fds sh \<and> effect_slots sh' = effect_slots sh \<and> k_lookup k' = k_lookup k) \<or>
    (0 \<le> r \<and> k_lookup k r = None \<and> (g = r \<or> k_lookup k' g = k_lookup k g) \<and>
     (\<exists>s d. k_lookup k' r = Some s \<and> peer s = cstr (default_path env None) \<and> cloexec s \<and>
        sent s = enc_control (control_message TG_CONTROL_QUERY_DESCRIPTOR 0 0 0) \<and> valid_device d \<and>
        fake_fds sh' = (if length (fake_fds sh) < 128
          then fake_fds sh @ [\<lparr>fk_fd = r, fk_joydev = joydev, fk_initializing = joydev, fk_raw = [],
                 fk_descriptor = d\<rparr>]
          else fake_fds sh)))"
proof -
  have absent: "\<not> tg_is_fake_fd r sh" if "k_lookup k r = None"
  proof -
    have "r \<notin> fk_fd ` set (fake_fds sh)" using assms(2) that by (auto simp: shim_inv_def)
    then show ?thesis by (simp add: tg_is_fake_fd_def find_fake_absent)
  qed
  consider (fail) "r = -1" "sh' = sh \<or> sh' = sh\<lparr>errno_set := Some ENODEV\<rparr>" "k_lookup k' = k_lookup k"
    | (ok) s b where "0 \<le> r" "k_lookup k r = None" "\<forall>g. g \<noteq> r \<longrightarrow> k_lookup k' g = k_lookup k g"
      "k_lookup k' r = Some s" "peer s = cstr (default_path env None)" "cloexec s"
      "sent s = enc_control (control_message TG_CONTROL_QUERY_DESCRIPTOR 0 0 0)"
      "valid_device (dec_descriptor b)" "sh' = tg_add_fake_fd r joydev (Some (dec_descriptor b)) sh"
    using tg_connect_device_cases [OF assms(1,2,4)] assms(3) by blast
  then show ?thesis
  proof cases
    case fail
    then show ?thesis by auto
  next
    case ok
    have "fake_fds sh' = (if length (fake_fds sh) < 128
          then fake_fds sh @ [\<lparr>fk_fd = r, fk_joydev = joydev, fk_initializing = joydev, fk_raw = [],
                 fk_descriptor = dec_descriptor b\<rparr>] else fake_fds sh)"
      using ok(1) absent [OF ok(2)] by (simp add: ok(9) tg_add_fake_fd_def)
    then show ?thesis using ok by blast
  qed
qed

definition sx_third :: "int \<times> shim \<times> kernel" where
  "sx_third = sx_run (tg_connect_device sx_loader sx_env 0 False sx_shim sx_k)"

theorem device_open_outcome_witness:
  "fst sx_third = 5 \<and> (\<exists>s. k_lookup (snd (snd sx_third)) 5 = Some s \<and> peer s = TG_DEFAULT_SOCKET)"
proof -
  have r: "fst sx_third = 5" by code_simp
  then have op: "tg_connect_device sx_loader sx_env 0 False sx_shim sx_k =
      Inr (5, fst (snd sx_third), snd (snd sx_third))"
    unfolding sx_third_def by (intro sx_run_eq) (simp_all add: sx_third_def)
  have "cstr (default_path sx_env None) = TG_DEFAULT_SOCKET"
    by (simp add: default_path_def sx_env_def TG_DEFAULT_SOCKET_def lit_def)
  then show ?thesis
    using device_open_outcome [OF sx_shim_parts(1) sx_inv _ op, of 0] r sx_shim_parts(8) by auto
qed

section \<open>Effects\<close>

lemma fake_ioctl_slots:
  assumes "fake_ioctl e req arg mem sh = (r, mem', sh')" "length (effect_slots sh) = 16" "i < 16"
    "es_used (effect_slots sh ! i)" "es_fd (effect_slots sh ! i) \<noteq> fk_fd e"
  shows "effect_slots sh' ! i = effect_slots sh ! i"
proof -
  have up: "effect_slots sh2 ! i = effect_slots sh ! i"
    if "tg_upload_effect (fk_fd e) ef sh = (x, ef', sh2)" for ef x ef' sh2
    using that assms(2-5) effect_target_bounds [of "fk_fd e" ef sh]
    by (auto simp: tg_upload_effect_def nth_list_update split: option.splits prod.splits)
  have rm: "effect_slots sh2 ! i = effect_slots sh ! i"
    if "tg_remove_effect (fk_fd e) ident sh = (x, sh2)" for ident x sh2
    using that assms(2-5) tg_find_effect_spec [of "fk_fd e" ident sh]
    by (auto simp: tg_remove_effect_def Let_def nth_list_update split: if_splits)
  show ?thesis using assms(1) up rm by (auto simp: fake_ioctl_def Let_def split: prod.splits if_splits)
qed

lemma closed_slots_other:
  assumes "length (effect_slots sh) = 16" "i < 16" "es_fd (effect_slots sh ! i) \<noteq> f"
  shows "closed_slots f sh ! i = effect_slots sh ! i"
  using assms by (auto simp: closed_slots_def tg_clear_effects_def split: option.splits)

text \<open>C21: An effect slot belongs to the descriptor it was uploaded through: no \<open>ioctl\<close>, write or close
  on another descriptor changes, frees or takes over the slot.\<close>

theorem effect_isolation:
  assumes "shim_inv sh k" "i < 16" "es_used (effect_slots sh ! i)" "es_fd (effect_slots sh ! i) \<noteq> f"
    and "shim_ioctl lc dl env f req arg mem sh k = (r, mem', sh', k') \<or>
      shim_write dl env f data n sh k = (r, sh', k') \<or> shim_close dl env f sh k = (r, sh', k')"
  shows "effect_slots sh' ! i = effect_slots sh ! i"
proof -
  let ?sh = "tg_init dl env sh"
  have len: "length (effect_slots sh) = 16" using assms(1) by (simp add: shim_inv_def)
  have io: "effect_slots sh' ! i = effect_slots sh ! i"
    if op: "shim_ioctl lc dl env f req arg mem sh k = (r, mem', sh', k')"
  proof (cases "tg_find_fake_fd f ?sh")
    case None
    then show ?thesis using op by (auto simp: shim_ioctl_def Let_def split: option.splits prod.splits)
  next
    case (Some j)
    obtain r1 m1 sh1 where l: "fake_ioctl (fake_fds ?sh ! j) req arg mem ?sh = (r1, m1, sh1)" by (metis prod_cases3)
    then have "sh' = sh1" using op Some by (simp add: shim_ioctl_def Let_def)
    then show ?thesis
      using fake_ioctl_slots [OF l, of i] find_fake_entry(2) [OF Some] assms(2-4) len by simp
  qed
  have wr: "effect_slots sh' = effect_slots sh" if op: "shim_write dl env f data n sh k = (r, sh', k')"
  proof -
    have "effect_slots sh1 = effect_slots sh" if "write_events f es ?sh k = (ok, sh1, k1)" for es ok sh1 k1
      using write_events_effect [OF that] by auto
    then show ?thesis using op
      by (auto simp: shim_write_def Let_def split: option.splits if_splits prod.splits)
  qed
  have cl: "effect_slots sh' ! i = effect_slots sh ! i" if op: "shim_close dl env f sh k = (r, sh', k')"
    using shim_close_effect(2) [OF op] closed_slots_other [OF len assms(2,4)] by simp
  show ?thesis using assms(5) io wr cl by auto
qed

definition sx_effect_image :: "u16 \<Rightarrow> u16 \<Rightarrow> bytes" where
  "sx_effect_image strong weak = to_le 2 (TG_FF_RUMBLE :: u16) @ to_le 2 (0xffff :: u16) @ replicate 6 0 @
     to_le 2 (500 :: u16) @ replicate 4 0 @ to_le 2 strong @ to_le 2 weak @ replicate 28 0"

theorem effect_isolation_witness:
  "es_used (effect_slots (fst (snd (shim_close sx_loader sx_env 4 sx_shim sx_k))) ! 0)"
proof -
  have "shim_close sx_loader sx_env 4 sx_shim sx_k = (fst (shim_close sx_loader sx_env 4 sx_shim sx_k),
      fst (snd (shim_close sx_loader sx_env 4 sx_shim sx_k)), snd (snd (shim_close sx_loader sx_env 4 sx_shim sx_k)))"
    by simp
  then show ?thesis using effect_isolation [OF sx_inv, of 0 4] sx_shim_parts(3) by (fastforce simp: sx_slot_def)
qed

lemma sint_small: "i < 16 \<Longrightarrow> sint (word_of_nat i :: s16) = int i"
  by (simp add: signed_of_nat signed_take_bit_int_eq_self)

text \<open>The strengths an effect asks for, in numbers.\<close>

definition level :: "s16 \<Rightarrow> nat" where
  "level x = 2 * min 32767 (nat \<bar>sint x\<bar>)"

definition condition_level :: "tg_ff_condition_effect \<Rightarrow> nat" where
  "condition_level c =
     Max {unat (co_right_saturation c), unat (co_left_saturation c), level (co_right_coeff c), level (co_left_coeff c)}"

definition wanted_strengths :: "tg_ff_effect \<Rightarrow> (nat \<times> nat) option" where
  "wanted_strengths e =
     (if ff_type e = TG_FF_RUMBLE then Some (unat (u_rumble_strong e), unat (u_rumble_weak e))
      else if ff_type e = TG_FF_CONSTANT then Some (level (u_constant_level e), level (u_constant_level e))
      else if ff_type e = TG_FF_PERIODIC then Some (level (u_periodic_magnitude e), level (u_periodic_magnitude e))
      else if ff_type e = TG_FF_RAMP then
        (let l = max (level (u_ramp_start e)) (level (u_ramp_end e)) in Some (l, l))
      else if ff_type e \<in> {TG_FF_SPRING, TG_FF_DAMPER, TG_FF_INERTIA, TG_FF_FRICTION} then
        Some (condition_level (u_condition 0 e), condition_level (u_condition 1 e))
      else None)"

lemma unat_scaled_abs: "unat (tg_scaled_abs (scast x)) = level x"
proof -
  have r: "- 32768 \<le> sint x" "sint x < 32768" using sint_ge [of x] sint_lt [of x] by simp_all
  have c: "sint (word_of_int i :: s32) = i" if "- 32768 \<le> i" "i \<le> 32768" for i
    using that by (simp add: signed_of_int signed_take_bit_int_eq_self)
  have w: "(scast x :: s32) = word_of_int (sint x)" by (fact scast_eq)
  have u: "unat (ucast (word_of_int i * 2 :: s32) :: u16) = nat (2 * i)" if "0 \<le> i" "i \<le> 32767" for i
  proof -
    have "ucast (word_of_int i * 2 :: s32) = (word_of_int (2 * i) :: u16)"
      by transfer (simp add: take_bit_eq_mod mod_mod_cancel mod_simps mult.commute)
    moreover have "uint (word_of_int (2 * i) :: u16) = 2 * i"
      using that by (subst unsigned_of_int, subst take_bit_int_eq_self) simp_all
    ultimately show ?thesis by (simp only: unat_eq_nat_uint)
  qed
  have m: "tg_scaled_abs (word_of_int n) = ucast (word_of_int (min 32767 \<bar>n\<bar>) * 2 :: s32)"
    if "- 32768 \<le> n" "n < 32768" for n
    using that by (cases "n = 32767") (simp_all add: tg_scaled_abs_def c Let_def min_def flip: of_int_minus)
  show ?thesis unfolding w m [OF r] using r by (subst u) (auto simp: level_def min_def nat_mult_distrib le_nat_iff)
qed

lemma unat_condition_strength: "unat (tg_condition_strength c) = condition_level c"
  by (auto simp: tg_condition_strength_def condition_level_def Let_def word_less_nat_alt unat_scaled_abs max_def)

lemma effect_strength_wanted:
  "wanted_strengths e = (if known_effect (ff_type e) then Some (map_prod unat unat (effect_strength e)) else None)"
  by (simp add: wanted_strengths_def effect_strength_def known_effect_def tg_is_condition_effect_def Let_def
     unat_scaled_abs unat_condition_strength word_less_nat_alt max_def)

text \<open>The slots an upload may use: a free one for id -1, else the named one if it is free or the
  descriptor's own.\<close>

definition may_take :: "fd \<Rightarrow> tg_ff_effect \<Rightarrow> shim \<Rightarrow> nat \<Rightarrow> bool" where
  "may_take f e sh i \<longleftrightarrow>
     i < 16 \<and>
     (if sint (ff_id e) = -1 then \<not> es_used (effect_slots sh ! i)
      else sint (ff_id e) = int i \<and> (es_used (effect_slots sh ! i) \<longrightarrow> es_fd (effect_slots sh ! i) = f))"

lemma first_unused_lowest: "j < first_unused ss \<Longrightarrow> es_used (ss ! j)"
  by (induction ss arbitrary: j) (auto simp: nth_Cons split: if_splits nat.splits)

lemma effect_target_Some:
  assumes "effect_target f e sh = Some i" "length (effect_slots sh) = 16"
  shows "known_effect (ff_type e)" "may_take f e sh i" "sint (ff_id e) = -1 \<Longrightarrow> j < i \<Longrightarrow> es_used (effect_slots sh ! j)"
  using assms first_unused_spec [of "effect_slots sh"] first_unused_lowest [of j "effect_slots sh"]
  by (auto simp: effect_target_def may_take_def Let_def split: if_splits)

lemma effect_target_None:
  assumes "effect_target f e sh = None" "length (effect_slots sh) = 16" "known_effect (ff_type e)"
  shows "\<not> may_take f e sh i"
  using assms first_unused_full [of "effect_slots sh"]
  by (auto simp: effect_target_def may_take_def Let_def not_less all_set_conv_all_nth split: if_splits)

text \<open>C22: An upload succeeds exactly when the effect type is supported and there is a slot it may take (a
  free one for id -1, else the named one if free or the descriptor's own). Then it takes such a slot, the
  lowest free one for id -1; the caller's struct gets the slot's number as its id and is otherwise
  unchanged; the slot belongs to the descriptor and holds the strengths of that type of effect and its duration;
  nothing else changes. A failing upload changes nothing.\<close>

theorem upload_contract:
  assumes "length (effect_slots sh) = 16" "tg_upload_effect f e sh = (r, e', sh')"
  shows "(r = 0 \<and> (\<exists>i. may_take f e sh i \<and>
      (sint (ff_id e) = -1 \<longrightarrow> (\<forall>j<i. es_used (effect_slots sh ! j))) \<and>
      e' = e\<lparr>ff_id := word_of_nat i\<rparr> \<and> tg_find_effect f (sint (ff_id e')) sh' = int i \<and>
      (\<exists>s. sh' = sh\<lparr>effect_slots := (effect_slots sh)[i := s]\<rparr> \<and> es_used s \<and> es_fd s = f \<and>
        wanted_strengths e = Some (unat (es_low_frequency s), unat (es_high_frequency s)) \<and>
        es_duration_ms s = ff_replay_length e))) \<or>
    (r = -1 \<and> e' = e \<and> sh' = sh \<and> (wanted_strengths e = None \<or> (\<forall>i. \<not> may_take f e sh i)))"
proof (cases "effect_target f e sh")
  case None
  then show ?thesis using assms effect_target_None [OF None assms(1)]
    by (auto simp: tg_upload_effect_def effect_strength_wanted)
next
  case (Some i)
  obtain lo hi where st: "effect_strength e = (lo, hi)" by fastforce
  define s where "s = \<lparr>es_used = True, es_fd = f, es_low_frequency = lo, es_high_frequency = hi,
    es_duration_ms = ff_replay_length e\<rparr>"
  have out: "r = 0" "e' = e\<lparr>ff_id := word_of_nat i\<rparr>" "sh' = sh\<lparr>effect_slots := (effect_slots sh)[i := s]\<rparr>"
    using assms(2) Some st by (simp_all add: tg_upload_effect_def s_def)
  note t = effect_target_Some [OF Some assms(1)]
  have i: "i < 16" using t(2) by (simp add: may_take_def)
  have "tg_find_effect f (sint (ff_id e')) sh' = int i"
    using i assms(1) by (simp add: out s_def sint_small tg_find_effect_def Let_def)
  moreover have "es_used s \<and> es_fd s = f \<and> es_duration_ms s = ff_replay_length e \<and>
      wanted_strengths e = Some (unat (es_low_frequency s), unat (es_high_frequency s))"
    using t(1) st by (simp add: s_def effect_strength_wanted)
  ultimately show ?thesis using out t(2,3) by blast
qed

theorem upload_contract_witness:
  "\<exists>s. effect_slots (snd (snd (tg_upload_effect 3 (dec_effect (sx_effect_image 1 2)) shim_loaded))) =
     s # replicate 15 free_slot \<and> es_used s \<and> es_fd s = 3 \<and> unat (es_low_frequency s) = 1"
proof -
  let ?e = "dec_effect (sx_effect_image 1 2)"
  obtain r e' sh' where u: "tg_upload_effect 3 ?e shim_loaded = (r, e', sh')" by (metis prod_cases3)
  have "fst (tg_upload_effect 3 ?e shim_loaded) = 0" by code_simp
  then have r: "r = 0" using u by simp
  have len: "length (effect_slots shim_loaded) = 16" by (simp add: shim_loaded_def)
  have id: "sint (ff_id ?e) = -1" and w: "wanted_strengths ?e = Some (1, 2)" by code_simp+
  have free: "\<not> es_used (effect_slots shim_loaded ! j)" if "j < 16" for j
    using that by (simp add: shim_loaded_def free_slot_def)
  from upload_contract [OF len u] obtain i s where i: "may_take 3 ?e shim_loaded i"
    "\<forall>j<i. es_used (effect_slots shim_loaded ! j)" "sh' = shim_loaded\<lparr>effect_slots := (effect_slots shim_loaded)[i := s]\<rparr>"
    "es_used s" "es_fd s = 3" "unat (es_low_frequency s) = 1"
    using r id w by auto
  have "i < 16" using i(1) by (simp add: may_take_def)
  then have "i = 0" using i(2) free [of 0] by auto
  then have "effect_slots sh' = s # replicate 15 free_slot"
    using i(3) by (simp add: shim_loaded_def numeral_eq_Suc)
  then show ?thesis using i(4-6) u by auto
qed

section \<open>Playing effects\<close>

lemma u16_bound: "unat (w :: u16) < 65536"
  by (rule order_less_le_trans [OF unsigned_less]) simp

lemma scaled_unat: "unat (scaled s g) = unat s * unat g div 65535"
proof -
  have a: "unat s < 65536" "unat g < 65536" by (rule u16_bound)+
  then have m: "unat s * unat g \<le> 65535 * 65535" by (intro mult_le_mono) auto
  then have "unat (ucast s * ucast g :: u32) = unat s * unat g"
    using a by (simp add: unat_word_ariths unsigned_ucast_eq take_bit_nat_eq_self)
  then have "unat ((ucast s * ucast g :: u32) div 0xffff) = unat s * unat g div 65535"
    by (simp add: unat_div_distrib)
  moreover have "unat s * unat g div 65535 < 65536" using m by (simp add: less_mult_imp_div_less)
  ultimately show ?thesis by (simp add: scaled_def unsigned_ucast_eq take_bit_nat_eq_self_iff)
qed

text \<open>The gain scales a strength without overflow or loss at the ends: the result is the exact
  quotient of strength times gain by 65535, never above the strength, the strength itself at full
  gain, silence at gain 0, and monotone in the gain.\<close>

theorem gain_scaling:
  assumes "g \<le> g'"
  shows "unat (scaled s g) = unat s * unat g div 65535 \<and> scaled s g \<le> s \<and> scaled s 0xffff = s \<and>
    scaled s 0 = 0 \<and> scaled s g \<le> scaled s g'"
proof -
  have b: "unat g \<le> 65535" "unat s \<le> 65535" using u16_bound [of g] u16_bound [of s] by simp_all
  have "unat s * unat g div 65535 \<le> unat s * 65535 div 65535" using b by (intro div_le_mono mult_le_mono2)
  moreover have "unat s * unat g div 65535 \<le> unat s * unat g' div 65535"
    using assms by (intro div_le_mono mult_le_mono2) (simp add: word_le_nat_alt)
  ultimately show ?thesis by (simp add: word_le_nat_alt word_unat_eq_iff scaled_unat)
qed

theorem gain_scaling_witness: "scaled 0x8000 0x7fff \<le> scaled 0x8000 0x8000"
  using gain_scaling [of "0x7fff" "0x8000" "0x8000"] by simp

lemma chunks_one: "length b = 24 \<Longrightarrow> chunks 24 b = [b]"
  using chunks_frame [of 24 b "[]"] by simp

text \<open>C23: Writing a play event for an uploaded effect sends exactly one control message on the device's
  connection: a stop request for a value of at most 0, otherwise a rumble request with both
  strengths of the effect scaled by the current gain, lasting the effect's duration, or 2500 ms when the effect
  has none; the write reports all 24 bytes as written.\<close>

theorem play_sends_rumble:
  assumes "tg_find_fake_fd f sh = Some j" "\<not> fk_joydev (fake_fds sh ! j)"
    and "ie_type e = TG_EV_FF" "ie_code e \<noteq> TG_FF_GAIN" "tg_find_effect f (uint (ie_code e)) sh = int i"
    and "k_lookup k f = Some s" "tx s = []"
    and "shim_write dl env f (Some (enc_event e)) 24 sh k = (r, sh', k')"
  shows "r = 24 \<and> effect_slots sh' = effect_slots sh \<and>
    (\<exists>s'. k_lookup k' f = Some s' \<and> sent s' = sent s @
      enc_control (if sint (ie_value e) \<le> 0 then control_message TG_CONTROL_STOP_RUMBLE 0 0 0
        else control_message TG_CONTROL_RUMBLE (scaled (es_low_frequency (effect_slots sh ! i)) (ff_gain sh))
          (scaled (es_high_frequency (effect_slots sh ! i)) (ff_gain sh))
          (if es_duration_ms (effect_slots sh ! i) = 0 then 2500 else ucast (es_duration_ms (effect_slots sh ! i)))))"
proof -
  let ?sh = "tg_init dl env sh"
  have len: "length (enc_event e) = 24" by (rule evt.length_enc) simp
  have ev: "map dec_event (chunks 24 (take 24 (enc_event e))) = [e]"
    using chunks_one [OF len] evt.dec_enc [of e] len by simp
  have "tg_find_effect f x ?sh = tg_find_effect f x sh" for x by (simp add: tg_find_effect_def)
  then have fnd: "tg_find_fake_fd f ?sh = Some j" "tg_find_effect f (uint (ie_code e)) ?sh = int i"
    using assms(1,5) by (simp_all add: tg_find_fake_fd_def)
  have snd: "tg_send_control f c l h d k = (0, k\<lparr>fds := fd_update f (s\<lparr>sent := sent s @ enc_control (control_message c l h d)\<rparr>) (fds k)\<rparr>)"
    for c l h d
    using assms(6,7) ctl.length_enc by (simp add: tg_send_control_def k_send_def sock_send_def)
  have w: "shim_write dl env f (Some (enc_event e)) 24 sh k =
      (let (ok, sh2, k2) = write_events f [e] ?sh k in (if ok then int 24 else -1, sh2, k2))"
    using fnd(1) assms(2) ev by (simp add: shim_write_def Let_def del: write_events.simps)
  let ?m = "if sint (ie_value e) \<le> 0 then control_message TG_CONTROL_STOP_RUMBLE 0 0 0
        else control_message TG_CONTROL_RUMBLE (scaled (es_low_frequency (effect_slots sh ! i)) (ff_gain sh))
          (scaled (es_high_frequency (effect_slots sh ! i)) (ff_gain sh))
          (if es_duration_ms (effect_slots sh ! i) = 0 then 2500 else ucast (es_duration_ms (effect_slots sh ! i)))"
  have "write_events f [e] ?sh k =
      (True, ?sh, k\<lparr>fds := fd_update f (s\<lparr>sent := sent s @ enc_control ?m\<rparr>) (fds k)\<rparr>)"
    using assms(3,4) by (simp add: fnd(2) snd Let_def)
  then have "r = 24" "sh' = ?sh" "k' = k\<lparr>fds := fd_update f (s\<lparr>sent := sent s @ enc_control ?m\<rparr>) (fds k)\<rparr>"
    using assms(8) unfolding w by (auto simp: Let_def)
  then show ?thesis using assms(6) by (simp add: fdt.update_lookup)
qed

definition sx_play :: tg_input_event where
  "sx_play = \<lparr>ie_sec = 0, ie_usec = 0, ie_type = TG_EV_FF, ie_code = 0, ie_value = 1\<rparr>"

definition sx_played :: "int \<times> shim \<times> kernel" where
  "sx_played = shim_write sx_loader sx_env 3 (Some (enc_event sx_play)) 24 sx_shim sx_k"

theorem play_sends_rumble_witness:
  "fst sx_played = 24 \<and> (\<exists>s'. k_lookup (snd (snd sx_played)) 3 = Some s' \<and>
     sent s' = enc_control (control_message TG_CONTROL_RUMBLE 0x8000 0x1234 500))"
proof -
  have w: "shim_write sx_loader sx_env 3 (Some (enc_event sx_play)) 24 sx_shim sx_k =
      (fst sx_played, fst (snd sx_played), snd (snd sx_played))" by (simp add: sx_played_def)
  have e: "ie_type sx_play = TG_EV_FF" "ie_code sx_play \<noteq> TG_FF_GAIN" "\<not> sint (ie_value sx_play) \<le> 0"
    "tg_find_effect 3 (uint (ie_code sx_play)) sx_shim = int 0"
    by (simp_all add: sx_play_def tg_find_effect_def sx_shim_parts sx_slot_def)
  have s: "tx blank_sock = []" "sent blank_sock = []" "\<not> fk_joydev (fake_fds sx_shim ! 0)"
    by (simp_all add: blank_sock_def sx_shim_parts sx_entry_def)
  have "scaled 0x8000 0xffff = 0x8000" "scaled 0x1234 0xffff = 0x1234" by code_simp+
  then show ?thesis
    using play_sends_rumble [OF sx_shim_parts(4) s(3) e(1,2,4) sx_lookup(1) s(1) w]
    by (simp add: e(3) s(2) sx_shim_parts(2,3) sx_slot_def)
qed

section \<open>Answers to ioctl\<close>

lemma length_poke: "off + length bs \<le> length mem \<Longrightarrow> length (poke off bs mem) = length mem"
  by (simp add: poke_def)

lemma poke_outside:
  "off + length bs \<le> i \<Longrightarrow> i < length mem \<Longrightarrow> poke off bs mem ! i = mem ! i"
  by (auto simp: poke_def nth_append min_def)

lemma set_bits_frame:
  "length (set_bits len bs dst) = length dst" "len \<le> i \<Longrightarrow> set_bits len bs dst ! i = dst ! i"
  by (induction bs arbitrary: dst)
     (auto simp: set_bits_def tg_set_bit_def Let_def nth_list_update)

lemma fill_bits_frame:
  assumes "len \<le> length dst"
  shows "length (tg_fill_bits dst len ev dinput) = length dst"
    "len \<le> i \<Longrightarrow> i < length dst \<Longrightarrow> tg_fill_bits dst len ev dinput ! i = dst ! i"
  using assms by (auto simp: tg_fill_bits_def Let_def set_bits_frame tg_memzero_def nth_append)

lemma ioctl_lengths: "length (enc_input_id i) = 8" "length (enc_absinfo a) = 24"
  by (simp_all add: enc_input_id_def enc_absinfo_def)

text \<open>C24: Memory safety of the emulated \<open>ioctl\<close>: whatever request a program makes on a fake descriptor,
  with a buffer of at least the size encoded in the request, the answer keeps the buffer's length and
  changes no byte at or beyond that size.\<close>

theorem ioctl_stays_in_buffer:
  assumes "fake_ioctl e req arg mem sh = (r, mem', sh')" "ioc_size req \<le> length mem"
    and "ioc_size req \<le> i" "i < length mem"
  shows "length mem' = length mem \<and> mem' ! i = mem ! i"
proof -
  have p: "length (poke off bs mem) = length mem \<and> poke off bs mem ! i = mem ! i"
    if "off + length bs \<le> ioc_size req" for off bs
    using that assms(2-4) by (intro conjI length_poke poke_outside) simp_all
  have c: "length (tg_copy mem src (ioc_size req)) = length mem \<and> tg_copy mem src (ioc_size req) ! i = mem ! i" for src
    using assms(2-4) length_tg_copy tg_copy_outside by blast
  have b: "length (tg_fill_bits mem (ioc_size req) ev d) = length mem \<and> tg_fill_bits mem (ioc_size req) ev d ! i = mem ! i" for ev d
    using assms(2-4) fill_bits_frame by blast
  have ev: "length m = length mem \<and> m ! i = mem ! i" if "tg_fake_ioctl sh e req arg mem = (x, m)" for x m
    using that p c b by (auto simp: tg_fake_ioctl_def Let_def ioctl_lengths split: if_splits)
  have js: "length m = length mem \<and> m ! i = mem ! i" if "tg_fake_joy_ioctl sh e req arg mem = (x, m)" for x m
    using that p c by (auto simp: tg_fake_joy_ioctl_def Let_def split: if_splits)
  show ?thesis using assms(1) p ev js
    by (auto simp: fake_ioctl_def Let_def split: prod.splits if_splits)
qed

theorem ioctl_stays_in_buffer_witness:
  "fst (snd (fake_ioctl sx_entry (TG_IOC 2 0x45 0x06 4) 1 (replicate 10 7) shim_loaded)) ! 4 = 7"
proof -
  let ?o = "fake_ioctl sx_entry (TG_IOC 2 0x45 0x06 4) 1 (replicate 10 7) shim_loaded"
  have "?o = (fst ?o, fst (snd ?o), snd (snd ?o))" by simp
  moreover have "ioc_size (TG_IOC 2 0x45 0x06 4) = 4" by code_simp
  moreover have "(replicate 10 7 :: bytes) ! 4 = 7" by simp
  ultimately show ?thesis
    using ioctl_stays_in_buffer [of sx_entry "TG_IOC 2 0x45 0x06 4" 1 "replicate 10 7" shim_loaded "fst ?o"
      "fst (snd ?o)" "snd (snd ?o)" 4] by simp
qed

section \<open>Capabilities, numbering and names agree\<close>

lemma has_bit_set_bits:
  assumes "len \<le> length dst"
  shows "has_bit (set_bits len bs dst) c \<longleftrightarrow> has_bit dst c \<or> (c \<in> set bs \<and> c div 8 < len)"
  using assms
proof (induction bs arbitrary: dst)
  case Nil
  then show ?case by (simp add: set_bits_def)
next
  case (Cons b bs)
  have "set_bits len (b # bs) dst = set_bits len bs (tg_set_bit dst len b)" by (simp add: set_bits_def)
  then show ?case using Cons by (auto simp: has_bit_tg_set_bit)
qed

lemma has_bit_zero: "has_bit (tg_memzero dst (length dst)) c = False"
  by (simp add: has_bit_memzero)

lemma length_memzero: "length (tg_memzero dst (length dst)) = length dst"
  by (simp add: tg_memzero_def)

lemma fill_key_bits:
  assumes "96 \<le> length dst"
  shows "has_bit (tg_fill_bits dst (length dst) TG_EV_KEY False) c \<longleftrightarrow> c \<in> {0x130, 0x131, 0x132, 0x133, 0x134,
      0x136, 0x137, 0x13a, 0x13b, 0x13c, 0x13d, 0x13e}"
    "has_bit (tg_fill_bits dst (length dst) TG_EV_KEY True) c \<longleftrightarrow> 0x120 \<le> c \<and> c \<le> 0x12b"
proof -
  have "c \<in> set [TG_BTN_TRIGGER..<Suc TG_BTN_BASE6] \<longleftrightarrow> 0x120 \<le> c \<and> c \<le> 0x12b" by (simp only: set_upt) auto
  then show "has_bit (tg_fill_bits dst (length dst) TG_EV_KEY True) c \<longleftrightarrow> 0x120 \<le> c \<and> c \<le> 0x12b"
    using assms by (simp add: tg_fill_bits_def Let_def has_bit_set_bits length_memzero has_bit_zero del: upt_conv_Cons upt_rec_numeral) arith
qed (use assms in \<open>auto simp: tg_fill_bits_def Let_def has_bit_set_bits length_memzero has_bit_zero\<close>)

lemma fill_abs_bits:
  assumes "8 \<le> length dst"
  shows "has_bit (tg_fill_bits dst (length dst) TG_EV_ABS d) c \<longleftrightarrow> c \<in> {0, 1, 2, 3, 4, 5, 0x10, 0x11}"
  using assms by (auto simp: tg_fill_bits_def Let_def has_bit_set_bits length_memzero has_bit_zero)

text \<open>The joystick view numbers the eight axes 0 to 7 and the twelve buttons 0 to 11 without gaps and
  without sharing a number, as many of each as its \<open>ioctl\<close> reports; the renaming of DirectInput mode
  confuses no two buttons.\<close>

theorem joystick_numbering:
  "inj_on tg_joy_button_number {c. 0 \<le> tg_joy_button_number c} \<and>
   tg_joy_button_number ` {c. 0 \<le> tg_joy_button_number c} = {0..<12} \<and>
   inj_on tg_joy_axis_number {c. 0 \<le> tg_joy_axis_number c} \<and>
   tg_joy_axis_number ` {c. 0 \<le> tg_joy_axis_number c} = {0..<8} \<and>
   inj_on tg_dinput_button_code {c. 0 \<le> tg_joy_button_number c}"
proof -
  have b: "{c. 0 \<le> tg_joy_button_number c} =
      {0x130, 0x131, 0x132, 0x133, 0x134, 0x136, 0x137, 0x13a, 0x13b, 0x13c, 0x13d, 0x13e}"
    by (auto simp: tg_joy_button_number_def)
  have a: "{c. 0 \<le> tg_joy_axis_number c} = {0, 1, 2, 3, 4, 5, 0x10, 0x11}"
    by (auto simp: tg_joy_axis_number_def)
  have "({0..<12} :: int set) = {0, 1, 2, 3, 4, 5, 6, 7, 8, 9, 10, 11}" by (rule set_eqI) (simp, arith)
  moreover have "({0..<8} :: int set) = {0, 1, 2, 3, 4, 5, 6, 7}" by (rule set_eqI) (simp, arith)
  moreover have "inj_on tg_joy_button_number {c. 0 \<le> tg_joy_button_number c}" unfolding b
    by (simp add: inj_on_def tg_joy_button_number_def)
  moreover have "inj_on tg_joy_axis_number {c. 0 \<le> tg_joy_axis_number c}" unfolding a
    by (simp add: inj_on_def tg_joy_axis_number_def)
  moreover have "inj_on tg_dinput_button_code {c. 0 \<le> tg_joy_button_number c}" unfolding b
    by (simp add: inj_on_def tg_dinput_button_code_def)
  moreover have "tg_joy_button_number ` {c. 0 \<le> tg_joy_button_number c} = {0, 1, 2, 3, 4, 5, 6, 7, 8, 9, 10, 11}"
    unfolding b by (simp add: tg_joy_button_number_def) blast
  moreover have "tg_joy_axis_number ` {c. 0 \<le> tg_joy_axis_number c} = {0, 1, 2, 3, 4, 5, 6, 7}"
    unfolding a by (simp add: tg_joy_axis_number_def) blast
  ultimately show ?thesis by metis
qed

section \<open>Joystick values\<close>

text \<open>C35: A trigger position below 255 becomes the axis value position times 257 minus 32767, but full
  press overflows the signed 16 bit value: the axis jumps from 32511 to its minimum -32768.\<close>

theorem trigger_wraps_at_full_press:
  assumes "0 \<le> sint v" "sint v < 255" "c = TG_ABS_Z \<or> c = TG_ABS_RZ" "255 \<le> sint w"
  shows "sint (tg_joy_axis_value c v) = sint v * 257 - 32767 \<and> sint (tg_joy_axis_value c w) = -32768"
proof -
  obtain n where v: "v = word_of_int n" and n: "0 \<le> n" "n < 255"
  proof
    show "v = word_of_int (sint v)" by simp
  qed (use assms in auto)
  have s: "sint v = n" using v n by (simp add: signed_of_int signed_take_bit_int_eq_self)
  have "ucast (v * 257 - 32767 :: s32) = (word_of_int (n * 257 - 32767) :: s16)"
    unfolding v by transfer (simp add: take_bit_eq_mod mod_mod_cancel mod_simps)
  moreover have "tg_joy_axis_value c v = ucast (v * 257 - 32767 :: s32)"
    using n s assms(3) by (simp add: tg_joy_axis_value_def Let_def)
  moreover have "sint (word_of_int (n * 257 - 32767) :: s16) = n * 257 - 32767"
    using n by (simp add: signed_of_int signed_take_bit_int_eq_self del: of_int_diff of_int_mult)
  ultimately have "sint (tg_joy_axis_value c v) = n * 257 - 32767" by metis
  moreover have "tg_joy_axis_value c w = (if sint w = 255 then ucast (w * 257 - 32767) else ucast ((255 :: s32) * 257 - 32767))"
    using assms(3,4) by (auto simp: tg_joy_axis_value_def Let_def)
  moreover have "w = 255" if "sint w = 255" using that by (simp add: signed_word_eqI)
  moreover have "sint (ucast ((255 :: s32) * 257 - 32767) :: s16) = -32768" by code_simp
  ultimately show ?thesis using s by auto
qed

theorem trigger_wraps_at_full_press_witness:
  "sint (tg_joy_axis_value TG_ABS_Z 254) = 32511 \<and> sint (tg_joy_axis_value TG_ABS_Z 255) = -32768"
  using trigger_wraps_at_full_press [of 254 TG_ABS_Z 255] by simp

section \<open>Reading\<close>

lemma shim_read_joy:
  assumes "tg_find_fake_fd f sh = Some j" "fk_joydev (fake_fds sh ! j)" "8 \<le> n"
    "k_lookup k f = Some s" "shim_read dl env f True n sh k = Inr ((got, bytes), sh', k')"
  shows "\<exists>events fake' s'. joy_loop (real_read_fn (tg_init dl env sh) \<noteq> None) (n div 8) [] (fake_fds sh ! j) s =
      Inr ((got, events), fake', s') \<and> bytes = concat (map enc_js events) \<and>
    fake_fds sh' = (fake_fds sh)[j := fake'] \<and> k' = k\<lparr>fds := fd_update f s' (fds k)\<rparr>"
proof -
  let ?l = "joy_loop (real_read_fn (tg_init dl env sh) \<noteq> None) (n div 8) [] (fake_fds sh ! j) s"
  have f: "tg_find_fake_fd f (tg_init dl env sh) = Some j" using assms(1) by (simp add: tg_find_fake_fd_def)
  obtain x where x: "?l = Inr x" using assms(2-5) f
    by (cases ?l) (auto simp: shim_read_def Let_def on_sock_def)
  obtain g evs fk s' where "x = ((g, evs), fk, s')" by (metis prod.collapse)
  then show ?thesis using assms(2-5) f x by (auto simp: shim_read_def Let_def on_sock_def)
qed

lemma joy_events_time: "joy_event ini ev = [] \<or> (\<exists>x. joy_event ini ev = [x])"
  by (auto simp: joy_event_def Let_def)

text \<open>C25: A read from a joystick node loses, invents and reorders nothing: the bytes it takes from the
  bridge's stream, together with those kept from the last read, are the images of a sequence
  \<open>evs\<close> of input events and less than one more event, which is kept; what it stores for the caller is
  the images of the joystick events these convert to, no more than the buffer holds, and the result
  is their length; events before the first report carry the flag of the initial state.\<close>

theorem joystick_read_lossless:
  assumes "shim_inv sh k" "tg_find_fake_fd f sh = Some j" "fk_joydev (fake_fds sh ! j)" "8 \<le> n"
    "k_lookup k f = Some s" "shim_read dl env f True n sh k = Inr ((got, bytes), sh', k')"
  shows "\<exists>s' evs. k_lookup k' f = Some s' \<and>
    fk_raw (fake_fds sh ! j) @ rx_bytes (rx s) =
      concat (map enc_event evs) @ fk_raw (fake_fds sh' ! j) @ rx_bytes (rx s') \<and>
    length (fk_raw (fake_fds sh' ! j)) < 24 \<and>
    bytes = concat (map enc_js (joy_events (fk_initializing (fake_fds sh ! j)) evs)) \<and>
    length bytes \<le> n \<and> (if bytes \<noteq> [] then got = int (length bytes) else got \<le> 0) \<and>
    fk_initializing (fake_fds sh' ! j) = (fk_initializing (fake_fds sh ! j) \<and> \<not> (\<exists>e\<in>set evs. is_report e))"
proof -
  note e = find_fake_entry [OF assms(2)]
  have raw: "length (fk_raw (fake_fds sh ! j)) < 24" using assms(1) e(3) by (auto simp: shim_inv_def wf_entry_def)
  obtain events fake' s' where l: "joy_loop (real_read_fn (tg_init dl env sh) \<noteq> None) (n div 8) [] (fake_fds sh ! j) s =
      Inr ((got, events), fake', s')" and b: "bytes = concat (map enc_js events)"
    and t: "fake_fds sh' = (fake_fds sh)[j := fake']" "k' = k\<lparr>fds := fd_update f s' (fds k)\<rparr>"
    using shim_read_joy [OF assms(2-6)] by blast
  obtain evs where evs: "fk_raw (fake_fds sh ! j) @ rx_bytes (rx s) = concat (map enc_event evs) @ fk_raw fake' @ rx_bytes (rx s')"
    "events = joy_events (fk_initializing (fake_fds sh ! j)) evs"
    "length (fk_raw fake') < 24"
    "fk_initializing fake' = (fk_initializing (fake_fds sh ! j) \<and> \<not> (\<exists>e\<in>set evs. is_report e))"
    "length events \<le> n div 8" "if events \<noteq> [] then got = int (8 * length events) else got \<le> 0"
    using joy_loop_spec [OF l raw] by auto
  have len: "length bytes = 8 * length events" unfolding b by (rule jse.length_stream) simp
  have "fake_fds sh' ! j = fake'" using t(1) e(1) by simp
  moreover have "k_lookup k' f = Some s'" using t(2) assms(5) by (simp add: fdt.update_lookup)
  moreover have "length bytes \<le> n" using len evs(5) by simp
  moreover have "bytes = [] \<longleftrightarrow> events = []" using len by auto
  ultimately show ?thesis using evs b len by (intro exI [of _ s'] exI [of _ evs]) auto
qed

definition sx_read :: "(int \<times> bytes) \<times> shim \<times> kernel" where
  "sx_read = (case shim_read sx_loader sx_env 4 True 64 sx_shim sx_k of Inr x \<Rightarrow> x | Inl _ \<Rightarrow> ((-2, []), sx_shim, sx_k))"

text \<open>The example's first read is cut short by an empty stream after ten bytes.\<close>

theorem joystick_read_lossless_witness:
  "fst (fst sx_read) = -1 \<and> length (fk_raw (fake_fds (fst (snd sx_read)) ! 1)) < 24 \<and> length (snd (fst sx_read)) \<le> 64"
proof -
  have r: "fst (fst sx_read) = -1" by code_simp
  then have "shim_read sx_loader sx_env 4 True 64 sx_shim sx_k =
      Inr ((fst (fst sx_read), snd (fst sx_read)), fst (snd sx_read), snd (snd sx_read))"
    by (auto simp: sx_read_def split: sum.splits)
  moreover have "fk_joydev (fake_fds sx_shim ! 1)" by (simp add: sx_shim_parts sx_joy_entry_def del: One_nat_def)
  ultimately show ?thesis
    using joystick_read_lossless [OF sx_inv sx_shim_parts(5) _ _ sx_lookup(2), of 64] r by fastforce
qed

text \<open>C36: On a blocking descriptor a joystick read does not return what it has: with the image of a key
  event pending and room for two joystick events in the buffer, the call has converted
  an event and waits for the next, where the kernel's joystick interface would return.\<close>

theorem joystick_read_waits_for_full_buffer:
  assumes "tg_find_fake_fd f sh = Some j" "fk_joydev (fake_fds sh ! j)" "fk_raw (fake_fds sh ! j) = []"
    "real_read_fn sh \<noteq> None" "init_done sh" "\<not> nonblock s"
    "rx s = [Data (enc_event e)]" "joy_event (fk_initializing (fake_fds sh ! j)) e \<noteq> []" "k_lookup k f = Some s"
  shows "shim_read dl env f True 16 sh k = Inl Blocks \<and>
    (\<exists>out. shim_read dl env f True 8 sh k = Inr ((8, enc_js out), sh\<lparr>fake_fds := (fake_fds sh)[j := (fake_fds sh ! j)
        \<lparr>fk_initializing := fk_initializing (fake_fds sh ! j) \<and> \<not> is_report e\<rparr>]\<rparr>,
      k\<lparr>fds := fd_update f (s\<lparr>rx := []\<rparr>) (fds k)\<rparr>))"
proof -
  let ?f = "fake_fds sh ! j"
  let ?g = "?f\<lparr>fk_raw := enc_event e\<rparr>"
  have len: "length (enc_event e) = 24" by (rule evt.length_enc) simp
  then have ne: "enc_event e \<noteq> []" by auto
  have "fill_raw True ?g (s\<lparr>rx := []\<rparr>) = Inr (None, ?g, s\<lparr>rx := []\<rparr>)"
    using len by (subst fill_raw.simps) simp
  then have fill: "fill_raw True ?f s = Inr (None, ?g, s\<lparr>rx := []\<rparr>)"
    using assms(3,7) len ne by (subst fill_raw.simps) (simp add: sock_read_def sock_recv_def)
  obtain emit f2 out where cv: "tg_convert_joy_event (?g\<lparr>fk_raw := []\<rparr>) (dec_event (enc_event e)) = (emit, f2, out)"
    by (metis prod_cases3)
  have emit: "emit" using convert_is_joy_event(1) [OF cv] assms(8) evt.dec_enc [of e] by (auto split: if_splits)
  have f2: "f2 = ?f\<lparr>fk_initializing := fk_initializing ?f \<and> \<not> is_report e\<rparr>"
    using convert_is_joy_event(2) [OF cv] assms(3) evt.dec_enc [of e] by simp
  have "fill_raw True f2 (s\<lparr>rx := []\<rparr>) = Inl Blocks"
    using assms(3,6) f2 by (subst fill_raw.simps) (simp add: sock_read_def sock_recv_def)
  then have two: "joy_loop True 2 [out] f2 (s\<lparr>rx := []\<rparr>) = Inl Blocks" by (subst joy_loop.simps) simp
  have one: "joy_loop True 1 [out] f2 (s\<lparr>rx := []\<rparr>) = Inr ((8, [out]), f2, s\<lparr>rx := []\<rparr>)" by (subst joy_loop.simps) simp
  have start: "joy_loop True c [] ?f s = joy_loop True c [out] f2 (s\<lparr>rx := []\<rparr>)" if "0 < c" for c
    using that fill cv emit by (subst joy_loop.simps) simp
  have "joy_loop True 2 [] ?f s = Inl Blocks" "joy_loop True 1 [] ?f s = Inr ((8, [out]), f2, s\<lparr>rx := []\<rparr>)"
    using start [of 2] start [of 1] one two by simp_all
  then show ?thesis
    using assms f2 by (auto simp: shim_read_def Let_def on_sock_def tg_init_done numeral_2_eq_2)
qed

definition sx_press :: tg_input_event where
  "sx_press = \<lparr>ie_sec = 1, ie_usec = 2000, ie_type = TG_EV_KEY, ie_code = TG_BTN_SOUTH, ie_value = 1\<rparr>"

definition sx_blocking :: kernel where
  "sx_blocking = sx_k\<lparr>fds := replicate 4 (Some blank_sock) @ [Some (blank_sock\<lparr>rx := [Data (enc_event sx_press)]\<rparr>)]\<rparr>"

theorem joystick_read_waits_for_full_buffer_witness:
  "shim_read sx_loader sx_env 4 True 16 sx_shim sx_blocking = Inl Blocks"
proof -
  have "k_lookup sx_blocking 4 = Some (blank_sock\<lparr>rx := [Data (enc_event sx_press)]\<rparr>)"
    by (simp add: sx_blocking_def fd_lookup_def nth_append numeral_eq_Suc)
  moreover have "joy_event True sx_press \<noteq> []"
    by (simp add: joy_event_def sx_press_def tg_joy_button_number_def Let_def)
  ultimately show ?thesis
    using joystick_read_waits_for_full_buffer [OF sx_shim_parts(5), of "blank_sock\<lparr>rx := [Data (enc_event sx_press)]\<rparr>" sx_press sx_blocking]
      sx_shim_parts by (simp add: sx_joy_entry_def blank_sock_def)
qed

lemma rename_length: "length b = 24 \<Longrightarrow> length (rename_event b) = 24"
  by (simp add: rename_event_def Let_def evt.length_enc)

lemma rename_image:
  "rename_event (enc_event e) = enc_event (if ie_type e = TG_EV_KEY then e\<lparr>ie_code := tg_dinput_button_code (ie_code e)\<rparr> else e)"
  by (simp add: rename_event_def Let_def evt.dec_enc)

text \<open>Reading events in DirectInput mode renames the key codes of the complete events in the buffer and
  nothing else: time, type, value, every other event, the trailing partial event and the length stay
  as the bridge sent them.\<close>

theorem dinput_read_renames_keys:
  assumes "length rest < 24"
  shows "rename_buffer (concat (map enc_event evs) @ rest) =
    concat (map enc_event (map (\<lambda>e. if ie_type e = TG_EV_KEY
      then e\<lparr>ie_code := tg_dinput_button_code (ie_code e)\<rparr> else e) evs)) @ rest \<and>
    length (rename_buffer (concat (map enc_event evs) @ rest)) = length (concat (map enc_event evs) @ rest)"
proof -
  have c: "chunks 24 (concat (map enc_event evs) @ rest) = map enc_event evs"
    by (rule evt.chunks_stream) (use assms in simp_all)
  have l: "leftover 24 (concat (map enc_event evs) @ rest) = rest"
    using assms by (induction evs) (simp_all add: leftover_frame evt.length_enc)
  have len: "length (concat (map enc_event xs)) = 24 * length xs" for xs by (rule evt.length_stream) simp
  let ?r = "map (\<lambda>e. if ie_type e = TG_EV_KEY then e\<lparr>ie_code := tg_dinput_button_code (ie_code e)\<rparr> else e) evs"
  have "concat (map rename_event (map enc_event evs)) = concat (map enc_event ?r)"
    by (simp add: rename_image comp_def)
  moreover have "length (concat (map enc_event ?r)) = length (concat (map enc_event evs))" by (simp only: len length_map)
  ultimately show ?thesis unfolding rename_buffer_def c l by simp
qed

theorem dinput_read_renames_keys_witness:
  "rename_buffer (enc_event sx_press @ [1, 2]) = enc_event (sx_press\<lparr>ie_code := TG_BTN_TRIGGER\<rparr>) @ [1, 2]"
  using dinput_read_renames_keys [of "[1, 2]" "[sx_press]"] by (simp add: sx_press_def tg_dinput_button_code_def)

section \<open>Closing\<close>

text \<open>C27: Closing a descriptor forgets it completely: it is no longer a fake descriptor and no longer open,
  no effect slot belongs to it any more; every other descriptor keeps its entry, its socket and
  its effects.\<close>

theorem close_forgets:
  assumes "shim_inv sh k" "shim_close dl env f sh k = (r, sh', k')" "real_close_fn (tg_init dl env sh) \<noteq> None"
    and "g \<noteq> f" "i < 16" "es_fd (effect_slots sh ! i) = g"
  shows "fake_at f (fake_fds sh') = None \<and> k_lookup k' f = None \<and>
    (\<forall>s\<in>set (effect_slots sh'). \<not> (es_used s \<and> es_fd s = f)) \<and>
    fake_at g (fake_fds sh') = fake_at g (fake_fds sh) \<and> k_lookup k' g = k_lookup k g \<and>
    effect_slots sh' ! i = effect_slots sh ! i"
proof -
  note e = shim_close_effect [OF assms(2)]
  have w: "wf_fakes (fake_fds sh)" and len: "length (effect_slots sh) = 16"
    using assms(1) by (simp_all add: shim_inv_def)
  have "\<not> (es_used s \<and> es_fd s = f)" if "s \<in> set (effect_slots sh')" for s
    using closed_slots_owner [OF assms(1), of s f] that e(2) by auto
  then show ?thesis
    using e(3) [OF assms(4)] e(4) [OF assms(3)] fakes.del_lookup [OF w] closed_slots_other [OF len assms(5), of f] assms(4,6)
    by (simp add: e(1,2))
qed

definition sx_closed :: "int \<times> shim \<times> kernel" where
  "sx_closed = shim_close sx_loader sx_env 4 sx_shim sx_k"

theorem close_forgets_witness:
  "fake_at 4 (fake_fds (fst (snd sx_closed))) = None \<and> effect_slots (fst (snd sx_closed)) ! 0 = sx_slot"
proof -
  have "shim_close sx_loader sx_env 4 sx_shim sx_k = (fst sx_closed, fst (snd sx_closed), snd (snd sx_closed))"
    by (simp add: sx_closed_def)
  then show ?thesis
    using close_forgets [OF sx_inv, of sx_loader sx_env 4 "fst sx_closed" "fst (snd sx_closed)" "snd (snd sx_closed)" 3 0]
      tg_init_done [OF sx_shim_parts(1), of sx_loader sx_env] sx_shim_parts
    by (simp add: sx_slot_def)
qed

section \<open>Transparency\<close>

text \<open>C33: For everything that is not its own the shim is transparent: once initialised, with the symbols
  found and the backend enabled, opening another path and \<open>ioctl\<close>, read, write and close on another
  descriptor give exactly the result of the real function and change nothing in the shim.\<close>

theorem shim_transparent:
  assumes "init_done sh" "tg_find_fake_fd f sh = None" "fake_node path = None" "tg_backend_enabled env"
    and "env ''TERMUX_GAMEPAD_DEBUG'' = None" "real_open_fn sh = Some so" "real_ioctl_fn sh = Some si"
    and "real_read_fn sh = Some sr" "real_write_fn sh = Some sw" "real_close_fn sh = Some sc"
  shows "shim_open lc dl env path flags mode sh k = Inr (fst (lc_open lc so path flags mode k), sh, snd (lc_open lc so path flags mode k)) \<and>
    shim_ioctl lc dl env f req arg mem sh k = (fst (lc_ioctl lc f req arg mem k), fst (snd (lc_ioctl lc f req arg mem k)),
      sh, snd (snd (lc_ioctl lc f req arg mem k))) \<and>
    shim_read dl env f buffer n sh k = bindr (k_read f buffer n k) (\<lambda>(r, k'). Inr (r, sh, k')) \<and>
    shim_write dl env f (Some bs) n sh k = (fst (k_write f (take n bs) k), sh, snd (k_write f (take n bs) k)) \<and>
    shim_close dl env f sh k = (if k_lookup k f = None then -1 else 0, sh, k_close f k)"
proof -
  have del: "tg_del_fake_fd f sh = sh" using assms(2) by (simp add: tg_del_fake_fd_def)
  have dbg: "tg_debug_open_path env path sh k = k" using assms(5) by (simp add: tg_debug_open_path_def)
  show ?thesis
    using assms del dbg
    by (simp add: shim_open_def tg_open_common_def call_open_def shim_ioctl_def shim_read_def shim_write_def
        shim_close_def tg_init_done k_close_result_def Let_def split_beta)
qed

theorem shim_transparent_witness:
  "shim_write sx_loader sx_env 0 (Some [1]) 1 sx_shim sx_k = (1, sx_shim, snd (k_write 0 [1] sx_k))"
proof -
  have a: "tg_find_fake_fd 0 sx_shim = None" "real_open_fn sx_shim = Some Sym_open"
    "real_ioctl_fn sx_shim = Some Sym_ioctl" "real_write_fn sx_shim = Some Sym_write"
    by (simp_all add: sx_shim_def shim_loaded_def tg_find_fake_fd_def sx_entry_def sx_joy_entry_def)
       (simp_all add: tg_init_def Let_def shim_loaded_def dlsym_def sx_loader_def)
  have b: "fake_node None = None" "tg_backend_enabled sx_env" "sx_env ''TERMUX_GAMEPAD_DEBUG'' = None"
    by (simp_all add: fake_node_def tg_backend_enabled_def termux_gamepad_get_backend_def sx_env_def)
  have "fst (k_write 0 [1] sx_k) = 1" by code_simp
  then show ?thesis
    using shim_transparent [OF sx_shim_parts(1) a(1) b a(2,3) sx_shim_parts(9) a(4) sx_shim_parts(8),
        where lc = sx_libc and dl = sx_loader and flags = 0 and mode = 0 and req = 0 and arg = 0 and mem = "[]" and
          k = sx_k and buffer = True and n = 1 and bs = "[1]"]
    by simp
qed

text \<open>C34: The first \<open>open\<close> a process makes through the shim never reaches the real function: the pointer is
  read before \<open>tg_init\<close> looks it up. With the backend enabled opening any ordinary path fails with -1,
  with the backend switched off the call goes through a null pointer; the very same call made again
  reaches the C library.\<close>

theorem first_open_misses_libc:
  assumes "fake_node path = None" "env ''TERMUX_GAMEPAD_DEBUG'' = None" "dl Sym_open"
  shows "shim_open lc dl env path flags mode shim_loaded k =
      (if tg_backend_enabled env then Inr (-1, tg_init dl env shim_loaded, k) else Inl NullCall) \<and>
    shim_open lc dl env path flags mode (tg_init dl env shim_loaded) k =
      Inr (fst (lc_open lc Sym_open path flags mode k), tg_init dl env shim_loaded, snd (lc_open lc Sym_open path flags mode k))"
proof -
  have dbg: "tg_debug_open_path env path sh k = k" for sh using assms(2) by (simp add: tg_debug_open_path_def)
  have "real_open_fn shim_loaded = None" "real_open_fn (tg_init dl env shim_loaded) = Some Sym_open"
    using assms(3) by (simp_all add: shim_loaded_def tg_init_def Let_def dlsym_def)
  then show ?thesis using assms(1) dbg
    by (simp add: shim_open_def tg_open_common_def call_open_def Let_def split_beta)
qed

theorem first_open_misses_libc_witness:
  "shim_open sx_libc sx_loader sx_env (Some (lit ''/etc/hosts'')) 0 0 shim_loaded sx_kernel =
     Inr (-1, tg_init sx_loader sx_env shim_loaded, sx_kernel)"
proof -
  have "fake_node (Some (lit ''/etc/hosts'')) = None" by code_simp
  moreover have "tg_backend_enabled sx_env" "sx_env ''TERMUX_GAMEPAD_DEBUG'' = None" "sx_loader Sym_open"
    by (simp_all add: tg_backend_enabled_def termux_gamepad_get_backend_def sx_env_def sx_loader_def)
  ultimately show ?thesis using first_open_misses_libc by simp
qed

end
