(* ===== verification/BridgeState.thy ===== *)
theory BridgeState
  imports Protocol Kernel
begin

text \<open>
  The state of the bridge daemon, \<open>src/src/lorie_evdev_bridge.c\<close>, and the part of it that touches
  neither sockets nor the X server: the client slots, the state of the pad, the conversion of XI2
  valuators and button details to evdev codes and values, and the events the daemon builds.

  The file's statics are one record \<open>bridge\<close>; the descriptors it owns live in its \<open>kern\<close>. What the
  daemon asks of the outside is the parameter \<open>host\<close>: the monotonic clock (its \<open>n\<close>-th reading) and
  the answers of Xlib and the X server (to the \<open>n\<close>-th question). \<open>x_sent\<close> records the
  LORIE-CONTROLLER requests written to the display connection, with the major opcode they carry.

  A C \<open>int\<close> that holds an axis or a hat value is an \<open>int\<close>; \<open>axis_bounds\<close> and the invariant show that
  these values are small. The index \<open>i\<close> of a slot stands for the pointer \<open>&clients[i]\<close>.
\<close>

section \<open>State\<close>

abbreviation (input) MAX_CLIENTS :: nat where "MAX_CLIENTS \<equiv> 16"
abbreviation (input) CLIENT_BUFFER_SIZE :: nat where "CLIENT_BUFFER_SIZE \<equiv> 16384"
abbreviation (input) CONTROL_BUFFER_SIZE :: nat where "CONTROL_BUFFER_SIZE \<equiv> 256"

datatype client_kind = CLIENT_UNINITIALIZED | CLIENT_EVENTS | CLIENT_MONITOR

record client =
  cl_fd :: fd
  cl_output :: bytes
  cl_control :: bytes
  cl_rumble_low :: u16
  cl_rumble_high :: u16
  cl_rumble_expires_ms :: u64
  cl_kind :: client_kind

record gamepad_state =
  gs_axes :: "int list"
  gs_buttons :: u32
  gs_hat_x :: int
  gs_hat_y :: int

definition zero_state :: gamepad_state where
  "zero_state = \<lparr>gs_axes = replicate 6 0, gs_buttons = 0, gs_hat_x = 0, gs_hat_y = 0\<rparr>"

text \<open>An unused slot, as \<open>close_client\<close> leaves it.\<close>

definition unused_client :: client where
  "unused_client = \<lparr>cl_fd = -1, cl_output = [], cl_control = [], cl_rumble_low = 0, cl_rumble_high = 0,
     cl_rumble_expires_ms = 0, cl_kind = CLIENT_UNINITIALIZED\<rparr>"

subsection \<open>The LORIE-CONTROLLER extension\<close>

abbreviation (input) LORIE_CONTROLLER_MAJOR_VERSION :: u16 where "LORIE_CONTROLLER_MAJOR_VERSION \<equiv> 1"
abbreviation (input) LORIE_CONTROLLER_MINOR_VERSION :: u16 where "LORIE_CONTROLLER_MINOR_VERSION \<equiv> 2"
abbreviation (input) LORIE_CONTROLLER_CAP_RUMBLE :: u16 where "LORIE_CONTROLLER_CAP_RUMBLE \<equiv> 1"
abbreviation (input) LORIE_CONTROLLER_EFFECT_MAIN :: u8 where "LORIE_CONTROLLER_EFFECT_MAIN \<equiv> 0"

text \<open>The requests, with the fields the daemon fills in.\<close>

datatype lorie_request =
    QueryVersion (qv_major: u16) (qv_minor: u16)
  | QueryCapabilities (qc_device: u16)
  | Rumble (ru_device: u16) (ru_effect: u8) (ru_low: u16) (ru_high: u16) (ru_duration_ms: u32)
  | StopRumble (sr_device: u16)

record lorie_capabilities_reply =
  qr_deviceId :: u16
  qr_capabilities :: u16
  qr_present :: u8
  qr_numAxes :: u8
  qr_numButtons :: u8
  qr_numHats :: u8
  qr_mapping :: u32
  qr_vendorId :: u32
  qr_productId :: u32
  qr_inputMode :: u8

record xi_device_info =
  xd_deviceid :: int
  xd_use :: int
  xd_name :: "cstring option"

record timespec =
  tv_sec :: u64
  tv_nsec :: u64

record host =
  clock :: "nat \<Rightarrow> timespec"
  xi_devices :: "nat \<Rightarrow> xi_device_info list option"
  capabilities_reply :: "nat \<Rightarrow> u8 \<Rightarrow> u16 \<Rightarrow> lorie_capabilities_reply option"
  version_reply :: "nat \<Rightarrow> u8 \<Rightarrow> u16 option"
  xi_select :: "nat \<Rightarrow> int \<Rightarrow> int list \<Rightarrow> bool"

subsection \<open>The daemon\<close>

datatype fs_op = Unlink cstring | Bind cstring

record bridge =
  clients :: "client list"
  state :: gamepad_state
  x_display :: bool
  lorie_controller_opcode :: int
  lorie_device_id :: int
  lorie_capabilities :: u16
  active_rumble_low :: u16
  active_rumble_high :: u16
  device_descriptor :: tg_device_descriptor
  kern :: kernel
  x_sent :: "(u8 \<times> lorie_request) list"
  x_asked :: nat
  ticks :: nat
  fs_ops :: "fs_op list"

text \<open>The statics as the program is loaded, with the clients marked unused as \<open>main\<close> does first.\<close>

definition bridge_loaded :: "kernel \<Rightarrow> bridge" where
  "bridge_loaded k =
     \<lparr>clients = replicate MAX_CLIENTS unused_client, state = zero_state, x_display = False,
      lorie_controller_opcode = -1, lorie_device_id = -1, lorie_capabilities = 0,
      active_rumble_low = 0, active_rumble_high = 0,
      device_descriptor = zero_descriptor\<lparr>dd_magic := TG_DEVICE_MAGIC,
        dd_version := TG_CONTROL_VERSION, dd_device_id := -1\<rparr>,
      kern = k, x_sent = [], x_asked = 0, ticks = 0, fs_ops = []\<rparr>"

abbreviation slot :: "bridge \<Rightarrow> nat \<Rightarrow> client" where
  "slot b i \<equiv> clients b ! i"

definition set_slot :: "nat \<Rightarrow> client \<Rightarrow> bridge \<Rightarrow> bridge" where
  "set_slot i c b = b\<lparr>clients := (clients b)[i := c]\<rparr>"

section \<open>The clock\<close>

definition read_clock :: "host \<Rightarrow> bridge \<Rightarrow> timespec \<times> bridge" where
  "read_clock h b = (clock h (ticks b), b\<lparr>ticks := Suc (ticks b)\<rparr>)"

definition to_ms :: "timespec \<Rightarrow> u64" where
  "to_ms t = tv_sec t * 1000 + tv_nsec t div 1000000"

definition monotonic_ms :: "host \<Rightarrow> bridge \<Rightarrow> u64 \<times> bridge" where
  "monotonic_ms h b = (let (t, b) = read_clock h b in (to_ms t, b))"

section \<open>Events\<close>

definition timestamp_event :: "host \<Rightarrow> tg_input_event \<Rightarrow> bridge \<Rightarrow> tg_input_event \<times> bridge" where
  "timestamp_event h event b =
     (let (t, b) = read_clock h b
      in (event\<lparr>ie_sec := tv_sec t, ie_usec := tv_nsec t div 1000\<rparr>, b))"

text \<open>The array of events with its count is the list of the events stored so far.\<close>

definition append_event ::
  "host \<Rightarrow> u16 \<Rightarrow> u16 \<Rightarrow> int \<Rightarrow> tg_input_event list \<times> bridge \<Rightarrow> tg_input_event list \<times> bridge" where
  "append_event h ty code v eb =
     (case eb of (events, b) \<Rightarrow>
        (let (event, b) = timestamp_event h
               \<lparr>ie_sec = 0, ie_usec = 0, ie_type = 0, ie_code = 0, ie_value = 0\<rparr> b
         in (events @ [event\<lparr>ie_type := ty, ie_code := code, ie_value := word_of_int v\<rparr>], b)))"

section \<open>Axes\<close>

definition clamp_int :: "int \<Rightarrow> int \<Rightarrow> int \<Rightarrow> int" where
  "clamp_int v minimum maximum =
     (if v < minimum then minimum else if maximum < v then maximum else v)"

text \<open>
  A finite \<open>double\<close> is \<open>m * 2 powi e\<close>. XI2 valuators arrive as 32.32 fixed point numbers, so neither
  infinities nor NaN occur. The conversion to \<open>int\<close> drops the fraction; C leaves results outside the
  range of \<open>int\<close> undefined, the model takes what the AArch64 instruction gives, the nearest bound.
\<close>

datatype double = Dyadic (mant: int) (expo: int)

definition trunc_double :: "double \<Rightarrow> int" where
  "trunc_double d =
     (if 0 \<le> expo d then mant d * 2 ^ nat (expo d)
      else sgn (mant d) * (\<bar>mant d\<bar> div 2 ^ nat (- expo d)))"

definition double_to_int :: "double \<Rightarrow> int" where
  "double_to_int d = clamp_int (trunc_double d) (- 2147483648) 2147483647"

definition convert_axis :: "nat \<Rightarrow> double \<Rightarrow> int" where
  "convert_axis axis v =
     (if axis < 4 then clamp_int (double_to_int v) (- 32768) 32767
      else (clamp_int (double_to_int v) 0 32767 * 255 + 16383) div 32767)"

definition axis_code :: "nat \<Rightarrow> u16" where
  "axis_code axis = [TG_ABS_X, TG_ABS_Y, TG_ABS_RX, TG_ABS_RY, TG_ABS_Z, TG_ABS_RZ] ! axis"

section \<open>Buttons\<close>

definition button_code :: "nat \<Rightarrow> u16" where
  "button_code detail =
     (let codes = [0, TG_BTN_SOUTH, TG_BTN_EAST, TG_BTN_NORTH, TG_BTN_WEST, TG_BTN_TL, TG_BTN_TR,
                   TG_BTN_SELECT, TG_BTN_START, TG_BTN_THUMBL, TG_BTN_THUMBR, 0, 0, 0, 0,
                   TG_BTN_MODE, TG_BTN_C]
      in if detail < length codes then codes ! detail else 0)"

text \<open>The test \<open>(state.buttons & (1U << (detail - 1))) != 0\<close>.\<close>

definition pressed :: "gamepad_state \<Rightarrow> nat \<Rightarrow> bool" where
  "pressed st detail \<longleftrightarrow> gs_buttons st AND push_bit (detail - 1) 1 \<noteq> 0"

definition hat_value :: "gamepad_state \<Rightarrow> nat \<Rightarrow> nat \<Rightarrow> int" where
  "hat_value st negative_detail positive_detail =
     of_bool (pressed st positive_detail) - of_bool (pressed st negative_detail)"

section \<open>The snapshot\<close>

definition snapshot_buttons :: "(u16 \<times> nat) list" where
  "snapshot_buttons =
     zip [TG_BTN_SOUTH, TG_BTN_EAST, TG_BTN_NORTH, TG_BTN_WEST, TG_BTN_TL, TG_BTN_TR,
          TG_BTN_SELECT, TG_BTN_START, TG_BTN_THUMBL, TG_BTN_THUMBR, TG_BTN_MODE, TG_BTN_C]
         [1, 2, 3, 4, 5, 6, 7, 8, 9, 10, 15, 16]"

text \<open>The events \<open>send_snapshot\<close> puts into its array.\<close>

definition snapshot_events :: "host \<Rightarrow> bridge \<Rightarrow> tg_input_event list \<times> bridge" where
  "snapshot_events h b =
     (let st = state b;
          eb = fold (\<lambda>i. append_event h TG_EV_ABS (axis_code i) (gs_axes st ! i)) [0..<6] ([], b);
          eb = append_event h TG_EV_ABS TG_ABS_HAT0X (gs_hat_x st) eb;
          eb = append_event h TG_EV_ABS TG_ABS_HAT0Y (gs_hat_y st) eb;
          eb = fold (\<lambda>(code, detail). append_event h TG_EV_KEY code (of_bool (pressed st detail)))
                 snapshot_buttons eb
      in append_event h TG_EV_SYN TG_SYN_REPORT 0 eb)"

section \<open>X errors\<close>

record x_error_event =
  xr_request_code :: int
  xr_error_code :: int
  xr_minor_code :: int

text \<open>Errors of the daemon's own requests are reported and ignored, all others go to the handler
  that was installed before.\<close>

definition handle_x_error :: "bridge \<Rightarrow> (x_error_event \<Rightarrow> int) option \<Rightarrow> x_error_event \<Rightarrow> int" where
  "handle_x_error b previous event =
     (if xr_request_code event = lorie_controller_opcode b then 0
      else case previous of None \<Rightarrow> 0 | Some handler \<Rightarrow> handler event)"

end
