(* ===== verification/BridgeCalls.thy ===== *)
theory BridgeCalls
  imports BridgeState
begin

text \<open>
  The operations of \<open>src/src/lorie_evdev_bridge.c\<close> that change the daemon's state: the output
  queues, rumble arbitration, control messages, hotplug, X events, the server socket and the main
  loop.

  No operation of the daemon blocks (\<open>poll\<close> apart), so all of them are total. \<open>close_client\<close> may
  call \<open>update_rumble\<close>, which walks all slots: the operations therefore take the index of a slot and
  the whole state, never a copy of the slot.
\<close>

section \<open>LORIE-CONTROLLER requests\<close>

definition x_request :: "lorie_request \<Rightarrow> bridge \<Rightarrow> bridge" where
  "x_request r b = b\<lparr>x_sent := x_sent b @ [(word_of_int (lorie_controller_opcode b), r)]\<rparr>"

text \<open>The number of the next question to the X server.\<close>

definition x_ask :: "bridge \<Rightarrow> nat \<times> bridge" where
  "x_ask b = (x_asked b, b\<lparr>x_asked := Suc (x_asked b)\<rparr>)"

definition query_lorie_version :: "host \<Rightarrow> bridge \<Rightarrow> bool \<times> bridge" where
  "query_lorie_version h b =
     (let b = x_request (QueryVersion LORIE_CONTROLLER_MAJOR_VERSION LORIE_CONTROLLER_MINOR_VERSION) b;
          (n, b) = x_ask b
      in case version_reply h n (word_of_int (lorie_controller_opcode b)) of
           None \<Rightarrow> (False, b)
         | Some major \<Rightarrow> (major = LORIE_CONTROLLER_MAJOR_VERSION, b))"

definition query_lorie_capabilities ::
  "host \<Rightarrow> int \<Rightarrow> bridge \<Rightarrow> lorie_capabilities_reply option \<times> bridge" where
  "query_lorie_capabilities h device_id b =
     (let b = x_request (QueryCapabilities (word_of_int device_id)) b;
          (n, b) = x_ask b
      in case capabilities_reply h n (word_of_int (lorie_controller_opcode b)) (word_of_int device_id) of
           None \<Rightarrow> (None, b)
         | Some reply \<Rightarrow>
             if qr_present reply = 0 \<or> int (unat (qr_deviceId reply)) \<noteq> device_id then (None, b)
             else (Some reply, b))"

text \<open>The result is false where the code returns -1.\<close>

definition send_lorie_rumble :: "u16 \<Rightarrow> u16 \<Rightarrow> u32 \<Rightarrow> bridge \<Rightarrow> bool \<times> bridge" where
  "send_lorie_rumble low high duration_ms b =
     (if \<not> x_display b \<or> lorie_controller_opcode b < 0 \<or> lorie_device_id b < 0 \<or>
         lorie_capabilities b AND LORIE_CONTROLLER_CAP_RUMBLE = 0
      then (False, b)
      else if low = 0 \<and> high = 0
      then (True, x_request (StopRumble (word_of_int (lorie_device_id b))) b)
      else (True, x_request (Rumble (word_of_int (lorie_device_id b)) LORIE_CONTROLLER_EFFECT_MAIN
                               low high duration_ms) b))"

section \<open>Rumble arbitration\<close>

text \<open>The loop over the slots: expired requests are cleared, the strongest of the others win and
  the longest remaining time counts.\<close>

fun rumble_scan :: "u64 \<Rightarrow> client list \<Rightarrow> u16 \<Rightarrow> u16 \<Rightarrow> u64 \<Rightarrow> client list \<times> u16 \<times> u16 \<times> u64" where
  "rumble_scan now [] low high longest = ([], low, high, longest)"
| "rumble_scan now (c # cs) low high longest =
     (if cl_fd c < 0 \<or> (cl_rumble_low c = 0 \<and> cl_rumble_high c = 0) then
        (case rumble_scan now cs low high longest of (cs', r) \<Rightarrow> (c # cs', r))
      else if cl_rumble_expires_ms c \<le> now then
        (case rumble_scan now cs low high longest of (cs', r) \<Rightarrow>
           (c\<lparr>cl_rumble_low := 0, cl_rumble_high := 0, cl_rumble_expires_ms := 0\<rparr> # cs', r))
      else
        (let remaining = cl_rumble_expires_ms c - now;
             low = (if low < cl_rumble_low c then cl_rumble_low c else low);
             high = (if high < cl_rumble_high c then cl_rumble_high c else high);
             longest = (if longest < remaining then remaining else longest)
         in case rumble_scan now cs low high longest of (cs', r) \<Rightarrow> (c # cs', r)))"

definition rumble_duration :: "u64 \<Rightarrow> u32" where
  "rumble_duration longest =
     (let duration = (if 0xffffffff < longest then 0xffffffff else ucast longest)
      in if duration = 0 then 1 else duration)"

definition update_rumble :: "host \<Rightarrow> bool \<Rightarrow> bridge \<Rightarrow> bridge" where
  "update_rumble h force b =
     (let (now, b) = monotonic_ms h b;
          (cs, low, high, longest) = rumble_scan now (clients b) 0 0 0;
          b = b\<lparr>clients := cs\<rparr>;
          b = (if low = 0 \<and> high = 0 then
                 (if active_rumble_low b \<noteq> 0 \<or> active_rumble_high b \<noteq> 0
                  then snd (send_lorie_rumble 0 0 0 b) else b)
               else if force \<or> low \<noteq> active_rumble_low b \<or> high \<noteq> active_rumble_high b
               then snd (send_lorie_rumble low high (rumble_duration longest) b)
               else b)
      in b\<lparr>active_rumble_low := low, active_rumble_high := high\<rparr>)"

section \<open>Client slots\<close>

text \<open>\<open>set_nonblocking\<close>: false where the code returns -1.\<close>

definition bridge_set_nonblocking :: "fd \<Rightarrow> kernel \<Rightarrow> bool \<times> kernel" where
  "bridge_set_nonblocking f k =
     (case k_set_nonblock f k of
        (Some e, k) \<Rightarrow> (False, k)
      | (None, k) \<Rightarrow> (True, k_set_cloexec f k))"

definition close_client :: "host \<Rightarrow> nat \<Rightarrow> bridge \<Rightarrow> bridge" where
  "close_client h i b =
     (let c = slot b i;
          had_rumble = (cl_rumble_low c \<noteq> 0 \<or> cl_rumble_high c \<noteq> 0);
          b = (if 0 \<le> cl_fd c then b\<lparr>kern := k_close (cl_fd c) (kern b)\<rparr> else b);
          b = set_slot i unused_client b
      in if had_rumble \<and> x_display b then update_rumble h True b else b)"

text \<open>The loop of \<open>flush_client\<close> over the unsent bytes and the socket.\<close>

function flush_loop :: "bytes \<Rightarrow> sock \<Rightarrow> (bool \<times> bytes) \<times> sock" where
  "flush_loop out s =
     (if out = [] then ((True, []), s)
      else case sock_send out s of
        (Wrote n, s') \<Rightarrow> if 0 < n then flush_loop (drop n out) s' else ((False, out), s')
      | (SendErr e, s') \<Rightarrow>
          if e = EINTR then flush_loop out s'
          else if e = EAGAIN then ((True, out), s') else ((False, out), s')
      | (SendAgain p, s') \<Rightarrow> ((True, out), s'))"
  by pat_completeness auto
termination
proof (relation "measures [\<lambda>(out, s). length (tx s), \<lambda>(out, s). length out]", goal_cases)
  case 1
  show ?case by simp
next
  case (2 out s a s' n)
  then show ?case using sock_send_tx [of out s a s'] by (cases "n = length out")
    (auto simp: sock_send_def split: list.splits send_ans.splits)
qed (auto dest: sock_send_tx [OF sym])

declare flush_loop.simps [simp del]

definition flush_client :: "nat \<Rightarrow> bridge \<Rightarrow> bool \<times> bridge" where
  "flush_client i b =
     (let c = slot b i in
      case k_lookup (kern b) (cl_fd c) of
        None \<Rightarrow> (cl_output c = [], b)
      | Some s \<Rightarrow>
          (case flush_loop (cl_output c) s of ((r, out), s') \<Rightarrow>
             (r, (set_slot i (c\<lparr>cl_output := out\<rparr>) b)
                   \<lparr>kern := (kern b)\<lparr>fds := fd_update (cl_fd c) s' (fds (kern b))\<rparr>\<rparr>)))"

definition queue_bytes :: "nat \<Rightarrow> bytes \<Rightarrow> bridge \<Rightarrow> bool \<times> bridge" where
  "queue_bytes i data b =
     (let c = slot b i in
      if CLIENT_BUFFER_SIZE - length (cl_output c) < length data then (False, b)
      else flush_client i (set_slot i (c\<lparr>cl_output := cl_output c @ data\<rparr>) b))"

definition queue_events :: "nat \<Rightarrow> tg_input_event list \<Rightarrow> bridge \<Rightarrow> bool \<times> bridge" where
  "queue_events i events b = queue_bytes i (concat (map enc_event events)) b"

text \<open>One turn of the broadcast loops: queue for a client of this kind, close it when that fails.\<close>

definition offer :: "host \<Rightarrow> client_kind \<Rightarrow> bytes \<Rightarrow> nat \<Rightarrow> bridge \<Rightarrow> bridge" where
  "offer h kind data i b =
     (if 0 \<le> cl_fd (slot b i) \<and> cl_kind (slot b i) = kind
      then (case queue_bytes i data b of (ok, b) \<Rightarrow> if ok then b else close_client h i b)
      else b)"

definition broadcast_events :: "host \<Rightarrow> tg_input_event list \<Rightarrow> bridge \<Rightarrow> bridge" where
  "broadcast_events h events b =
     fold (offer h CLIENT_EVENTS (concat (map enc_event events))) [0..<MAX_CLIENTS] b"

definition hotplug_message :: "u8 \<Rightarrow> bridge \<Rightarrow> tg_hotplug_message" where
  "hotplug_message action b =
     \<lparr>hm_magic = TG_HOTPLUG_MAGIC, hm_version = TG_CONTROL_VERSION, hm_action = action, hm_pad0 = 0,
      hm_descriptor = device_descriptor b\<rparr>"

definition broadcast_hotplug :: "host \<Rightarrow> u8 \<Rightarrow> bridge \<Rightarrow> bridge" where
  "broadcast_hotplug h action b =
     fold (offer h CLIENT_MONITOR (enc_hotplug (hotplug_message action b))) [0..<MAX_CLIENTS] b"

definition send_snapshot :: "host \<Rightarrow> nat \<Rightarrow> bridge \<Rightarrow> bridge" where
  "send_snapshot h i b =
     (case snapshot_events h b of (events, b) \<Rightarrow>
        (case queue_events i events b of (ok, b) \<Rightarrow> if ok then b else close_client h i b))"

section \<open>Control messages\<close>

text \<open>One message, after its bytes have been taken off the buffer; false where the code returns -1.\<close>

definition handle_control :: "host \<Rightarrow> nat \<Rightarrow> tg_control_message \<Rightarrow> bridge \<Rightarrow> bool \<times> bridge" where
  "handle_control h i message b =
     (if cm_command message = TG_CONTROL_RUMBLE then
        (let duration = (if cm_duration_ms message \<noteq> 0 then cm_duration_ms message else 2500);
             (now, b) = monotonic_ms h b;
             b = set_slot i ((slot b i)\<lparr>cl_rumble_low := cm_low_frequency message,
                                        cl_rumble_high := cm_high_frequency message,
                                        cl_rumble_expires_ms := now + ucast duration\<rparr>) b
         in (True, update_rumble h True b))
      else if cm_command message = TG_CONTROL_STOP_RUMBLE then
        (True, update_rumble h True
           (set_slot i ((slot b i)\<lparr>cl_rumble_low := 0, cl_rumble_high := 0, cl_rumble_expires_ms := 0\<rparr>) b))
      else if cm_command message = TG_CONTROL_QUERY_DESCRIPTOR then
        (case queue_bytes i (enc_descriptor (device_descriptor b))
                (set_slot i ((slot b i)\<lparr>cl_kind := CLIENT_EVENTS\<rparr>) b) of
           (ok, b) \<Rightarrow>
             if \<not> ok then (False, b)
             else (True, if dd_present (device_descriptor b) \<noteq> 0 then send_snapshot h i b else b))
      else if cm_command message = TG_CONTROL_MONITOR then
        queue_bytes i
          (enc_hotplug (hotplug_message
             (if dd_present (device_descriptor b) \<noteq> 0 then TG_HOTPLUG_ADD else TG_HOTPLUG_REMOVE) b))
          (set_slot i ((slot b i)\<lparr>cl_kind := CLIENT_MONITOR\<rparr>) b)
      else (False, b))"

text \<open>
  What an operation may do to slots it was not called for: free them, or change the queue, the
  rumble request and the kind of their clients. Input that waits to be parsed stays.
\<close>

definition slot_kept :: "client \<Rightarrow> client \<Rightarrow> bool" where
  "slot_kept c c' \<longleftrightarrow> (cl_fd c' = -1 \<and> cl_control c' = []) \<or> (cl_fd c' = cl_fd c \<and> cl_control c' = cl_control c)"

definition slots_kept :: "bridge \<Rightarrow> bridge \<Rightarrow> bool" where
  "slots_kept b b' \<longleftrightarrow> list_all2 slot_kept (clients b) (clients b')"

named_theorems kept

lemma slot_kept_refl [simp]: "slot_kept c c"
  by (simp add: slot_kept_def)

lemma slots_kept_refl [simp]: "slots_kept b b"
  by (simp add: slots_kept_def list.rel_refl)

lemma slots_kept_trans: "slots_kept a b \<Longrightarrow> slots_kept b c \<Longrightarrow> slots_kept a c"
  unfolding slots_kept_def
  by (rule list_all2_trans [where ?P1.0 = slot_kept and ?P2.0 = slot_kept])
     (auto simp: slot_kept_def)

lemma slots_kept_same: "clients b = clients a \<Longrightarrow> slots_kept a b"
  by (simp add: slots_kept_def list.rel_refl)

lemma slots_kept_upd:
  assumes "slot_kept (slot b i) c"
  shows "slots_kept b (set_slot i c b)"
  using assms list_all2_update_cong [of slot_kept "clients b" "clients b" "slot b i" c i]
  by (simp add: slots_kept_def set_slot_def list.rel_refl)

lemma set_slot_kern [simp]:
  "clients (set_slot i c b) = (clients b)[i := c]"
  "kern (set_slot i c b) = kern b" "state (set_slot i c b) = state b"
  "x_display (set_slot i c b) = x_display b" "x_sent (set_slot i c b) = x_sent b"
  "lorie_device_id (set_slot i c b) = lorie_device_id b"
  "lorie_capabilities (set_slot i c b) = lorie_capabilities b"
  "lorie_controller_opcode (set_slot i c b) = lorie_controller_opcode b"
  "active_rumble_low (set_slot i c b) = active_rumble_low b"
  "active_rumble_high (set_slot i c b) = active_rumble_high b"
  "device_descriptor (set_slot i c b) = device_descriptor b"
  "x_asked (set_slot i c b) = x_asked b" "ticks (set_slot i c b) = ticks b"
  "fs_ops (set_slot i c b) = fs_ops b"
  by (simp_all add: set_slot_def)

lemma rumble_scan_kept: "rumble_scan now cs low high longest = (cs', r) \<Longrightarrow> list_all2 slot_kept cs cs'"
proof (induction now cs low high longest arbitrary: cs' r rule: rumble_scan.induct)
  case (1 now low high longest)
  then show ?case by simp
next
  case (2 now c cs low high longest)
  show ?case
    using "2.prems" "2.IH" by (auto simp: Let_def slot_kept_def split: if_splits prod.splits)
qed

lemma send_lorie_rumble_clients [simp]: "clients (snd (send_lorie_rumble l g d b)) = clients b"
  by (simp add: send_lorie_rumble_def x_request_def)

lemma update_rumble_kept [kept]: "slots_kept b (update_rumble h force b)"
proof -
  obtain cs r where scan: "rumble_scan (to_ms (clock h (ticks b))) (clients b) 0 0 0 = (cs, r)"
    by (cases "rumble_scan (to_ms (clock h (ticks b))) (clients b) 0 0 0")
  then have "clients (update_rumble h force b) = cs"
    by (cases r) (simp add: update_rumble_def monotonic_ms_def read_clock_def Let_def)
  with rumble_scan_kept [OF scan] show ?thesis by (simp add: slots_kept_def)
qed

lemma close_client_kept [kept]: "slots_kept b (close_client h i b)"
proof -
  let ?b = "set_slot i unused_client (if 0 \<le> cl_fd (slot b i) then b\<lparr>kern := k_close (cl_fd (slot b i)) (kern b)\<rparr> else b)"
  have "slots_kept b ?b"
    using slots_kept_upd [of b i unused_client] by (simp add: slots_kept_def slot_kept_def unused_client_def)
  moreover have "slots_kept ?b (close_client h i b)"
    by (simp add: close_client_def Let_def update_rumble_kept)
  ultimately show ?thesis by (rule slots_kept_trans)
qed

lemma flush_client_kept: "slots_kept b (snd (flush_client i b))"
  using slots_kept_upd [of b i]
  by (auto simp: flush_client_def Let_def slots_kept_def slot_kept_def list.rel_refl
        split: option.splits prod.splits)

lemma queue_bytes_kept [kept]: "slots_kept b (snd (queue_bytes i data b))"
proof -
  let ?b = "set_slot i ((slot b i)\<lparr>cl_output := cl_output (slot b i) @ data\<rparr>) b"
  have "slots_kept b ?b" by (rule slots_kept_upd) (simp add: slot_kept_def)
  from slots_kept_trans [OF this flush_client_kept] show ?thesis
    by (simp add: queue_bytes_def Let_def)
qed

lemma offer_kept: "slots_kept b (offer h kind data i b)"
  using queue_bytes_kept [of b i data] close_client_kept [of "snd (queue_bytes i data b)" h i]
  by (auto simp: offer_def split: prod.splits intro: slots_kept_trans)

lemma fold_kept:
  assumes "\<And>x b. slots_kept b (f x b)"
  shows "slots_kept b (fold f xs b)"
proof (induction xs arbitrary: b)
  case Nil
  show ?case by simp
next
  case (Cons x xs)
  then show ?case using assms slots_kept_trans by (metis fold_simps(2))
qed

lemma broadcast_kept [kept]:
  "slots_kept b (broadcast_events h events b)" "slots_kept b (broadcast_hotplug h action b)"
  by (simp_all add: broadcast_events_def broadcast_hotplug_def fold_kept offer_kept del: upt.simps)

lemma append_event_clock [simp]:
  "snd (append_event h ty code v eb) = (snd eb)\<lparr>ticks := Suc (ticks (snd eb))\<rparr>"
  by (cases eb) (simp add: append_event_def timestamp_event_def read_clock_def)

lemma append_events_clock:
  "snd (fold (\<lambda>x. append_event h ty (f x) (g x)) xs eb) = (snd eb)\<lparr>ticks := ticks (snd eb) + length xs\<rparr>"
  by (induction xs arbitrary: eb) auto

lemma length_snapshot_buttons: "length snapshot_buttons = 12"
  by (simp add: snapshot_buttons_def)

lemma snapshot_events_clock: "snd (snapshot_events h b) = b\<lparr>ticks := ticks b + 21\<rparr>"
  unfolding snapshot_events_def Let_def split_def append_event_clock append_events_clock length_snapshot_buttons
  by simp

lemma snapshot_events_clients [simp]: "clients (snd (snapshot_events h b)) = clients b"
  by (simp add: snapshot_events_clock)

lemma send_snapshot_kept [kept]: "slots_kept b (send_snapshot h i b)"
proof -
  obtain events b1 ok b2 where e: "snapshot_events h b = (events, b1)" "queue_events i events b1 = (ok, b2)"
    by fastforce
  then have 1: "slots_kept b b1" using snapshot_events_clients [of h b] by (simp add: slots_kept_same)
  have 2: "slots_kept b1 b2" using e(2) queue_bytes_kept [of b1 i] by (simp add: queue_events_def) (metis snd_conv)
  have 3: "slots_kept b2 (send_snapshot h i b)"
    using e by (simp add: send_snapshot_def close_client_kept)
  from 1 2 3 show ?thesis by (blast intro: slots_kept_trans)
qed

lemma handle_control_kept: "slots_kept b (snd (handle_control h i m b))"
proof -
  have upd: "slots_kept b (set_slot i c (b\<lparr>ticks := n\<rparr>))"
    if "cl_fd c = cl_fd (slot b i)" "cl_control c = cl_control (slot b i)" for c n
    using that slots_kept_upd [of "b\<lparr>ticks := n\<rparr>" i c] by (simp add: slots_kept_def slot_kept_def)
  have here: "slots_kept b (set_slot i c b)"
    if "cl_fd c = cl_fd (slot b i)" "cl_control c = cl_control (slot b i)" for c
    using upd [OF that, of "ticks b"] by simp
  let ?q = "queue_bytes i (enc_descriptor (device_descriptor b)) (set_slot i ((slot b i)\<lparr>cl_kind := CLIENT_EVENTS\<rparr>) b)"
  have query: "slots_kept b (snd ?q)"
    by (rule slots_kept_trans [OF here queue_bytes_kept]) simp_all
  consider "cm_command m = TG_CONTROL_RUMBLE" | "cm_command m = TG_CONTROL_STOP_RUMBLE"
    | "cm_command m = TG_CONTROL_QUERY_DESCRIPTOR" | "cm_command m = TG_CONTROL_MONITOR"
    | "cm_command m \<notin> {1, 2, 3, 4}" by auto
  then show ?thesis
  proof cases
    case 1
    then show ?thesis
      by (auto simp: handle_control_def monotonic_ms_def read_clock_def Let_def
            intro!: slots_kept_trans [OF upd update_rumble_kept])
  next
    case 2
    then show ?thesis
      by (auto simp: handle_control_def intro!: slots_kept_trans [OF here update_rumble_kept])
  next
    case 3
    then show ?thesis using query
      by (auto simp: handle_control_def split_beta intro: slots_kept_trans [OF query send_snapshot_kept])
  next
    case 4
    then show ?thesis
      by (auto simp: handle_control_def Let_def intro!: slots_kept_trans [OF here queue_bytes_kept])
  next
    case 5
    then show ?thesis by (simp add: handle_control_def)
  qed
qed

end
