(* ===== verification/BridgeInput.thy ===== *)
theory BridgeInput
  imports BridgeCalls
begin

text \<open>
  What the daemon (\<open>src/src/lorie_evdev_bridge.c\<close>) does with its inputs: control messages of the
  clients, the controller behind the X server, and XI2 events. The events that \<open>pump_x_events\<close> takes
  from the X queue are a list.
\<close>

section \<open>Reading control messages\<close>

text \<open>The parser loop. The index is always that of a slot; the first test is for the model only.\<close>

lemma handle_control_shrinks:
  assumes "i < length (clients b)" "16 \<le> length (cl_control (slot b i))"
  shows "length (cl_control (slot (snd (handle_control h i m
           (set_slot i ((slot b i)\<lparr>cl_control := drop 16 (cl_control (slot b i))\<rparr>) b))) i))
         < length (cl_control (slot b i))"
proof -
  let ?b = "set_slot i ((slot b i)\<lparr>cl_control := drop 16 (cl_control (slot b i))\<rparr>) b"
  have "slot_kept (slot ?b i) (slot (snd (handle_control h i m ?b)) i)"
    using handle_control_kept [of ?b h i m] assms(1)
    by (auto simp: slots_kept_def list_all2_conv_all_nth simp del: set_slot_kern(2-))
  then have "length (cl_control (slot (snd (handle_control h i m ?b)) i)) \<le> length (cl_control (slot ?b i))"
    by (auto simp: slot_kept_def)
  with assms show ?thesis by simp
qed

function control_loop :: "host \<Rightarrow> nat \<Rightarrow> bridge \<Rightarrow> bool \<times> bridge" where
  "control_loop h i b =
     (if \<not> i < length (clients b) \<or> length (cl_control (slot b i)) < 16 then (True, b)
      else
        (let control = cl_control (slot b i);
             message = dec_control (take 16 control)
         in if cm_magic message \<noteq> TG_CONTROL_MAGIC \<or> cm_version message \<noteq> TG_CONTROL_VERSION
            then (False, b)
            else (case handle_control h i message
                         (set_slot i ((slot b i)\<lparr>cl_control := drop 16 control\<rparr>) b) of
                    (ok, b') \<Rightarrow> if ok then control_loop h i b' else (False, b'))))"
  by pat_completeness auto
termination
proof (relation "measure (\<lambda>(h, i, b). length (cl_control (slot b i)))", goal_cases)
  case 1
  show ?case by simp
next
  case (2 h i b x y)
  then show ?case using handle_control_shrinks [of i b h "dec_control (take 16 (cl_control (slot b i)))"]
    by (auto simp: Let_def dest!: arg_cong [where f = snd])
qed

declare control_loop.simps [simp del]

definition receive_control_messages :: "host \<Rightarrow> nat \<Rightarrow> bridge \<Rightarrow> bool \<times> bridge" where
  "receive_control_messages h i b =
     (let c = slot b i in
      if length (cl_control c) = CONTROL_BUFFER_SIZE then (False, b)
      else
        (case k_recv_dontwait (cl_fd c) (CONTROL_BUFFER_SIZE - length (cl_control c)) (kern b) of
           (RecvErr e, k) \<Rightarrow> (e = EAGAIN \<or> e = EINTR, b\<lparr>kern := k\<rparr>)
         | (Data bs, k) \<Rightarrow>
             if bs = [] then (False, b\<lparr>kern := k\<rparr>)
             else control_loop h i
                    (set_slot i (c\<lparr>cl_control := cl_control c @ bs\<rparr>) (b\<lparr>kern := k\<rparr>))))"

section \<open>The controller behind the X server\<close>

abbreviation (input) XIAllDevices :: int where "XIAllDevices \<equiv> 0"
abbreviation (input) XISlavePointer :: int where "XISlavePointer \<equiv> 3"
abbreviation (input) XIFloatingSlave :: int where "XIFloatingSlave \<equiv> 5"
abbreviation (input) XI_ButtonPress :: int where "XI_ButtonPress \<equiv> 4"
abbreviation (input) XI_ButtonRelease :: int where "XI_ButtonRelease \<equiv> 5"
abbreviation (input) XI_Motion :: int where "XI_Motion \<equiv> 6"
abbreviation (input) XI_HierarchyChanged :: int where "XI_HierarchyChanged \<equiv> 11"
abbreviation (input) GenericEvent :: int where "GenericEvent \<equiv> 35"

text \<open>\<open>snprintf(dst, n, "%s", src)\<close>.\<close>

definition snprintf_s :: "bytes \<Rightarrow> nat \<Rightarrow> cstring \<Rightarrow> bytes" where
  "snprintf_s dst n src =
     (let c = take (n - 1) (cstr src) in c @ [0] @ drop (Suc (length c)) dst)"

fun find_device_loop ::
  "host \<Rightarrow> xi_device_info list \<Rightarrow> bridge \<Rightarrow> (int \<times> lorie_capabilities_reply \<times> bytes) option \<times> bridge" where
  "find_device_loop h [] b = (None, b)"
| "find_device_loop h (d # ds) b =
     (if xd_use d = XIFloatingSlave \<or> xd_use d = XISlavePointer then
        (case query_lorie_capabilities h (xd_deviceid d) b of
           (None, b) \<Rightarrow> find_device_loop h ds b
         | (Some reply, b) \<Rightarrow>
             (Some (xd_deviceid d, reply,
                snprintf_s (replicate 64 0) 64
                  (case xd_name d of None \<Rightarrow> lit ''Lorie gamepad'' | Some name \<Rightarrow> name)), b))
      else find_device_loop h ds b)"

text \<open>The device, its reply and its name, or nothing where the code returns -1.\<close>

definition find_lorie_device ::
  "host \<Rightarrow> bridge \<Rightarrow> (int \<times> lorie_capabilities_reply \<times> bytes) option \<times> bridge" where
  "find_lorie_device h b =
     (let (n, b) = x_ask b in
      case xi_devices h n of
        None \<Rightarrow> (None, b)
      | Some devices \<Rightarrow> find_device_loop h devices b)"

definition select_device :: "host \<Rightarrow> int \<Rightarrow> bridge \<Rightarrow> bool \<times> bridge" where
  "select_device h device_id b =
     (let (n, b) = x_ask b
      in (xi_select h n device_id [XI_ButtonPress, XI_ButtonRelease, XI_Motion], b))"

definition select_hierarchy :: "host \<Rightarrow> bridge \<Rightarrow> bool \<times> bridge" where
  "select_hierarchy h b =
     (let (n, b) = x_ask b in (xi_select h n XIAllDevices [XI_HierarchyChanged], b))"

text \<open>The test for an unchanged controller.\<close>

definition same_device :: "bridge \<Rightarrow> int \<Rightarrow> lorie_capabilities_reply \<Rightarrow> bytes \<Rightarrow> bool" where
  "same_device b device_id reply name \<longleftrightarrow>
     device_id = lorie_device_id b \<and> 0 \<le> device_id \<and>
     lorie_capabilities b = qr_capabilities reply \<and>
     dd_input_mode (device_descriptor b) = qr_inputMode reply \<and>
     dd_vendor_id (device_descriptor b) = qr_vendorId reply \<and>
     dd_product_id (device_descriptor b) = qr_productId reply \<and>
     strncmp_eq (dd_name (device_descriptor b)) name 64"

definition forget_device :: "host \<Rightarrow> bridge \<Rightarrow> bridge" where
  "forget_device h b =
     broadcast_hotplug h TG_HOTPLUG_REMOVE
       (b\<lparr>lorie_device_id := -1, lorie_capabilities := 0, state := zero_state,
          device_descriptor := (device_descriptor b)\<lparr>dd_present := 0, dd_device_id := -1\<rparr>\<rparr>)"

definition new_descriptor :: "int \<Rightarrow> lorie_capabilities_reply \<Rightarrow> bytes \<Rightarrow> tg_device_descriptor" where
  "new_descriptor device_id reply name =
     zero_descriptor\<lparr>dd_magic := TG_DEVICE_MAGIC, dd_version := TG_CONTROL_VERSION, dd_present := 1,
       dd_capabilities :=
         (if qr_capabilities reply AND LORIE_CONTROLLER_CAP_RUMBLE \<noteq> 0 then TG_DEVICE_CAP_RUMBLE else 0),
       dd_input_mode := qr_inputMode reply, dd_vendor_id := qr_vendorId reply,
       dd_product_id := qr_productId reply, dd_device_id := word_of_int device_id,
       dd_name := snprintf_s (replicate 64 0) 64 name\<rparr>"

definition refresh_lorie_device :: "host \<Rightarrow> bridge \<Rightarrow> int \<times> bridge" where
  "refresh_lorie_device h b =
     (case find_lorie_device h b of
        (found, b) \<Rightarrow>
          if (case found of None \<Rightarrow> False
              | Some (device_id, reply, name) \<Rightarrow> same_device b device_id reply name)
          then (0, b)
          else
            (let b = (if 0 \<le> lorie_device_id b then forget_device h b else b) in
             case found of
               None \<Rightarrow> (0, b)
             | Some (device_id, reply, name) \<Rightarrow>
                 if device_id < 0 then (0, b)
                 else (case select_device h device_id b of
                         (ok, b) \<Rightarrow>
                           if \<not> ok then (-1, b)
                           else (1, broadcast_hotplug h TG_HOTPLUG_ADD
                                      (b\<lparr>lorie_device_id := device_id,
                                         lorie_capabilities := qr_capabilities reply,
                                         device_descriptor := new_descriptor device_id reply name\<rparr>)))))"

section \<open>XI2 events\<close>

text \<open>\<open>xe_mask\<close> are the bytes of \<open>valuators.mask\<close>, \<open>xe_values\<close> one value for each bit set in it.\<close>

record xi_device_event =
  xe_evtype :: int
  xe_deviceid :: int
  xe_sourceid :: int
  xe_detail :: int
  xe_mask :: bytes
  xe_values :: "double list"

definition XIMaskIsSet :: "bytes \<Rightarrow> nat \<Rightarrow> bool" where
  "XIMaskIsSet bits b \<longleftrightarrow> bits ! (b div 8) AND push_bit (b mod 8) 1 \<noteq> 0"

definition next_value :: "double list \<Rightarrow> double" where
  "next_value vs = (case vs of [] \<Rightarrow> Dyadic 0 0 | v # _ \<Rightarrow> v)"

definition set_axis :: "host \<Rightarrow> nat \<Rightarrow> int \<Rightarrow> tg_input_event list \<times> bridge \<Rightarrow> tg_input_event list \<times> bridge" where
  "set_axis h axis converted eb =
     (case eb of (events, b) \<Rightarrow>
        if converted \<noteq> gs_axes (state b) ! axis
        then append_event h TG_EV_ABS (axis_code axis) converted
               (events, b\<lparr>state := (state b)\<lparr>gs_axes := (gs_axes (state b))[axis := converted]\<rparr>\<rparr>)
        else (events, b))"

fun motion_loop ::
  "host \<Rightarrow> bytes \<Rightarrow> nat list \<Rightarrow> double list \<Rightarrow> tg_input_event list \<times> bridge \<Rightarrow> tg_input_event list \<times> bridge" where
  "motion_loop h bits [] vs eb = eb"
| "motion_loop h bits (axis # axes) vs eb =
     (if XIMaskIsSet bits axis then
        motion_loop h bits axes (tl vs)
          (if axis < 6 then set_axis h axis (convert_axis axis (next_value vs)) eb else eb)
      else motion_loop h bits axes vs eb)"

definition set_hat :: "host \<Rightarrow> tg_input_event list \<times> bridge \<Rightarrow> tg_input_event list \<times> bridge" where
  "set_hat h eb =
     (let new_x = hat_value (state (snd eb)) 13 14;
          new_y = hat_value (state (snd eb)) 11 12;
          eb = (if new_x \<noteq> gs_hat_x (state (snd eb))
                then append_event h TG_EV_ABS TG_ABS_HAT0X new_x
                       (fst eb, (snd eb)\<lparr>state := (state (snd eb))\<lparr>gs_hat_x := new_x\<rparr>\<rparr>)
                else eb)
      in if new_y \<noteq> gs_hat_y (state (snd eb))
         then append_event h TG_EV_ABS TG_ABS_HAT0Y new_y
                (fst eb, (snd eb)\<lparr>state := (state (snd eb))\<lparr>gs_hat_y := new_y\<rparr>\<rparr>)
         else eb)"

definition press_button :: "host \<Rightarrow> nat \<Rightarrow> bool \<Rightarrow> bridge \<Rightarrow> tg_input_event list \<times> bridge" where
  "press_button h detail press b =
     (let b1 = push_bit (detail - 1) (1 :: u32); st = state b in
      if press = pressed st detail then ([], b)
      else
        (let code = button_code detail;
             st = st\<lparr>gs_buttons := (if press then gs_buttons st OR b1 else gs_buttons st AND NOT b1)\<rparr>;
             b = b\<lparr>state := st\<rparr>
         in if 11 \<le> detail \<and> detail \<le> 14 then set_hat h ([], b)
            else if code \<noteq> 0 then append_event h TG_EV_KEY code (of_bool press) ([], b)
            else ([], b)))"

text \<open>The events of an XI2 event, before the report that ends them.\<close>

definition convert_xi_event :: "host \<Rightarrow> xi_device_event \<Rightarrow> bridge \<Rightarrow> tg_input_event list \<times> bridge" where
  "convert_xi_event h event b =
     (if xe_evtype event = XI_Motion then
        motion_loop h (xe_mask event) [0..<length (xe_mask event) * 8] (xe_values event) ([], b)
      else if (xe_evtype event = XI_ButtonPress \<or> xe_evtype event = XI_ButtonRelease) \<and>
              1 \<le> xe_detail event \<and> xe_detail event \<le> 16 then
        press_button h (nat (xe_detail event)) (xe_evtype event = XI_ButtonPress) b
      else ([], b))"

definition process_xi_event :: "host \<Rightarrow> xi_device_event \<Rightarrow> int \<Rightarrow> bridge \<Rightarrow> bridge" where
  "process_xi_event h event device_id b =
     (if xe_deviceid event \<noteq> device_id \<and> xe_sourceid event \<noteq> device_id then b
      else
        (case convert_xi_event h event b of
           (events, b) \<Rightarrow>
             if events = [] then b
             else (case append_event h TG_EV_SYN TG_SYN_REPORT 0 (events, b) of
                     (events, b) \<Rightarrow> broadcast_events h events b)))"

text \<open>An event of the X queue; \<open>xc_got\<close> says whether \<open>XGetEventData\<close> delivers its data.\<close>

record x_event =
  xc_type :: int
  xc_extension :: int
  xc_got :: bool
  xc_evtype :: int
  xc_data :: xi_device_event

definition pump_x_event :: "host \<Rightarrow> int \<Rightarrow> x_event \<Rightarrow> bridge \<Rightarrow> bridge" where
  "pump_x_event h xi_opcode event b =
     (if xc_type event = GenericEvent \<and> xc_extension event = xi_opcode \<and> xc_got event then
        (if xc_evtype event = XI_HierarchyChanged then snd (refresh_lorie_device h b)
         else if xc_evtype event = XI_Motion \<or> xc_evtype event = XI_ButtonPress \<or>
                 xc_evtype event = XI_ButtonRelease
         then process_xi_event h (xc_data event) (lorie_device_id b) b
         else b)
      else b)"

definition pump_x_events :: "host \<Rightarrow> int \<Rightarrow> x_event list \<Rightarrow> bridge \<Rightarrow> bridge" where
  "pump_x_events h xi_opcode events b = fold (pump_x_event h xi_opcode) events b"

end
