(* ===== verification/BridgeMain.thy ===== *)
theory BridgeMain
  imports BridgeInput
begin

text \<open>
  The server side of the daemon (\<open>src/src/lorie_evdev_bridge.c\<close>) and its \<open>main\<close>: the listening
  socket, accepting and serving clients, the poll loop, start-up and shutdown.

  A run of the loop is a list of \<open>round\<close>s: what \<open>poll\<close>, \<open>accept\<close> and the X queue deliver in each
  turn. At the end of the list a signal has cleared \<open>running\<close>.
\<close>

section \<open>Accepting clients\<close>

datatype accept_ans = Accepted sock | AcceptErr errno

text \<open>The new descriptor of \<open>accept\<close>: blocking, inherited by child processes.\<close>

definition k_accept :: "sock \<Rightarrow> kernel \<Rightarrow> fd \<times> kernel" where
  "k_accept s k =
     (case fd_alloc (s\<lparr>sent := [], nonblock := False, cloexec := False\<rparr>) (fds k) of
        (f, t) \<Rightarrow> (f, k\<lparr>fds := t\<rparr>))"

text \<open>The slot loop: the lowest free one, or the number of slots.\<close>

fun free_index :: "client list \<Rightarrow> nat" where
  "free_index [] = 0"
| "free_index (c # cs) = (if cl_fd c < 0 then 0 else Suc (free_index cs))"

definition admit :: "sock \<Rightarrow> bridge \<Rightarrow> bridge" where
  "admit s b =
     (case k_accept s (kern b) of
        (f, k) \<Rightarrow>
          (case bridge_set_nonblocking f k of
             (ok, k) \<Rightarrow>
               (let b = b\<lparr>kern := k\<rparr>; i = free_index (clients b) in
                if ok \<and> i < length (clients b) then set_slot i (unused_client\<lparr>cl_fd := f\<rparr>) b
                else b\<lparr>kern := k_close f k\<rparr>)))"

fun accept_clients :: "accept_ans list \<Rightarrow> bridge \<Rightarrow> bridge" where
  "accept_clients [] b = b"
| "accept_clients (Accepted s # r) b = accept_clients r (admit s b)"
| "accept_clients (AcceptErr e # r) b = (if e = EINTR then accept_clients r b else b)"

section \<open>The listening socket\<close>

record server_env =
  se_socket :: "errno option"
  se_ctl :: "errno option"
  se_bind :: bool
  se_listen :: bool

definition DEFAULT_SOCKET :: cstring where
  "DEFAULT_SOCKET = lit ''/data/data/com.termux/files/usr/tmp/termux-gamepad-evdev.sock''"

text \<open>The descriptor, or nothing where the code returns -1.\<close>

definition create_server :: "server_env \<Rightarrow> cstring \<Rightarrow> bridge \<Rightarrow> fd option \<times> bridge" where
  "create_server env path b =
     (if 108 \<le> length (cstr path) then (None, b)
      else case se_socket env of
        Some e \<Rightarrow> (None, b)
      | None \<Rightarrow>
          (case fd_alloc (blank_sock\<lparr>ctl := se_ctl env\<rparr>) (fds (kern b)) of
             (f, t) \<Rightarrow>
               (case bridge_set_nonblocking f ((kern b)\<lparr>fds := t\<rparr>) of
                  (ok, k) \<Rightarrow>
                    if \<not> ok then (None, b\<lparr>kern := k_close f k\<rparr>)
                    else
                      (let sun_path = strncpy (replicate 108 0) path 107;
                           b = b\<lparr>kern := k, fs_ops := fs_ops b @ [Unlink (cstr path)]\<rparr>;
                           b = (if se_bind env then b\<lparr>fs_ops := fs_ops b @ [Bind (cstr sun_path)]\<rparr> else b)
                       in if \<not> se_bind env \<or> \<not> se_listen env then (None, b\<lparr>kern := k_close f (kern b)\<rparr>)
                          else (Some f, b)))))"

section \<open>The poll loop\<close>

type_synonym poll_bits = "16 word"

abbreviation (input) POLLIN :: poll_bits where "POLLIN \<equiv> 0x001"
abbreviation (input) POLLOUT :: poll_bits where "POLLOUT \<equiv> 0x004"
abbreviation (input) POLLERR :: poll_bits where "POLLERR \<equiv> 0x008"
abbreviation (input) POLLHUP :: poll_bits where "POLLHUP \<equiv> 0x010"
abbreviation (input) POLLNVAL :: poll_bits where "POLLNVAL \<equiv> 0x020"

text \<open>The descriptors and events of the slots' \<open>pollfd\<close>s.\<close>

definition poll_requests :: "bridge \<Rightarrow> (fd \<times> poll_bits) list" where
  "poll_requests b =
     map (\<lambda>c. (cl_fd c, if cl_output c \<noteq> [] then POLLIN OR POLLOUT else POLLIN)) (clients b)"

text \<open>
  \<open>poll\<close> reports for a descriptor what was asked for and the three error conditions, nothing for a
  negative one; \<open>ready\<close> is the state of the file.
\<close>

definition poll_answer :: "fd \<times> poll_bits \<Rightarrow> poll_bits \<Rightarrow> poll_bits" where
  "poll_answer request ready =
     (if fst request < 0 then 0
      else ready AND (snd request OR POLLERR OR POLLHUP OR POLLNVAL))"

text \<open>The part of a turn for one slot.\<close>

definition serve_client :: "host \<Rightarrow> poll_bits \<Rightarrow> nat \<Rightarrow> bridge \<Rightarrow> bridge" where
  "serve_client h revents i b =
     (if cl_fd (slot b i) < 0 then b
      else
        (case (if revents AND POLLOUT \<noteq> 0 then flush_client i b else (True, b)) of
           (ok, b) \<Rightarrow>
             if \<not> ok then close_client h i b
             else if revents AND (POLLERR OR POLLHUP OR POLLNVAL) \<noteq> 0 then close_client h i b
             else if revents AND POLLIN \<noteq> 0 then
               (case receive_control_messages h i b of
                  (ok, b) \<Rightarrow> if ok then b else close_client h i b)
             else b))"

text \<open>One turn as the outside delivers it: the result of \<open>poll\<close>, the state of the display
  connection, the server socket and the clients, what \<open>accept\<close> gives and the X events that the two
  calls of \<open>pump_x_events\<close> find.\<close>

record round =
  rd_error :: "errno option"
  rd_display :: poll_bits
  rd_server :: poll_bits
  rd_ready :: "nat \<Rightarrow> poll_bits"
  rd_accepts :: "accept_ans list"
  rd_events1 :: "x_event list"
  rd_events2 :: "x_event list"

definition loop_turn :: "host \<Rightarrow> int \<Rightarrow> round \<Rightarrow> bridge \<Rightarrow> bridge" where
  "loop_turn h xi_opcode rd b =
     (let requests = poll_requests b;
          revents = (\<lambda>i. poll_answer (requests ! i) (rd_ready rd i));
          b = (if rd_display rd AND (POLLIN OR POLLERR OR POLLHUP) \<noteq> 0
               then pump_x_events h xi_opcode (rd_events1 rd) b else b);
          b = (if rd_server rd AND POLLIN \<noteq> 0 then accept_clients (rd_accepts rd) b else b);
          b = fold (\<lambda>i. serve_client h (revents i) i) [0..<MAX_CLIENTS] b;
          b = pump_x_events h xi_opcode (rd_events2 rd) b
      in update_rumble h False b)"

fun main_loop :: "host \<Rightarrow> int \<Rightarrow> round list \<Rightarrow> bridge \<Rightarrow> bridge" where
  "main_loop h xi_opcode [] b = b"
| "main_loop h xi_opcode (rd # rds) b =
     (case rd_error rd of
        Some e \<Rightarrow> if e = EINTR then main_loop h xi_opcode rds b else b
      | None \<Rightarrow> main_loop h xi_opcode rds (loop_turn h xi_opcode rd b))"

section \<open>Start-up and shutdown\<close>

text \<open>What \<open>XOpenDisplay\<close>, \<open>XQueryExtension\<close> and \<open>XIQueryVersion\<close> answer. For the
  controller extension it is the major opcode that is stored and whether the extension is present
  (the server answers opcode 0 for one it does not have); the version is nothing for \<open>BadRequest\<close>.\<close>

record x_env =
  xv_display :: bool
  xv_xinput :: "int option"
  xv_xi_major :: "int option"
  xv_controller :: "int \<times> bool"

definition shutdown :: "host \<Rightarrow> fd \<Rightarrow> cstring \<Rightarrow> bridge \<Rightarrow> bridge" where
  "shutdown h server_fd socket_path b =
     (let b = snd (send_lorie_rumble 0 0 0 b);
          b = fold (close_client h) [0..<MAX_CLIENTS] b
      in b\<lparr>kern := k_close server_fd (kern b), fs_ops := fs_ops b @ [Unlink (cstr socket_path)],
           x_display := False\<rparr>)"

text \<open>Looking for the extension: a version that does not fit resets the opcode to -1.\<close>

definition find_extension :: "host \<Rightarrow> x_env \<Rightarrow> bridge \<Rightarrow> bridge" where
  "find_extension h xv b =
     (case xv_controller xv of
        (opcode, present) \<Rightarrow>
          (let b = b\<lparr>lorie_controller_opcode := opcode\<rparr> in
           if present then
             (case query_lorie_version h b of
                (ok, b) \<Rightarrow> if ok then b else b\<lparr>lorie_controller_opcode := -1\<rparr>)
           else b))"

text \<open>The part of \<open>main\<close> before the loop: nothing where it returns 1, else the opcode of XInput and the
  listening socket.\<close>

definition bridge_start ::
  "host \<Rightarrow> x_env \<Rightarrow> server_env \<Rightarrow> cstring \<Rightarrow> kernel \<Rightarrow> (int \<times> fd) option \<times> bridge" where
  "bridge_start h xv env socket_path k =
     (let b = bridge_loaded k
      in if \<not> xv_display xv then (None, b)
         else
           (let b = b\<lparr>x_display := True\<rparr> in
            case (xv_xinput xv, xv_xi_major xv) of
              (Some xi_opcode, Some xi_major) \<Rightarrow>
                if xi_major < 2 then (None, b)
                else
                  (case select_hierarchy h (find_extension h xv b) of
                     (ok, b) \<Rightarrow>
                       if \<not> ok then (None, b)
                       else
                         (let b = (if 0 \<le> lorie_controller_opcode b
                                   then snd (refresh_lorie_device h b) else b)
                          in case create_server env socket_path b of
                               (None, b) \<Rightarrow> (None, b)
                             | (Some server_fd, b) \<Rightarrow> (Some (xi_opcode, server_fd), b)))
            | _ \<Rightarrow> (None, b)))"

text \<open>The exit status and the final state of a run; \<open>argv1\<close> is the first argument.\<close>

definition bridge_main ::
  "host \<Rightarrow> x_env \<Rightarrow> server_env \<Rightarrow> cstring option \<Rightarrow> round list \<Rightarrow> kernel \<Rightarrow> int \<times> bridge" where
  "bridge_main h xv env argv1 rounds k =
     (let socket_path = (case argv1 of None \<Rightarrow> DEFAULT_SOCKET | Some p \<Rightarrow> p)
      in case bridge_start h xv env socket_path k of
           (None, b) \<Rightarrow> (1, b)
         | (Some (xi_opcode, server_fd), b) \<Rightarrow>
             (0, shutdown h server_fd socket_path (main_loop h xi_opcode rounds b)))"

end
