(* ===== verification/BridgeInvariant.thy ===== *)
theory BridgeInvariant
  imports BridgeMain
begin

text \<open>
  The invariant of the bridge daemon and its preservation by every operation.

  \<open>slots_inv\<close> speaks of the client slots and the descriptors behind them: no two clients share a
  descriptor, queues and parser buffers stay within their arrays, an unused slot is blank, and every
  other descriptor of the process is what it was (\<open>base\<close>), so that nothing leaks. \<open>pad_ok\<close> bounds the
  state of the pad, \<open>device_ok\<close> ties the descriptor that is sent to clients to the XI2 device the
  daemon listens to.

  \<open>static\<close> collects what only \<open>refresh_lorie_device\<close> and \<open>process_xi_event\<close> change; the operations on
  clients leave it alone.
\<close>

section \<open>The invariant\<close>

definition client_ok :: "(fd \<Rightarrow> sock option) \<Rightarrow> nat \<Rightarrow> client \<Rightarrow> bool" where
  "client_ok lk n c \<longleftrightarrow>
     (if cl_fd c < 0 then c = unused_client
      else lk (cl_fd c) \<noteq> None \<and> length (cl_output c) \<le> CLIENT_BUFFER_SIZE \<and> length (cl_control c) \<le> n)"

definition slots_inv ::
  "(fd \<Rightarrow> sock option) \<Rightarrow> (nat \<Rightarrow> nat) \<Rightarrow> client list \<Rightarrow> (fd \<Rightarrow> sock option) \<Rightarrow> bool" where
  "slots_inv base m cs lk \<longleftrightarrow>
     length cs = MAX_CLIENTS \<and>
     (\<forall>i < MAX_CLIENTS. client_ok lk (m i) (cs ! i)) \<and>
     (\<forall>i < MAX_CLIENTS. \<forall>j < MAX_CLIENTS. 0 \<le> cl_fd (cs ! i) \<and> cl_fd (cs ! i) = cl_fd (cs ! j) \<longrightarrow> i = j) \<and>
     (\<forall>i < MAX_CLIENTS. 0 \<le> cl_fd (cs ! i) \<longrightarrow> base (cl_fd (cs ! i)) = None) \<and>
     (\<forall>f. 0 \<le> f \<and> (\<forall>i < MAX_CLIENTS. cl_fd (cs ! i) \<noteq> f) \<longrightarrow> lk f = base f)"

definition axis_bounds :: "nat \<Rightarrow> int \<Rightarrow> bool" where
  "axis_bounds axis v \<longleftrightarrow> (if axis < 4 then - 32768 \<le> v \<and> v \<le> 32767 else 0 \<le> v \<and> v \<le> 255)"

definition pad_ok :: "gamepad_state \<Rightarrow> bool" where
  "pad_ok st \<longleftrightarrow>
     length (gs_axes st) = 6 \<and> (\<forall>axis < 6. axis_bounds axis (gs_axes st ! axis)) \<and>
     gs_hat_x st = hat_value st 13 14 \<and> gs_hat_y st = hat_value st 11 12 \<and>
     take_bit 16 (gs_buttons st) = gs_buttons st"

definition device_ok :: "bridge \<Rightarrow> bool" where
  "device_ok b \<longleftrightarrow>
     (let d = device_descriptor b in
      wf_descriptor d \<and> dd_magic d = TG_DEVICE_MAGIC \<and> dd_version d = TG_CONTROL_VERSION \<and>
      terminated (dd_name d) \<and>
      dd_device_id d = word_of_int (lorie_device_id b) \<and>
      (if dd_present d = 0 then lorie_device_id b = -1
       else dd_present d = 1 \<and> 0 \<le> lorie_device_id b \<and>
            (dd_capabilities d = TG_DEVICE_CAP_RUMBLE \<longleftrightarrow>
               lorie_capabilities b AND LORIE_CONTROLLER_CAP_RUMBLE \<noteq> 0)))"

definition bridge_inv :: "(fd \<Rightarrow> sock option) \<Rightarrow> (nat \<Rightarrow> nat) \<Rightarrow> bridge \<Rightarrow> bool" where
  "bridge_inv base m b \<longleftrightarrow>
     slots_inv base m (clients b) (k_lookup (kern b)) \<and> pad_ok (state b) \<and> device_ok b"

section \<open>What stays\<close>

definition static ::
  "bridge \<Rightarrow> gamepad_state \<times> bool \<times> int \<times> int \<times> u16 \<times> tg_device_descriptor \<times> fs_op list" where
  "static b = (state b, x_display b, lorie_controller_opcode b, lorie_device_id b, lorie_capabilities b,
     device_descriptor b, fs_ops b)"

named_theorems stays

lemma static_device_ok: "static b' = static b \<Longrightarrow> device_ok b' = device_ok b"
  by (simp add: static_def device_ok_def)

lemma static_inv:
  assumes "static b' = static b" "bridge_inv base m b"
    "slots_inv base m' (clients b') (k_lookup (kern b'))"
  shows "bridge_inv base m' b'"
  using assms static_device_ok [OF assms(1)] by (simp add: bridge_inv_def static_def)

lemma static_set_slot [stays]: "static (set_slot i c b) = static b"
  by (simp add: static_def)

lemma static_fields [stays]:
  "static (b\<lparr>kern := k\<rparr>) = static b" "static (b\<lparr>ticks := n\<rparr>) = static b"
  "static (b\<lparr>clients := cs\<rparr>) = static b" "static (b\<lparr>x_sent := xs\<rparr>) = static b"
  "static (b\<lparr>x_asked := n\<rparr>) = static b"
  "static (b\<lparr>active_rumble_low := l, active_rumble_high := g\<rparr>) = static b"
  by (simp_all add: static_def)

lemma static_x_request [stays]: "static (x_request r b) = static b"
  by (simp add: x_request_def stays)

lemma static_send_lorie_rumble [stays]: "static (snd (send_lorie_rumble l g d b)) = static b"
  by (simp add: send_lorie_rumble_def stays)

lemma static_update_rumble [stays]: "static (update_rumble h force b) = static b"
  by (simp add: update_rumble_def monotonic_ms_def read_clock_def Let_def stays split: prod.split)

lemma static_close_client [stays]: "static (close_client h i b) = static b"
  by (simp add: close_client_def Let_def stays)

lemma static_flush_client [stays]: "static (snd (flush_client i b)) = static b"
  by (simp add: flush_client_def Let_def stays split: option.split prod.split)

lemma static_queue_bytes [stays]: "static (snd (queue_bytes i data b)) = static b"
  by (simp add: queue_bytes_def Let_def stays)

lemma static_offer [stays]: "static (offer h kind data i b) = static b"
  by (simp add: offer_def stays split_beta)

lemma static_fold: "(\<And>x b. static (f x b) = static b) \<Longrightarrow> static (fold f xs b) = static b"
  by (induction xs arbitrary: b) auto

lemma static_broadcast [stays]:
  "static (broadcast_events h events b) = static b" "static (broadcast_hotplug h action b) = static b"
  by (simp_all add: broadcast_events_def broadcast_hotplug_def static_fold stays del: upt.simps)

lemma static_send_snapshot [stays]: "static (send_snapshot h i b) = static b"
proof -
  obtain events b1 ok b2 where e: "snapshot_events h b = (events, b1)" "queue_events i events b1 = (ok, b2)"
    by fastforce
  have "static b1 = static b" using snapshot_events_clock [of h b] e(1) by (simp add: stays)
  moreover have "static b2 = static b1"
    using e(2) static_queue_bytes [of i _ b1] by (simp add: queue_events_def) (metis snd_conv)
  ultimately show ?thesis using e by (simp add: send_snapshot_def stays)
qed

lemma static_handle_control [stays]: "static (snd (handle_control h i m b)) = static b"
proof -
  have "static (snd (queue_bytes i data (set_slot i c b))) = static b" for data c
    by (simp add: stays)
  then show ?thesis
    by (simp add: handle_control_def monotonic_ms_def read_clock_def Let_def stays split_beta)
qed

text \<open>A predicate that survives every message survives the parser loop.\<close>

lemma control_loop_invariant:
  assumes "P b"
    and "\<And>b m. P b \<Longrightarrow> i < length (clients b) \<Longrightarrow> 16 \<le> length (cl_control (slot b i)) \<Longrightarrow>
      P (snd (handle_control h i m (set_slot i ((slot b i)\<lparr>cl_control := drop 16 (cl_control (slot b i))\<rparr>) b)))"
  shows "P (snd (control_loop h i b))"
  using assms(1)
proof (induction "length (cl_control (slot b i))" arbitrary: b rule: less_induct)
  case less
  let ?m = "dec_control (take 16 (cl_control (slot b i)))"
  let ?b = "set_slot i ((slot b i)\<lparr>cl_control := drop 16 (cl_control (slot b i))\<rparr>) b"
  show ?case
  proof (cases "\<not> i < length (clients b) \<or> length (cl_control (slot b i)) < 16")
    case True
    then show ?thesis using less.prems by (subst control_loop.simps) simp
  next
    case False
    then have "P (snd (handle_control h i ?m ?b))"
      "length (cl_control (slot (snd (handle_control h i ?m ?b)) i)) < length (cl_control (slot b i))"
      using assms(2) [OF less.prems] handle_control_shrinks [of i b h ?m] by simp_all
    then have "P (snd (handle_control h i ?m ?b))" "P (snd (control_loop h i (snd (handle_control h i ?m ?b))))"
      using less.hyps by simp_all
    then show ?thesis using False less.prems
      by (subst control_loop.simps) (simp add: Let_def split_beta)
  qed
qed

lemma static_control_loop [stays]: "static (snd (control_loop h i b)) = static b"
  by (rule control_loop_invariant) (simp_all add: stays)

lemma static_receive [stays]: "static (snd (receive_control_messages h i b)) = static b"
  by (simp add: receive_control_messages_def Let_def stays split: prod.split recv_ans.split)

lemma static_admit [stays]: "static (admit s b) = static b"
  by (simp add: admit_def Let_def stays split: prod.split)

lemma static_accept [stays]: "static (accept_clients r b) = static b"
  by (induction r b rule: accept_clients.induct) (simp_all add: stays)

lemma static_serve [stays]: "static (serve_client h revents i b) = static b"
proof -
  have "static (snd (if revents AND POLLOUT \<noteq> 0 then flush_client i b else (True, b))) = static b"
    by (simp add: stays)
  then show ?thesis
    by (simp add: serve_client_def stays split_beta)
qed

section \<open>Slots and descriptors\<close>

abbreviation b_slots :: "(fd \<Rightarrow> sock option) \<Rightarrow> (nat \<Rightarrow> nat) \<Rightarrow> bridge \<Rightarrow> bool" where
  "b_slots base m b \<equiv> slots_inv base m (clients b) (k_lookup (kern b))"

lemma slots_length: "slots_inv base m cs lk \<Longrightarrow> length cs = 16"
  by (simp add: slots_inv_def)

lemma slots_client: "slots_inv base m cs lk \<Longrightarrow> i < 16 \<Longrightarrow> client_ok lk (m i) (cs ! i)"
  by (simp add: slots_inv_def)

lemma slots_open: "slots_inv base m cs lk \<Longrightarrow> i < 16 \<Longrightarrow> 0 \<le> cl_fd (cs ! i) \<Longrightarrow> lk (cl_fd (cs ! i)) \<noteq> None"
  using slots_client [of base m cs lk i] by (simp add: client_ok_def)

lemma slots_weaken: "slots_inv base m cs lk \<Longrightarrow> (\<And>i. m i \<le> m' i) \<Longrightarrow> slots_inv base m' cs lk"
  by (auto simp: slots_inv_def client_ok_def) (meson order_trans)

text \<open>Changing the contents of one slot, and of the socket behind it.\<close>

lemma slots_set:
  assumes "slots_inv base m cs lk" "i < 16" "cl_fd c = cl_fd (cs ! i)"
    and "client_ok lk' (m' i) c" "\<And>j. j \<noteq> i \<Longrightarrow> m' j = m j"
    and "\<And>f. f \<noteq> cl_fd c \<Longrightarrow> lk' f = lk f" "\<And>f. lk' f = None \<longleftrightarrow> lk f = None"
  shows "slots_inv base m' (cs[i := c]) lk'"
proof -
  have len: "length cs = 16" using assms(1) by (rule slots_length)
  have fds: "cl_fd (cs[i := c] ! j) = cl_fd (cs ! j)" for j
    using assms(2,3) len by (cases "j = i") auto
  have "client_ok lk' (m' j) (cs[i := c] ! j)" if "j < 16" for j
  proof (cases "j = i")
    case True
    then show ?thesis using assms(2,4) len by simp
  next
    case False
    then show ?thesis using slots_client [OF assms(1) that] assms(5,7) by (auto simp: client_ok_def)
  qed
  moreover have "lk' f = base f" if "0 \<le> f" "\<forall>j < 16. cl_fd (cs ! j) \<noteq> f" for f
  proof -
    have "f \<noteq> cl_fd c" using that assms(2,3) by auto
    with that assms(1,6) show ?thesis by (simp add: slots_inv_def)
  qed
  ultimately show ?thesis
    using assms(1) len by (simp add: slots_inv_def fds)
qed

lemma slots_close:
  assumes "slots_inv base m cs lk" "i < 16" "0 \<le> cl_fd (cs ! i)"
  shows "slots_inv base m (cs[i := unused_client]) (lk(cl_fd (cs ! i) := None))"
proof -
  let ?f = "cl_fd (cs ! i)"
  have len: "length cs = 16" using assms(1) by (rule slots_length)
  have other: "cl_fd (cs ! j) \<noteq> ?f" if "j < 16" "j \<noteq> i" for j
    using assms that unfolding slots_inv_def by metis
  have ok: "client_ok (lk(?f := None)) (m j) (cs[i := unused_client] ! j)" if "j < 16" for j
    using slots_client [OF assms(1) that] other [OF that] len assms(2)
    by (cases "j = i") (auto simp: client_ok_def unused_client_def)
  have base: "(lk(?f := None)) f = base f" if "0 \<le> f" "\<forall>j < 16. cl_fd (cs[i := unused_client] ! j) \<noteq> f" for f
  proof (cases "f = ?f")
    case True
    then show ?thesis using assms by (simp add: slots_inv_def)
  next
    case False
    have "cl_fd (cs ! j) \<noteq> f" if "j < 16" for j
    proof (cases "j = i")
      case True
      then show ?thesis using False by simp
    next
      case False
      then show ?thesis using \<open>\<forall>j < 16. cl_fd (cs[i := unused_client] ! j) \<noteq> f\<close> that by fastforce
    qed
    then show ?thesis using False assms(1) that by (simp add: slots_inv_def)
  qed
  have "cl_fd unused_client = -1" by (simp add: unused_client_def)
  then show ?thesis
    using assms(1,2) len ok base by (simp add: slots_inv_def nth_list_update)
qed

lemma slots_admit:
  assumes "slots_inv base m cs lk" "i < 16" "cl_fd (cs ! i) < 0" "lk f = None" "0 \<le> f"
    and "\<And>g. g \<noteq> f \<Longrightarrow> lk' g = lk g" "lk' f \<noteq> None"
  shows "slots_inv base m (cs[i := unused_client\<lparr>cl_fd := f\<rparr>]) lk'"
proof -
  have len: "length cs = 16" using assms(1) by (rule slots_length)
  have other: "cl_fd (cs ! j) \<noteq> f" if "j < 16" for j
    using slots_open [OF assms(1) that] assms(4,5) by auto
  have ok: "client_ok lk' (m j) (cs[i := unused_client\<lparr>cl_fd := f\<rparr>] ! j)" if "j < 16" for j
    using slots_client [OF assms(1) that] other [OF that] len assms(2,5-7)
    by (cases "j = i") (auto simp: client_ok_def unused_client_def)
  have base: "lk' g = base g" if "0 \<le> g" "\<forall>j < 16. cl_fd (cs[i := unused_client\<lparr>cl_fd := f\<rparr>] ! j) \<noteq> g" for g
  proof -
    have "g \<noteq> f" using that(2) len assms(2) by fastforce
    moreover have "cl_fd (cs ! j) \<noteq> g" if "j < 16" for j
    proof (cases "j = i")
      case True
      then show ?thesis using assms(3) \<open>0 \<le> g\<close> by simp
    next
      case False
      then show ?thesis using \<open>\<forall>j < 16. cl_fd (cs[i := unused_client\<lparr>cl_fd := f\<rparr>] ! j) \<noteq> g\<close> that by fastforce
    qed
    ultimately show ?thesis using assms(1,6) that(1) by (simp add: slots_inv_def)
  qed
  have "base f = None" using assms(1,4,5) other by (simp add: slots_inv_def)
  then show ?thesis
    using assms(1,2,3) len ok base other by (auto simp: slots_inv_def nth_list_update)
qed

subsection \<open>Rumble\<close>

text \<open>Rumble arbitration only clears rumble requests, of clients it found in a slot.\<close>

definition unrumbled :: "client \<Rightarrow> client \<Rightarrow> bool" where
  "unrumbled c c' \<longleftrightarrow> c' = c \<or>
     (0 \<le> cl_fd c \<and> c' = c\<lparr>cl_rumble_low := 0, cl_rumble_high := 0, cl_rumble_expires_ms := 0\<rparr>)"

lemma rumble_scan_unrumbled:
  "rumble_scan now cs low high longest = (cs', r) \<Longrightarrow> list_all2 unrumbled cs cs'"
proof (induction now cs low high longest arbitrary: cs' r rule: rumble_scan.induct)
  case (1 now low high longest)
  then show ?case by simp
next
  case (2 now c cs low high longest)
  show ?case
    using "2.prems" "2.IH" by (auto simp: Let_def unrumbled_def split: if_splits prod.splits)
qed

lemma update_rumble_clients:
  "clients (update_rumble h force b) = fst (rumble_scan (to_ms (clock h (ticks b))) (clients b) 0 0 0)"
  by (simp add: update_rumble_def monotonic_ms_def read_clock_def Let_def split: prod.split)

lemma update_rumble_kern [simp]: "kern (update_rumble h force b) = kern b"
  by (simp add: update_rumble_def monotonic_ms_def read_clock_def Let_def send_lorie_rumble_def
        x_request_def split: prod.split)

lemma update_rumble_unrumbled: "list_all2 unrumbled (clients b) (clients (update_rumble h force b))"
  unfolding update_rumble_clients by (rule rumble_scan_unrumbled) (rule prod.collapse [symmetric])

lemma slots_unrumbled:
  assumes "slots_inv base m cs lk" "list_all2 unrumbled cs cs'"
  shows "slots_inv base m cs' lk"
proof -
  have len: "length cs' = length cs" using assms(2) by (simp add: list_all2_lengthD)
  have like: "unrumbled (cs ! i) (cs' ! i)" if "i < 16" for i
    using assms that slots_length [OF assms(1)] by (simp add: list_all2_conv_all_nth)
  then have fds: "cl_fd (cs' ! i) = cl_fd (cs ! i)" if "i < 16" for i
    using like [OF that] by (auto simp: unrumbled_def)
  have "client_ok lk (m i) (cs' ! i)" if "i < 16" for i
    using slots_client [OF assms(1) that] like [OF that] by (auto simp: client_ok_def unrumbled_def)
  with assms(1) len fds show ?thesis by (simp add: slots_inv_def)
qed

lemma update_rumble_slots: "b_slots base m b \<Longrightarrow> b_slots base m (update_rumble h force b)"
  using slots_unrumbled update_rumble_unrumbled by fastforce

subsection \<open>Queues\<close>

lemma close_client_slots:
  assumes "b_slots base m b" "i < 16"
  shows "b_slots base m (close_client h i b)"
proof -
  let ?b = "set_slot i unused_client (if 0 \<le> cl_fd (slot b i) then b\<lparr>kern := k_close (cl_fd (slot b i)) (kern b)\<rparr> else b)"
  have "b_slots base m ?b"
  proof (cases "0 \<le> cl_fd (slot b i)")
    case True
    with slots_close [OF assms] show ?thesis by (simp add: fun_upd_def)
  next
    case False
    then have "slot b i = unused_client" using slots_client [OF assms] by (simp add: client_ok_def)
    then have "(clients b)[i := unused_client] = clients b" by (metis list_update_id)
    with False assms(1) show ?thesis by simp
  qed
  moreover from this have "b_slots base m (update_rumble h True ?b)" by (rule update_rumble_slots)
  ultimately show ?thesis unfolding close_client_def Let_def by presburger
qed

lemma flush_loop_shrinks:
  "flush_loop out s = ((r, out'), s') \<Longrightarrow> length out' \<le> length out"
proof (induction out s arbitrary: r out' s' rule: flush_loop.induct)
  case (1 out s)
  show ?case
  proof (cases "out = []")
    case True
    then show ?thesis using "1.prems" by (subst (asm) flush_loop.simps) simp
  next
    case False
    then show ?thesis using "1.prems" "1.IH"
      by (subst (asm) flush_loop.simps) (fastforce split: prod.splits send_ans.splits if_splits)
  qed
qed

lemma flush_client_slots:
  assumes "b_slots base m b" "i < 16"
  shows "b_slots base m (snd (flush_client i b))"
proof (cases "k_lookup (kern b) (cl_fd (slot b i))")
  case None
  then show ?thesis using assms by (simp add: flush_client_def Let_def)
next
  case (Some s)
  obtain r out s' where l: "flush_loop (cl_output (slot b i)) s = ((r, out), s')" by (metis surj_pair)
  have "0 \<le> cl_fd (slot b i)" using fd_lookup_nonneg [OF Some] .
  moreover have "length out \<le> 16384"
    using flush_loop_shrinks [OF l] slots_client [OF assms] calculation by (auto simp: client_ok_def)
  ultimately show ?thesis
    using Some l slots_client [OF assms] slots_length [OF assms(1)]
    by (auto simp: flush_client_def Let_def fdt.update_lookup client_ok_def
          split: if_split_asm intro!: slots_set [OF assms])
qed

lemma queue_bytes_slots:
  assumes "b_slots base m b" "i < 16" "0 \<le> cl_fd (slot b i)"
  shows "b_slots base m (snd (queue_bytes i data b))"
proof (cases "CLIENT_BUFFER_SIZE - length (cl_output (slot b i)) < length data")
  case True
  then show ?thesis using assms by (simp add: queue_bytes_def Let_def)
next
  case False
  have "b_slots base m (set_slot i ((slot b i)\<lparr>cl_output := cl_output (slot b i) @ data\<rparr>) b)"
    using slots_client [OF assms(1,2)] assms(3) False
    by (auto simp: client_ok_def intro!: slots_set [OF assms(1,2)])
  from flush_client_slots [OF this assms(2)] False show ?thesis
    by (simp add: queue_bytes_def Let_def)
qed

lemma offer_slots:
  assumes "b_slots base m b" "i < 16"
  shows "b_slots base m (offer h kind data i b)"
  using queue_bytes_slots [OF assms] close_client_slots [OF queue_bytes_slots [OF assms] assms(2)] assms(1)
  by (simp add: offer_def split_beta)

lemma fold_preserves:
  assumes "\<And>x b. x \<in> set xs \<Longrightarrow> P b \<Longrightarrow> P (f x b)" "P b"
  shows "P (fold f xs b)"
  using assms by (induction xs arbitrary: b) auto

lemma broadcast_slots:
  assumes "b_slots base m b"
  shows "b_slots base m (broadcast_events h events b)" "b_slots base m (broadcast_hotplug h action b)"
  unfolding broadcast_events_def broadcast_hotplug_def
  by (rule fold_preserves [where P = "b_slots base m"]; use assms offer_slots in simp)+

lemma send_snapshot_slots:
  assumes "b_slots base m b" "i < 16" "0 \<le> cl_fd (slot b i)"
  shows "b_slots base m (send_snapshot h i b)"
proof -
  let ?b = "snd (snapshot_events h b)"
  let ?q = "queue_events i (fst (snapshot_events h b)) ?b"
  have "b_slots base m ?b" "0 \<le> cl_fd (slot ?b i)"
    using assms by (simp_all add: snapshot_events_clock)
  then have "b_slots base m (snd ?q)"
    using queue_bytes_slots assms(2) by (simp add: queue_events_def)
  then show ?thesis using close_client_slots assms(2) by (simp add: send_snapshot_def split_beta)
qed

subsection \<open>Reading from a client\<close>

lemma slots_retarget:
  assumes "slots_inv base m cs lk" "length (cl_control (cs ! i)) \<le> n"
  shows "slots_inv base (m(i := n)) cs lk"
  using assms by (auto simp: slots_inv_def client_ok_def)

lemma close_client_slot:
  assumes "i < length (clients b)"
  shows "slot (close_client h i b) i = unused_client"
proof -
  let ?b = "set_slot i unused_client (if 0 \<le> cl_fd (slot b i) then b\<lparr>kern := k_close (cl_fd (slot b i)) (kern b)\<rparr> else b)"
  have i: "i < length (clients ?b)" "slot ?b i = unused_client" using assms by simp_all
  have "unrumbled (slot ?b i) (slot (update_rumble h True ?b) i)"
    using update_rumble_unrumbled [of ?b h True] i(1) unfolding list_all2_conv_all_nth by blast
  then have "slot (update_rumble h True ?b) i = unused_client"
    unfolding i(2) by (auto simp: unrumbled_def unused_client_def)
  with i(2) show ?thesis unfolding close_client_def Let_def by presburger
qed

lemma flush_client_clients:
  "\<exists>out. clients (snd (flush_client i b)) = (clients b)[i := (slot b i)\<lparr>cl_output := out\<rparr>]"
proof -
  have "\<exists>out. clients b = (clients b)[i := (slot b i)\<lparr>cl_output := out\<rparr>]"
    by (rule exI [of _ "cl_output (slot b i)"]) simp
  then show ?thesis
    by (auto simp: flush_client_def Let_def split: option.split prod.split)
qed

lemma queue_bytes_clients:
  "\<exists>out. clients (snd (queue_bytes i data b)) = (clients b)[i := (slot b i)\<lparr>cl_output := out\<rparr>]"
proof (cases "i < length (clients b)")
  case True
  have keep: "\<exists>out. clients b = (clients b)[i := (slot b i)\<lparr>cl_output := out\<rparr>]"
    by (rule exI [of _ "cl_output (slot b i)"]) simp
  have "\<exists>out. clients (snd (flush_client i (set_slot i (slot b i\<lparr>cl_output := x\<rparr>) b))) =
      (clients b)[i := (slot b i)\<lparr>cl_output := out\<rparr>]" for x
    using flush_client_clients [of i "set_slot i (slot b i\<lparr>cl_output := x\<rparr>) b"] True by simp
  with keep show ?thesis by (simp add: queue_bytes_def Let_def)
next
  case False
  then have same: "set_slot i c b = b" for c by (simp add: set_slot_def list_update_beyond)
  show ?thesis using False flush_client_clients [of i b]
    by (auto simp: queue_bytes_def Let_def list_update_beyond same)
qed

lemma queue_bytes_fd [simp]: "cl_fd (slot (snd (queue_bytes i data b)) j) = cl_fd (slot b j)"
  using queue_bytes_clients [of i data b]
  by (cases "j = i"; cases "i < length (clients b)") (auto simp: list_update_beyond)

lemma handle_control_slots:
  assumes "b_slots base m b" "i < 16" "0 \<le> cl_fd (slot b i)"
  shows "b_slots base m (snd (handle_control h i msg b))"
proof -
  have len: "i < length (clients b)" using slots_length [OF assms(1)] assms(2) by simp
  have upd: "b_slots base m (set_slot i c (b\<lparr>ticks := n\<rparr>))"
    if "cl_fd c = cl_fd (slot b i)" "cl_control c = cl_control (slot b i)" "cl_output c = cl_output (slot b i)" for c n
    using slots_client [OF assms(1,2)] assms(3) that
    by (auto simp: client_ok_def intro!: slots_set [OF assms(1,2)])
  have here: "b_slots base m (set_slot i c b)"
    if "cl_fd c = cl_fd (slot b i)" "cl_control c = cl_control (slot b i)" "cl_output c = cl_output (slot b i)" for c
    using upd [OF that, of "ticks b"] by simp
  have queue: "b_slots base m (snd (queue_bytes i data (set_slot i ((slot b i)\<lparr>cl_kind := kind\<rparr>) b)))" for data kind
    by (rule queue_bytes_slots [OF here]) (use assms len in simp_all)
  consider "cm_command msg = TG_CONTROL_RUMBLE" | "cm_command msg = TG_CONTROL_STOP_RUMBLE"
    | "cm_command msg = TG_CONTROL_QUERY_DESCRIPTOR" | "cm_command msg = TG_CONTROL_MONITOR"
    | "cm_command msg \<notin> {1, 2, 3, 4}" by auto
  then show ?thesis
  proof cases
    case 1
    then show ?thesis
      using update_rumble_slots [OF upd]
      by (simp add: handle_control_def monotonic_ms_def read_clock_def Let_def)
  next
    case 2
    then show ?thesis using update_rumble_slots [OF here] by (simp add: handle_control_def)
  next
    case 3
    show ?thesis
      using 3 queue send_snapshot_slots [OF queue assms(2)] assms(3) len
      by (simp add: handle_control_def split_beta)
  next
    case 4
    then show ?thesis using queue by (simp add: handle_control_def Let_def)
  next
    case 5
    then show ?thesis using assms(1) by (simp add: handle_control_def)
  qed
qed

lemma control_loop_slots:
  assumes "b_slots base m b" "i < 16"
  shows "b_slots base m (snd (control_loop h i b))"
proof (rule control_loop_invariant [where P = "b_slots base m"])
  fix b msg
  assume b: "b_slots base m b" "i < length (clients b)" "16 \<le> length (cl_control (slot b i))"
  let ?c = "slot b i\<lparr>cl_control := drop 16 (cl_control (slot b i))\<rparr>"
  have "slot b i \<noteq> unused_client" using b(3) by (auto simp: unused_client_def)
  then have fd: "0 \<le> cl_fd (slot b i)" using slots_client [OF b(1) assms(2)] by (auto simp: client_ok_def split: if_splits)
  have "b_slots base m (set_slot i ?c b)"
    using slots_client [OF b(1) assms(2)] fd
    by (auto simp: client_ok_def intro!: slots_set [OF b(1) assms(2)])
  then show "b_slots base m (snd (handle_control h i msg (set_slot i ?c b)))"
    by (rule handle_control_slots) (use assms(2) fd b(2) in simp_all)
qed (rule assms(1))

text \<open>When the loop ends well, less than a message is left.\<close>

lemma control_loop_rest:
  assumes "control_loop h i b = (True, b')" "i < length (clients b)"
  shows "length (cl_control (slot b' i)) < 16"
  using assms
proof (induction h i b rule: control_loop.induct)
  case (1 h i b)
  let ?m = "dec_control (take 16 (cl_control (slot b i)))"
  let ?b = "set_slot i ((slot b i)\<lparr>cl_control := drop 16 (cl_control (slot b i))\<rparr>) b"
  show ?case
  proof (cases "length (cl_control (slot b i)) < 16")
    case True
    then show ?thesis using "1.prems" by (subst (asm) control_loop.simps) auto
  next
    case False
    obtain ok b1 where h: "handle_control h i ?m ?b = (ok, b1)" by fastforce
    have "length (clients b1) = length (clients b)"
      using handle_control_kept [of ?b h i ?m] h by (auto simp: slots_kept_def dest: list_all2_lengthD)
    then show ?thesis using "1.prems" "1.IH" [OF _ refl refl _ h [symmetric]] False h
      by (subst (asm) control_loop.simps) (auto simp: Let_def split: if_splits)
  qed
qed

lemma k_recv_slots:
  assumes "b_slots base m b" "i < 16" "k_recv_dontwait (cl_fd (slot b i)) n (kern b) = (a, k)"
  shows "slots_inv base m (clients b) (k_lookup k)"
proof (cases "0 \<le> cl_fd (slot b i)")
  case True
  have "slots_inv base m ((clients b)[i := slot b i]) (k_lookup k)"
    using slots_client [OF assms(1,2)] True k_recv_dontwait_lookup [OF assms(3)]
    by (intro slots_set [OF assms(1,2)]) (auto simp: client_ok_def)
  then show ?thesis by simp
next
  case False
  then have "k_lookup (kern b) (cl_fd (slot b i)) = None" by (simp add: fdt.lookup_neg)
  then show ?thesis using assms by (simp add: k_recv_dontwait_def)
qed

lemma receive_slots:
  assumes "b_slots base m b" "i < 16" "0 \<le> cl_fd (slot b i)" "m i \<le> 256"
    and "receive_control_messages h i b = (ok, b')"
  shows "b_slots base (m(i := 256)) b'" and "ok \<Longrightarrow> m i = 15 \<Longrightarrow> b_slots base m b'"
proof -
  let ?c = "slot b i"
  obtain a k where r: "k_recv_dontwait (cl_fd ?c) (256 - length (cl_control ?c)) (kern b) = (a, k)" by fastforce
  have "length (cl_control ?c) \<le> m i" using slots_client [OF assms(1,2)] assms(3) by (simp add: client_ok_def)
  then have room: "length (cl_control ?c) \<le> 256" using assms(4) by simp
  have len: "i < length (clients b)" using slots_length [OF assms(1)] assms(2) by simp
  have wide: "slots_inv base (m(i := 256)) cs lk" if "slots_inv base m cs lk" for cs lk
    using slots_weaken [OF that] assms(4) by simp
  note k = k_recv_slots [OF assms(1,2) r]
  have "b_slots base (m(i := 256)) b' \<and> (ok \<longrightarrow> m i = 15 \<longrightarrow> b_slots base m b')"
  proof (cases a)
    case (RecvErr e)
    then show ?thesis using assms(1,5) r k wide
      by (auto simp: receive_control_messages_def Let_def split: if_splits)
  next
    case (Data bs)
    show ?thesis
    proof (cases "length (cl_control ?c) = 256 \<or> bs = []")
      case True
      then show ?thesis using Data assms(1,5) r k wide
        by (auto simp: receive_control_messages_def Let_def split: if_splits)
    next
      case False
      let ?b = "set_slot i (?c\<lparr>cl_control := cl_control ?c @ bs\<rparr>) (b\<lparr>kern := k\<rparr>)"
      have loop: "control_loop h i ?b = (ok, b')"
        using False Data assms(5) r by (simp add: receive_control_messages_def Let_def)
      have "length bs \<le> 256 - length (cl_control ?c)"
        using r Data by (auto simp: k_recv_dontwait_def split: option.splits prod.splits dest: sock_recv_length)
      then have "b_slots base (m(i := 256)) ?b"
        using slots_client [OF k assms(2)] assms(3) room
        by (auto simp: client_ok_def intro!: slots_set [OF k assms(2)])
      from control_loop_slots [OF this assms(2), of h] loop have b': "b_slots base (m(i := 256)) b'" by simp
      moreover have "b_slots base m b'" if "ok" "m i = 15"
      proof -
        have "length (cl_control (slot b' i)) < 16"
          using control_loop_rest [of h i ?b b'] loop that len by simp
        then have "b_slots base ((m(i := 256))(i := 15)) b'" by (intro slots_retarget [OF b']) simp
        with that show ?thesis by (simp add: fun_upd_idem)
      qed
      ultimately show ?thesis by blast
    qed
  qed
  then show "b_slots base (m(i := 256)) b'" "ok \<Longrightarrow> m i = 15 \<Longrightarrow> b_slots base m b'" by blast+
qed

end
