(* ===== verification/BridgeSystem.thy ===== *)
theory BridgeSystem
  imports BridgeInvariant
begin

text \<open>
  The invariant for the whole daemon: accepting and serving clients, XI2 events, replacing the
  controller, the turns of the loop as a transition system, start-up and shutdown.
\<close>

section \<open>Accepting and serving\<close>

lemma k_accept_lookup:
  assumes "k_accept s k = (f, k')"
  shows "k_lookup k f = None \<and> 0 \<le> f \<and> k_lookup k' f \<noteq> None \<and> (\<forall>g. g \<noteq> f \<longrightarrow> k_lookup k' g = k_lookup k g)"
proof -
  let ?s = "s\<lparr>sent := [], nonblock := False, cloexec := False\<rparr>"
  have "f = fst (fd_alloc ?s (fds k))" "fds k' = snd (fd_alloc ?s (fds k))"
    using assms by (auto simp: k_accept_def split: prod.splits)
  then show ?thesis using fdt.alloc_fresh [of "fds k" ?s] fdt.alloc_nonneg [of ?s "fds k"]
    by (simp add: fdt.alloc_lookup)
qed

lemma bridge_set_nonblocking_lookup:
  assumes "bridge_set_nonblocking f k = (ok, k')"
  shows "(\<forall>g. g \<noteq> f \<longrightarrow> k_lookup k' g = k_lookup k g) \<and> (\<forall>g. (k_lookup k' g = None) = (k_lookup k g = None))"
proof -
  obtain r k1 where n: "k_set_nonblock f k = (r, k1)" by fastforce
  have l: "\<forall>g. g \<noteq> f \<longrightarrow> k_lookup k1 g = k_lookup k g" "\<forall>g. (k_lookup k1 g = None) = (k_lookup k g = None)"
    using k_set_nonblock_lookup [OF n] by blast+
  have "k' = (if r = None then k_set_cloexec f k1 else k1)"
    using assms n by (auto simp: bridge_set_nonblocking_def split: option.splits)
  moreover have "\<forall>g. g \<noteq> f \<longrightarrow> k_lookup (k_set_cloexec f k1) g = k_lookup k1 g"
    "\<forall>g. (k_lookup (k_set_cloexec f k1) g = None) = (k_lookup k1 g = None)"
    by (auto simp: k_set_cloexec_def fdt.update_lookup split: option.splits if_splits)
  ultimately show ?thesis using l by simp
qed

lemma free_index_free: "free_index cs < length cs \<Longrightarrow> cl_fd (cs ! free_index cs) < 0"
  by (induction cs) auto

lemma free_index_lowest: "i < free_index cs \<Longrightarrow> i < length cs \<Longrightarrow> 0 \<le> cl_fd (cs ! i)"
proof (induction cs arbitrary: i)
  case Nil
  then show ?case by simp
next
  case (Cons c cs)
  then show ?case by (cases i) (auto split: if_splits)
qed

lemma admit_slots:
  assumes "b_slots base m b"
  shows "b_slots base m (admit s b)"
proof -
  obtain f k where a: "k_accept s (kern b) = (f, k)" by fastforce
  obtain ok k' where n: "bridge_set_nonblocking f k = (ok, k')" by fastforce
  note la = k_accept_lookup [OF a] and ln = bridge_set_nonblocking_lookup [OF n]
  let ?i = "free_index (clients b)"
  have len: "length (clients b) = 16" using assms by (rule slots_length)
  show ?thesis
  proof (cases "ok \<and> ?i < 16")
    case True
    have "b_slots base m (set_slot ?i (unused_client\<lparr>cl_fd := f\<rparr>) (b\<lparr>kern := k'\<rparr>))"
      using slots_admit [OF assms, of ?i f "k_lookup k'"] True la ln free_index_free [of "clients b"] len
      by simp
    with True a n len show ?thesis by (simp add: admit_def Let_def)
  next
    case False
    have "k_lookup (k_close f k') = k_lookup (kern b)"
      using la ln by (intro ext) auto
    moreover have "admit s b = b\<lparr>kern := k_close f k'\<rparr>"
      using False a n len by (auto simp: admit_def Let_def)
    ultimately show ?thesis using assms by simp
  qed
qed

lemma accept_slots: "b_slots base m b \<Longrightarrow> b_slots base m (accept_clients r b)"
  by (induction r b rule: accept_clients.induct) (auto intro: admit_slots)

lemma serve_slots:
  assumes "b_slots base (\<lambda>_. 15) b" "i < 16"
  shows "b_slots base (\<lambda>_. 15) (serve_client h revents i b)"
proof (cases "cl_fd (slot b i) < 0")
  case True
  then show ?thesis using assms by (simp add: serve_client_def)
next
  case False
  obtain fl b1 where f: "(if revents AND POLLOUT \<noteq> 0 then flush_client i b else (True, b)) = (fl, b1)" by fastforce
  have b1: "b1 = snd (flush_client i b) \<or> b1 = b" using f by (auto split: if_splits)
  have flushed: "b_slots base (\<lambda>_. 15) b1" using assms b1 flush_client_slots by auto
  have fd: "0 \<le> cl_fd (slot b1 i)"
    using b1 flush_client_clients [of i b] False assms(2) slots_length [OF assms(1)] by auto
  have closed: "b_slots base (\<lambda>_. 15) (close_client h i b1)"
    using close_client_slots [OF flushed assms(2)] .
  obtain ok b' where r: "receive_control_messages h i b1 = (ok, b')" by fastforce
  note rs = receive_slots [OF flushed assms(2) fd _ r]
  have "b_slots base (\<lambda>_. 15) (close_client h i b')"
  proof -
    have "b_slots base ((\<lambda>_. 15)(i := 256)) (close_client h i b')"
      using close_client_slots [OF rs(1) assms(2)] by simp
    moreover have "slot (close_client h i b') i = unused_client"
      using slots_length [OF rs(1)] assms(2) by (intro close_client_slot) simp
    ultimately have "b_slots base (((\<lambda>_. 15)(i := 256))(i := 15)) (close_client h i b')"
      by - (rule slots_retarget, simp_all add: unused_client_def)
    moreover have "((\<lambda>_. 15 :: nat)(i := 256))(i := 15) = (\<lambda>_. 15)" by (simp add: fun_eq_iff)
    ultimately show ?thesis by simp
  qed
  moreover have "ok \<Longrightarrow> b_slots base (\<lambda>_. 15) b'" using rs(2) by simp
  ultimately show ?thesis using False flushed closed r
    unfolding serve_client_def f by (simp add: Let_def split: prod.split)
qed

section \<open>The pad\<close>

lemma pressed_bit: "1 \<le> d \<Longrightarrow> d \<le> 32 \<Longrightarrow> pressed st d \<longleftrightarrow> bit (gs_buttons st) (d - 1)"
  by (simp add: pressed_def push_bit_of_1 and_exp_eq_0_iff_not_bit)

lemma hat_value_cong: "gs_buttons s = gs_buttons t \<Longrightarrow> hat_value s = hat_value t"
  by (simp add: hat_value_def pressed_def fun_eq_iff)

lemma pad_ok_zero: "pad_ok zero_state"
  by (auto simp: pad_ok_def zero_state_def axis_bounds_def hat_value_def pressed_def)

lemma convert_axis_bounds: "axis_bounds axis (convert_axis axis v)"
  by (auto simp: axis_bounds_def convert_axis_def clamp_int_def)

text \<open>The conversions change the state of the pad, keep it in bounds, and read the clock.\<close>

definition pad_change :: "bridge \<Rightarrow> bridge \<Rightarrow> bool" where
  "pad_change b b' \<longleftrightarrow> b'\<lparr>state := state b, ticks := ticks b\<rparr> = b \<and> pad_ok (state b')"

lemma set_axis_pad:
  assumes "pad_change b (snd eb)" "axis < 6" "axis_bounds axis v"
  shows "pad_change b (snd (set_axis h axis v eb))"
proof (cases eb)
  case (Pair events b')
  then have "pad_ok ((state b')\<lparr>gs_axes := (gs_axes (state b'))[axis := v]\<rparr>)"
    using assms by (auto simp: pad_change_def pad_ok_def nth_list_update hat_value_def pressed_def)
  with assms(1) Pair show ?thesis by (simp add: set_axis_def pad_change_def)
qed

lemma motion_loop_pad:
  assumes "pad_change b (snd eb)"
  shows "pad_change b (snd (motion_loop h bits axes vs eb))"
  using assms
proof (induction h bits axes vs eb rule: motion_loop.induct)
  case (1 h bits vs eb)
  then show ?case by simp
next
  case (2 h bits axis axes vs eb)
  then show ?case using set_axis_pad [OF "2.prems" _ convert_axis_bounds] by simp
qed

lemma press_button_pad:
  assumes "pad_ok (state b)" "1 \<le> detail" "detail \<le> 16"
  shows "pad_change b (snd (press_button h detail press b))"
proof -
  let ?b1 = "push_bit (detail - 1) (1 :: u32)"
  define bs where "bs = (if press then gs_buttons (state b) OR ?b1 else gs_buttons (state b) AND NOT ?b1)"
  have fits: "take_bit 16 bs = bs"
  proof (rule bit_word_eqI)
    fix n assume "n < LENGTH(32)"
    have "n < 16" if "bit (gs_buttons (state b)) n"
      using assms(1) that by (metis pad_ok_def bit_take_bit_iff)
    with assms(2,3) show "bit (take_bit 16 bs) n = bit bs n"
      by (auto simp: bs_def bit_take_bit_iff bit_or_iff bit_and_iff bit_not_iff bit_exp_iff)
  qed
  have hat: "hat_value (state b\<lparr>gs_buttons := bs\<rparr>) x y = hat_value (state b) x y"
    if "\<not> (11 \<le> detail \<and> detail \<le> 14)" "x \<in> {11..14}" "y \<in> {11..14}" for x y
  proof -
    have "bit bs (z - 1) = bit (gs_buttons (state b)) (z - 1)" if "z \<in> {11..14}" for z
      using \<open>\<not> (11 \<le> detail \<and> detail \<le> 14)\<close> that assms(2)
      by (auto simp: bs_def bit_or_iff bit_and_iff bit_not_iff bit_exp_iff)
    with that show ?thesis by (simp add: hat_value_def pressed_bit)
  qed
  have keep: "hat_value (st\<lparr>gs_hat_x := x\<rparr>) = hat_value st" "hat_value (st\<lparr>gs_hat_y := x\<rparr>) = hat_value st" for st x
    by (simp_all add: hat_value_def pressed_def fun_eq_iff)
  have same: "pad_change b b" using assms(1) by (simp add: pad_change_def)
  show ?thesis
    using assms(1) fits hat same
    unfolding press_button_def Let_def bs_def [symmetric]
    by (auto simp: pad_change_def set_hat_def Let_def pad_ok_def keep)
qed

lemma convert_xi_event_pad:
  assumes "pad_ok (state b)"
  shows "pad_change b (snd (convert_xi_event h ev b))"
proof -
  have "pad_change b b" using assms by (simp add: pad_change_def)
  then show ?thesis
    using motion_loop_pad press_button_pad [OF assms, of "nat (xe_detail ev)"]
    by (simp add: convert_xi_event_def nat_le_iff le_nat_iff)
qed

lemma bridge_inv_pad:
  assumes "bridge_inv base m b" "pad_change b b'"
  shows "bridge_inv base m b'"
proof -
  have "clients b' = clients b" "kern b' = kern b" "device_ok b' = device_ok b"
    using assms(2) by (cases b; cases b'; simp add: pad_change_def device_ok_def)+
  then show ?thesis using assms by (simp add: bridge_inv_def pad_change_def)
qed

lemma pad_change_event:
  "pad_change b (snd eb) \<Longrightarrow> pad_change b (snd (append_event h ty code v eb))"
  by (simp add: pad_change_def)

lemma process_xi_event_inv:
  assumes "bridge_inv base m b"
  shows "bridge_inv base m (process_xi_event h ev device_id b)"
proof -
  let ?c = "convert_xi_event h ev b"
  have c: "pad_change b (snd ?c)"
    using assms by (simp add: bridge_inv_def convert_xi_event_pad)
  let ?a = "append_event h TG_EV_SYN TG_SYN_REPORT 0 ?c"
  have inv: "bridge_inv base m (snd ?c)" "bridge_inv base m (snd ?a)"
    using bridge_inv_pad [OF assms c] bridge_inv_pad [OF assms pad_change_event [OF c]] by simp_all
  have "bridge_inv base m (broadcast_events h (fst ?a) (snd ?a))"
    using static_inv [OF static_broadcast(1) inv(2)] broadcast_slots(1) inv(2)
    unfolding bridge_inv_def by blast
  with inv(1) assms show ?thesis
    by (simp add: process_xi_event_def split_beta del: append_event_clock)
qed

section \<open>The controller\<close>

text \<open>Questions to the X server change only the request log and the counter.\<close>

definition asking :: "bridge \<Rightarrow> bridge \<Rightarrow> bool" where
  "asking b b' \<longleftrightarrow> b'\<lparr>x_sent := x_sent b, x_asked := x_asked b\<rparr> = b"

lemma asking_refl [simp]: "asking b b"
  by (simp add: asking_def)

lemma asking_fields:
  assumes "asking b b'"
  shows "static b' = static b" "clients b' = clients b" "kern b' = kern b" "ticks b' = ticks b"
    "active_rumble_low b' = active_rumble_low b" "active_rumble_high b' = active_rumble_high b"
  using assms by (cases b; cases b'; simp add: asking_def static_def)+

lemma asking_trans: "asking a b \<Longrightarrow> asking b c \<Longrightarrow> asking a c"
  by (cases a; cases b; cases c) (simp add: asking_def)

lemma asking_inv: "asking b b' \<Longrightarrow> bridge_inv base m b \<Longrightarrow> bridge_inv base m b'"
  using asking_fields static_inv [of b' b base m m] by (simp add: bridge_inv_def)

lemma query_asking:
  "asking b (snd (query_lorie_version h b))"
  "asking b (snd (query_lorie_capabilities h d b))"
  "asking b (snd (x_ask b))" "asking b (snd (select_device h d b))" "asking b (snd (select_hierarchy h b))"
  by (auto simp: query_lorie_version_def query_lorie_capabilities_def x_ask_def x_request_def
        select_device_def select_hierarchy_def Let_def asking_def split: option.split)

lemma query_capabilities_id:
  "query_lorie_capabilities h d b = (Some reply, b') \<Longrightarrow> d = int (unat (qr_deviceId reply))"
  by (auto simp: query_lorie_capabilities_def x_ask_def Let_def split: option.splits if_splits)

lemma snprintf_s_facts:
  assumes "0 < n" "n \<le> length dst"
  shows "length (snprintf_s dst n src) = length dst \<and> terminated (snprintf_s dst n src) \<and>
    cstr (snprintf_s dst n src) = take (n - 1) (cstr src)"
proof -
  have "0 \<notin> set (take (n - 1) (cstr src))" using cstr_nonzero in_set_takeD by fast
  moreover have "length (take (n - 1) (cstr src)) < n" using assms by auto
  ultimately show ?thesis using assms
    by (auto simp: snprintf_s_def Let_def terminated_def cstr_append_zero)
qed

lemma find_device_loop_spec:
  assumes "find_device_loop h ds b = (found, b')"
  shows "asking b b' \<and> (\<forall>device_id reply name. found = Some (device_id, reply, name) \<longrightarrow>
    0 \<le> device_id \<and> length name = 64 \<and> terminated name)"
  using assms
proof (induction h ds b arbitrary: found b' rule: find_device_loop.induct)
  case (1 h b)
  then show ?case by simp
next
  case (2 h d ds b)
  obtain r b1 where q: "query_lorie_capabilities h (xd_deviceid d) b = (r, b1)" by fastforce
  then have a: "asking b b1" using query_asking(2) [of b h "xd_deviceid d"] by simp
  show ?case
  proof (cases "(xd_use d = XIFloatingSlave \<or> xd_use d = XISlavePointer) \<and> r \<noteq> None")
    case True
    then obtain reply where r: "r = Some reply" by blast
    then have "0 \<le> xd_deviceid d" using query_capabilities_id q by fastforce
    then show ?thesis using True "2.prems" q r a snprintf_s_facts [of 64 "replicate 64 0"] by auto
  next
    case False
    show ?thesis
    proof (cases "xd_use d = XIFloatingSlave \<or> xd_use d = XISlavePointer")
      case True
      with False have r: "r = None" by simp
      have rec: "find_device_loop h ds b1 = (found, b')" using "2.prems" True q r by auto
      from "2.IH"(1) [OF True q [symmetric] r rec] asking_trans [OF a] show ?thesis by blast
    next
      case False
      then show ?thesis using "2.prems" "2.IH"(2) by simp
    qed
  qed
qed

lemma find_lorie_device_spec:
  assumes "find_lorie_device h b = (found, b')"
  shows "asking b b'"
    and "found = Some (device_id, reply, name) \<Longrightarrow> 0 \<le> device_id \<and> length name = 64 \<and> terminated name"
proof -
  obtain n b1 where x: "x_ask b = (n, b1)" by fastforce
  have "asking b b' \<and> (\<forall>device_id reply name. found = Some (device_id, reply, name) \<longrightarrow>
    0 \<le> device_id \<and> length name = 64 \<and> terminated name)"
    using assms x query_asking(3) [of b] find_device_loop_spec asking_trans
    by (fastforce simp: find_lorie_device_def split: option.splits)
  then show "asking b b'"
    "found = Some (device_id, reply, name) \<Longrightarrow> 0 \<le> device_id \<and> length name = 64 \<and> terminated name"
    by blast+
qed

lemma forget_device_inv:
  assumes "bridge_inv base m b"
  shows "bridge_inv base m (forget_device h b)"
proof -
  let ?b = "b\<lparr>lorie_device_id := -1, lorie_capabilities := 0, state := zero_state,
          device_descriptor := (device_descriptor b)\<lparr>dd_present := 0, dd_device_id := -1\<rparr>\<rparr>"
  have "bridge_inv base m ?b"
    using assms pad_ok_zero by (auto simp: bridge_inv_def device_ok_def Let_def wf_descriptor_def)
  then show ?thesis unfolding forget_device_def
    using static_inv [OF static_broadcast(2)] broadcast_slots(2) bridge_inv_def by metis
qed

lemma forget_device_id: "lorie_device_id (forget_device h b) = -1" "device_descriptor (forget_device h b) =
    (device_descriptor b)\<lparr>dd_present := 0, dd_device_id := -1\<rparr>"
  using static_broadcast(2) [of h TG_HOTPLUG_REMOVE "b\<lparr>lorie_device_id := -1, lorie_capabilities := 0, state := zero_state,
          device_descriptor := (device_descriptor b)\<lparr>dd_present := 0, dd_device_id := -1\<rparr>\<rparr>"]
  by (simp_all add: forget_device_def static_def)

lemma add_device_inv:
  assumes "bridge_inv base m b" "0 \<le> device_id"
  shows "bridge_inv base m (broadcast_hotplug h TG_HOTPLUG_ADD
    (b\<lparr>lorie_device_id := device_id, lorie_capabilities := qr_capabilities reply,
       device_descriptor := new_descriptor device_id reply name\<rparr>))"
proof -
  let ?b = "b\<lparr>lorie_device_id := device_id, lorie_capabilities := qr_capabilities reply,
       device_descriptor := new_descriptor device_id reply name\<rparr>"
  have "bridge_inv base m ?b"
    using assms snprintf_s_facts [of 64 "replicate 64 0" name]
    by (simp add: bridge_inv_def device_ok_def Let_def wf_descriptor_def new_descriptor_def zero_descriptor_def)
  then show ?thesis
    using static_inv [OF static_broadcast(2)] broadcast_slots(2) bridge_inv_def by metis
qed

lemma refresh_lorie_device_inv:
  assumes "bridge_inv base m b"
  shows "bridge_inv base m (snd (refresh_lorie_device h b))"
proof -
  obtain found b1 where f: "find_lorie_device h b = (found, b1)" by fastforce
  have b1: "bridge_inv base m b1" using asking_inv [OF find_lorie_device_spec(1) [OF f] assms] .
  define b2 where "b2 = (if 0 \<le> lorie_device_id b1 then forget_device h b1 else b1)"
  have b2: "bridge_inv base m b2" using b1 forget_device_inv by (simp add: b2_def)
  show ?thesis
  proof (cases found)
    case None
    then show ?thesis using f b2 by (simp add: refresh_lorie_device_def b2_def Let_def)
  next
    case (Some t)
    then obtain device_id reply name where t: "found = Some (device_id, reply, name)" by (cases t) auto
    obtain ok b3 where s: "select_device h device_id b2 = (ok, b3)" by fastforce
    have b3: "bridge_inv base m b3" using asking_inv [OF _ b2] query_asking(4) [of b2 h device_id] s by simp
    have "0 \<le> device_id" using find_lorie_device_spec(2) [OF f t] by simp
    from add_device_inv [OF b3 this] b1 b2 b3 f t s show ?thesis
      unfolding refresh_lorie_device_def b2_def Let_def by (simp add: b2_def)
  qed
qed

lemma pump_x_event_inv: "bridge_inv base m b \<Longrightarrow> bridge_inv base m (pump_x_event h op ev b)"
  by (simp add: pump_x_event_def refresh_lorie_device_inv process_xi_event_inv)

lemma pump_x_events_inv: "bridge_inv base m b \<Longrightarrow> bridge_inv base m (pump_x_events h op evs b)"
  unfolding pump_x_events_def by (rule fold_preserves [where P = "bridge_inv base m"]) (simp add: pump_x_event_inv)

section \<open>The daemon as a transition system\<close>

text \<open>
  A step is one handler, in any order and with any input: more than the loop of \<open>main\<close> can do. The
  last step is the outside world: a client sends more data, or its receive buffer changes.
\<close>

inductive bridge_step :: "host \<Rightarrow> bridge \<Rightarrow> bridge \<Rightarrow> bool" for h where
  x_event: "bridge_step h b (pump_x_event h xi_opcode event b)"
| accept: "bridge_step h b (accept_clients answers b)"
| serve: "i < MAX_CLIENTS \<Longrightarrow> bridge_step h b (serve_client h revents i b)"
| rumble: "bridge_step h b (update_rumble h force b)"
| peer: "i < MAX_CLIENTS \<Longrightarrow> k_lookup (kern b) (cl_fd (slot b i)) = Some s \<Longrightarrow>
    bridge_step h b (b\<lparr>kern := (kern b)\<lparr>fds :=
      fd_update (cl_fd (slot b i)) (s\<lparr>rx := rx', tx := tx'\<rparr>) (fds (kern b))\<rparr>\<rparr>)"

definition fresh_bridge :: "(fd \<Rightarrow> sock option) \<Rightarrow> bridge \<Rightarrow> bool" where
  "fresh_bridge base b \<longleftrightarrow>
     clients b = replicate MAX_CLIENTS unused_client \<and> pad_ok (state b) \<and> device_ok b \<and>
     k_lookup (kern b) = base"

abbreviation bridge_good :: "(fd \<Rightarrow> sock option) \<Rightarrow> bridge \<Rightarrow> bool" where
  "bridge_good base \<equiv> bridge_inv base (\<lambda>_. 15)"

lemma fresh_bridge_good: "fresh_bridge base b \<Longrightarrow> bridge_good base b"
  by (auto simp: fresh_bridge_def bridge_inv_def slots_inv_def client_ok_def unused_client_def)

lemma peer_slots:
  assumes "b_slots base m b" "i < 16" "k_lookup (kern b) (cl_fd (slot b i)) = Some s"
  shows "slots_inv base m (clients b) (fd_lookup (fd_update (cl_fd (slot b i)) s' (fds (kern b))))"
proof -
  have "slots_inv base m ((clients b)[i := slot b i]) (fd_lookup (fd_update (cl_fd (slot b i)) s' (fds (kern b))))"
    using slots_client [OF assms(1,2)] assms(3)
    by (intro slots_set [OF assms(1,2)]) (auto simp: fdt.update_lookup client_ok_def split: if_split_asm)
  then show ?thesis by simp
qed

lemma bridge_step_inv:
  assumes "bridge_step h b b'" "bridge_good base b"
  shows "bridge_good base b'"
  using assms
proof cases
  case x_event
  then show ?thesis using assms(2) by (simp add: pump_x_event_inv)
next
  case (accept answers)
  have "b_slots base (\<lambda>_. 15) b'" using accept accept_slots assms(2) by (simp add: bridge_inv_def)
  then show ?thesis using static_inv [OF _ assms(2)] accept by (simp add: stays)
next
  case (serve i revents)
  have "b_slots base (\<lambda>_. 15) b'" using serve serve_slots assms(2) by (simp add: bridge_inv_def)
  then show ?thesis using static_inv [OF _ assms(2)] serve by (simp add: stays)
next
  case (rumble force)
  have "b_slots base (\<lambda>_. 15) b'" using rumble update_rumble_slots assms(2) by (simp add: bridge_inv_def)
  then show ?thesis using static_inv [OF _ assms(2)] rumble by (simp add: stays)
next
  case (peer i s rx' tx')
  have "b_slots base (\<lambda>_. 15) b'"
    using peer peer_slots [of base _ b i s] assms(2) by (simp add: bridge_inv_def)
  then show ?thesis using static_inv [OF _ assms(2)] peer by (simp add: stays)
qed

interpretation bridge_ts: transition_system "fresh_bridge base" "bridge_step h" "bridge_good base"
  for base h
  by unfold_locales (fact fresh_bridge_good, rule bridge_step_inv)

text \<open>The turns of the loop are made of these steps.\<close>

lemma fold_steps:
  assumes "\<And>x b. x \<in> set xs \<Longrightarrow> bridge_step h b (f x b)"
  shows "(bridge_step h)\<^sup>*\<^sup>* b (fold f xs b)"
  using assms
proof (induction xs arbitrary: b)
  case Nil
  show ?case by simp
next
  case (Cons x xs)
  then show ?case by (metis converse_rtranclp_into_rtranclp fold_simps(2) list.set_intros)
qed

lemma pump_x_events_steps: "(bridge_step h)\<^sup>*\<^sup>* b (pump_x_events h op evs b)"
  unfolding pump_x_events_def by (rule fold_steps) (rule x_event)

lemma loop_turn_steps: "(bridge_step h)\<^sup>*\<^sup>* b (loop_turn h op rd b)"
proof -
  let ?rev = "\<lambda>i. poll_answer (poll_requests b ! i) (rd_ready rd i)"
  let ?b1 = "if rd_display rd AND (POLLIN OR POLLERR OR POLLHUP) \<noteq> 0 then pump_x_events h op (rd_events1 rd) b else b"
  let ?b2 = "if rd_server rd AND POLLIN \<noteq> 0 then accept_clients (rd_accepts rd) ?b1 else ?b1"
  let ?b3 = "fold (\<lambda>i. serve_client h (?rev i) i) [0..<MAX_CLIENTS] ?b2"
  let ?b4 = "pump_x_events h op (rd_events2 rd) ?b3"
  have 1: "(bridge_step h)\<^sup>*\<^sup>* b ?b1" using pump_x_events_steps by simp
  have 2: "(bridge_step h)\<^sup>*\<^sup>* ?b1 ?b2" using bridge_step.accept by auto
  have 3: "(bridge_step h)\<^sup>*\<^sup>* ?b2 ?b3" by (rule fold_steps) (auto intro: serve)
  have 4: "(bridge_step h)\<^sup>*\<^sup>* ?b3 ?b4" by (rule pump_x_events_steps)
  have 5: "(bridge_step h)\<^sup>*\<^sup>* ?b4 (update_rumble h False ?b4)" using bridge_step.rumble by auto
  have "loop_turn h op rd b = update_rumble h False ?b4" unfolding loop_turn_def Let_def ..
  with rtranclp_trans [OF 1 rtranclp_trans [OF 2 rtranclp_trans [OF 3 rtranclp_trans [OF 4 5]]]]
  show ?thesis by simp
qed

lemma main_loop_steps: "(bridge_step h)\<^sup>*\<^sup>* b (main_loop h op rounds b)"
proof (induction rounds arbitrary: b)
  case Nil
  show ?case by simp
next
  case (Cons rd rounds)
  show ?case using rtranclp_trans [OF loop_turn_steps Cons.IH] Cons.IH by (auto split: option.split)
qed

section \<open>Start-up\<close>

lemma create_server_lookup:
  assumes "create_server env path b = (r, b')"
  shows "static (b'\<lparr>fs_ops := fs_ops b\<rparr>) = static b" "clients b' = clients b"
    and "r = None \<Longrightarrow> k_lookup (kern b') = k_lookup (kern b)"
    and "r = Some f \<Longrightarrow> 0 \<le> f \<and> k_lookup (kern b) f = None \<and> k_lookup (kern b') f \<noteq> None \<and>
      (\<forall>g. g \<noteq> f \<longrightarrow> k_lookup (kern b') g = k_lookup (kern b) g)"
proof -
  show "static (b'\<lparr>fs_ops := fs_ops b\<rparr>) = static b" "clients b' = clients b"
    using assms by (auto simp: create_server_def Let_def static_def split: if_splits option.splits prod.splits)
  let ?s = "blank_sock\<lparr>ctl := se_ctl env\<rparr>"
  obtain f' t where a: "fd_alloc ?s (fds (kern b)) = (f', t)" by fastforce
  then have fresh: "0 \<le> f'" "k_lookup (kern b) f' = None" "fd_lookup t f' \<noteq> None"
    "\<And>g. g \<noteq> f' \<Longrightarrow> fd_lookup t g = k_lookup (kern b) g"
    using fdt.alloc_fresh [of "fds (kern b)" ?s] fdt.alloc_nonneg [of ?s "fds (kern b)"]
      fdt.alloc_lookup [of ?s "fds (kern b)"] by simp_all
  obtain ok k where n: "bridge_set_nonblocking f' ((kern b)\<lparr>fds := t\<rparr>) = (ok, k)" by fastforce
  have k: "k_lookup k f' \<noteq> None" "\<And>g. g \<noteq> f' \<Longrightarrow> k_lookup k g = k_lookup (kern b) g"
    using bridge_set_nonblocking_lookup [OF n] fresh by auto
  have restored: "(k_lookup k)(f' := None) = k_lookup (kern b)" using k(2) fresh(2) by auto
  show "r = None \<Longrightarrow> k_lookup (kern b') = k_lookup (kern b)"
    using assms a n restored by (auto simp: create_server_def Let_def split: if_splits option.splits)
  show "r = Some f \<Longrightarrow> 0 \<le> f \<and> k_lookup (kern b) f = None \<and> k_lookup (kern b') f \<noteq> None \<and>
      (\<forall>g. g \<noteq> f \<longrightarrow> k_lookup (kern b') g = k_lookup (kern b) g)"
    using assms a n k fresh by (auto simp: create_server_def Let_def split: if_splits option.splits)
qed

lemma asking_clients: "asking b b' \<Longrightarrow> clients b = clients b' \<and> kern b = kern b'"
  using asking_fields by metis

lemma loaded_good: "fresh_bridge (k_lookup k) (bridge_loaded k)"
  using pad_ok_zero
  by (simp add: fresh_bridge_def bridge_loaded_def device_ok_def wf_descriptor_def zero_descriptor_def
        terminated_def)

lemma device_ok_cong:
  "lorie_device_id b' = lorie_device_id b \<Longrightarrow> lorie_capabilities b' = lorie_capabilities b \<Longrightarrow>
   device_descriptor b' = device_descriptor b \<Longrightarrow> device_ok b' = device_ok b"
  by (simp add: device_ok_def)

lemma device_ok_fields [simp]:
  "device_ok (b\<lparr>lorie_controller_opcode := x\<rparr>) = device_ok b"
  "device_ok (b\<lparr>x_display := d\<rparr>) = device_ok b" "device_ok (b\<lparr>fs_ops := xs\<rparr>) = device_ok b"
  by (simp_all add: device_ok_def)

lemma asking_fresh: "asking b b' \<Longrightarrow> fresh_bridge base b \<Longrightarrow> fresh_bridge base b'"
  using asking_fields [of b b'] static_device_ok [of b' b] by (simp add: fresh_bridge_def static_def)

lemma find_extension_fresh: "fresh_bridge base b \<Longrightarrow> fresh_bridge base (find_extension h xv b)"
proof (cases "xv_controller xv")
  case (Pair opcode present)
  let ?b = "b\<lparr>lorie_controller_opcode := opcode\<rparr>"
  assume f: "fresh_bridge base b"
  have a: "asking ?b (snd (query_lorie_version h ?b))" by (rule query_asking)
  obtain ok b' where q: "query_lorie_version h ?b = (ok, b')" by fastforce
  have opc: "fresh_bridge base (c\<lparr>lorie_controller_opcode := x\<rparr>) = fresh_bridge base c" for c x
    by (simp add: fresh_bridge_def)
  have "fresh_bridge base b'" using asking_fresh [of ?b b'] a q f opc by simp
  then show ?thesis using f opc q by (simp add: find_extension_def Pair Let_def)
qed

lemma all_unused_broadcast:
  assumes "clients b = replicate MAX_CLIENTS unused_client"
  shows "broadcast_hotplug h action b = b"
proof -
  have "fold (offer h kind data) xs b = b" if "\<forall>i \<in> set xs. i < 16" for kind data xs
    using that assms by (induction xs) (auto simp: offer_def unused_client_def)
  then show ?thesis by (simp add: broadcast_hotplug_def)
qed

lemma refresh_fresh:
  assumes "fresh_bridge base b"
  shows "fresh_bridge base (snd (refresh_lorie_device h b))"
proof -
  have "bridge_good base b" using assms by (rule fresh_bridge_good)
  then have good: "bridge_good base (snd (refresh_lorie_device h b))" by (rule refresh_lorie_device_inv)
  have "clients (snd (refresh_lorie_device h b)) = clients b \<and> kern (snd (refresh_lorie_device h b)) = kern b"
  proof -
    obtain found b1 where f: "find_lorie_device h b = (found, b1)" by fastforce
    define b2 where "b2 = (if 0 \<le> lorie_device_id b1 then forget_device h b1 else b1)"
    have b1: "clients b1 = clients b" "kern b1 = kern b"
      using asking_fields find_lorie_device_spec(1) [OF f] by simp_all
    then have b2: "clients b2 = clients b \<and> kern b2 = kern b" using assms
      by (simp add: b2_def forget_device_def all_unused_broadcast fresh_bridge_def)
    show ?thesis
    proof (cases found)
      case None
      then show ?thesis using f b2 by (simp add: refresh_lorie_device_def b2_def Let_def)
    next
      case (Some t)
      then obtain device_id reply name where t: "found = Some (device_id, reply, name)" by (cases t) auto
      obtain ok b3 where s: "select_device h device_id b2 = (ok, b3)" by fastforce
      have b3: "clients b3 = clients b" "kern b3 = kern b"
        using asking_fields query_asking(4) [of b2 h device_id] s b2 by (metis snd_conv)+
      from b1 b2 b3 f t s assms show ?thesis
        unfolding refresh_lorie_device_def b2_def Let_def
        by (simp add: all_unused_broadcast fresh_bridge_def flip: b2_def)
    qed
  qed
  with good assms show ?thesis by (simp add: fresh_bridge_def bridge_inv_def)
qed

text \<open>Start-up leaves the descriptors alone or adds the listening socket.\<close>

lemma bridge_start_spec:
  assumes "bridge_start h xv env path k = (r, b)"
  shows "case r of
      None \<Rightarrow> k_lookup (kern b) = k_lookup k
    | Some (xi_opcode, server_fd) \<Rightarrow>
        fresh_bridge (k_lookup (kern b)) b \<and> 0 \<le> server_fd \<and> k_lookup k server_fd = None \<and>
        k_lookup (kern b) server_fd \<noteq> None \<and> (k_lookup (kern b))(server_fd := None) = k_lookup k"
proof (cases "xv_display xv \<and> xv_xinput xv \<noteq> None \<and> (\<exists>m. xv_xi_major xv = Some m \<and> \<not> m < 2)")
  case False
  then have "r = None \<and> kern b = k"
    using assms by (auto simp: bridge_start_def bridge_loaded_def Let_def split: if_splits option.splits)
  then show ?thesis by simp
next
  case True
  then obtain op m where x: "xv_display xv" "xv_xinput xv = Some op" "xv_xi_major xv = Some m" "\<not> m < 2" by blast
  let ?b0 = "(bridge_loaded k)\<lparr>x_display := True\<rparr>"
  have f0: "fresh_bridge (k_lookup k) ?b0"
    using loaded_good [of k] by (simp add: fresh_bridge_def)
  obtain ok b1 where s: "select_hierarchy h (find_extension h xv ?b0) = (ok, b1)" by fastforce
  have f1: "fresh_bridge (k_lookup k) b1"
    using asking_fresh [OF _ find_extension_fresh [OF f0]] query_asking(5) s by (metis snd_conv)
  define b2 where "b2 = (if 0 \<le> lorie_controller_opcode b1 then snd (refresh_lorie_device h b1) else b1)"
  have f2: "fresh_bridge (k_lookup k) b2" using f1 refresh_fresh by (simp add: b2_def)
  obtain sf b3 where c: "create_server env path b2 = (sf, b3)" by fastforce
  note l = create_server_lookup [OF c]
  have r: "(r, b) = (if \<not> ok then (None, b1) else (map_option (Pair op) sf, b3))"
    using assms x s c by (auto simp: bridge_start_def Let_def b2_def split: option.splits)
  show ?thesis
  proof (cases "ok \<and> sf \<noteq> None")
    case False
    then have "r = None" "k_lookup (kern b) = k_lookup k"
      using r f1 f2 l(3) by (auto simp: fresh_bridge_def split: if_splits)
    then show ?thesis by simp
  next
    case True
    then obtain f where f: "sf = Some f" "r = Some (op, f)" "b = b3" using r by auto
    have "fresh_bridge (k_lookup (kern b3)) b3"
      using f2 l(1,2) device_ok_cong [of b3 b2] by (simp add: fresh_bridge_def static_def)
    with f l(4) [OF f(1)] f2 show ?thesis by (auto simp: fresh_bridge_def)
  qed
qed

end
