(* ===== verification/BridgeDelivery.thy ===== *)
theory BridgeDelivery
  imports BridgeSystem
begin

text \<open>
  What the clients receive. \<open>delivered b i\<close> is everything the daemon has ever queued for the client in
  slot \<open>i\<close>: what the kernel has taken and what waits in the queue. \<open>channel b i\<close> is all that belongs to
  a client but its rumble request. An operation on one slot leaves the channels of the others alone,
  and a broadcast appends its message to every client it is meant for, or closes it.
\<close>

definition delivered :: "bridge \<Rightarrow> nat \<Rightarrow> bytes" where
  "delivered b i =
     (case k_lookup (kern b) (cl_fd (slot b i)) of None \<Rightarrow> [] | Some s \<Rightarrow> sent s) @ cl_output (slot b i)"

definition channel :: "bridge \<Rightarrow> nat \<Rightarrow> fd \<times> bytes \<times> bytes \<times> client_kind \<times> sock option" where
  "channel b i = (cl_fd (slot b i), cl_output (slot b i), cl_control (slot b i), cl_kind (slot b i),
     k_lookup (kern b) (cl_fd (slot b i)))"

lemma channel_delivered: "channel b' i = channel b i \<Longrightarrow> delivered b' i = delivered b i"
  by (auto simp: channel_def delivered_def)

text \<open>A client that will take everything, sooner or later.\<close>

primrec send_fine :: "send_ans \<Rightarrow> bool" where
  "send_fine (Wrote n) = (0 < n)"
| "send_fine (SendErr e) = (e = EINTR \<or> e = EAGAIN)"
| "send_fine (SendAgain p) = True"

definition alive :: "bridge \<Rightarrow> nat \<Rightarrow> bool" where
  "alive b i \<longleftrightarrow> (\<exists>s. k_lookup (kern b) (cl_fd (slot b i)) = Some s \<and> list_all send_fine (tx s))"

section \<open>One slot\<close>

lemma unrumbled_channel: "unrumbled c c' \<Longrightarrow>
    cl_fd c' = cl_fd c \<and> cl_output c' = cl_output c \<and> cl_control c' = cl_control c \<and> cl_kind c' = cl_kind c"
  by (auto simp: unrumbled_def)

lemma update_rumble_channel [simp]:
  assumes "i < length (clients b)"
  shows "channel (update_rumble h force b) i = channel b i"
proof -
  have "unrumbled (slot b i) (slot (update_rumble h force b) i)"
    using update_rumble_unrumbled [of b h force] assms unfolding list_all2_conv_all_nth by blast
  from unrumbled_channel [OF this] show ?thesis by (simp add: channel_def)
qed

lemma slots_distinct:
  "slots_inv base m cs lk \<Longrightarrow> i < 16 \<Longrightarrow> j < 16 \<Longrightarrow> i \<noteq> j \<Longrightarrow> 0 \<le> cl_fd (cs ! i) \<Longrightarrow>
   cl_fd (cs ! i) \<noteq> cl_fd (cs ! j)"
  unfolding slots_inv_def by metis

lemma close_client_other:
  assumes "b_slots base m b" "i < 16" "j < 16" "i \<noteq> j" "0 \<le> cl_fd (slot b i)"
  shows "channel (close_client h j b) i = channel b i"
proof -
  let ?b = "set_slot j unused_client (if 0 \<le> cl_fd (slot b j) then b\<lparr>kern := k_close (cl_fd (slot b j)) (kern b)\<rparr> else b)"
  have len: "length (clients b) = 16" using assms(1) by (rule slots_length)
  have "channel ?b i = channel b i"
    using slots_distinct [OF assms(1-3,4,5)] assms(4) by (simp add: channel_def)
  moreover have "channel (update_rumble h True ?b) i = channel ?b i"
    using len assms(2) by (intro update_rumble_channel) simp
  ultimately show ?thesis unfolding close_client_def Let_def by presburger
qed

lemma flush_client_other:
  assumes "b_slots base m b" "i < 16" "j < 16" "i \<noteq> j" "0 \<le> cl_fd (slot b i)"
  shows "channel (snd (flush_client j b)) i = channel b i"
  using slots_distinct [OF assms] assms(4)
  by (auto simp: flush_client_def Let_def channel_def fdt.update_lookup split: option.split prod.split)

lemma queue_bytes_other:
  assumes "b_slots base m b" "i < 16" "j < 16" "i \<noteq> j" "0 \<le> cl_fd (slot b i)" "0 \<le> cl_fd (slot b j)"
  shows "channel (snd (queue_bytes j data b)) i = channel b i"
proof (cases "CLIENT_BUFFER_SIZE - length (cl_output (slot b j)) < length data")
  case True
  then show ?thesis by (simp add: queue_bytes_def Let_def)
next
  case False
  let ?b = "set_slot j ((slot b j)\<lparr>cl_output := cl_output (slot b j) @ data\<rparr>) b"
  have b: "b_slots base m ?b"
    using slots_client [OF assms(1,3)] assms(6) False
    by (auto simp: client_ok_def intro!: slots_set [OF assms(1,3)])
  have "channel ?b i = channel b i" using assms(4) by (simp add: channel_def)
  with flush_client_other [OF b assms(2,3,4)] assms(4,5) False show ?thesis
    by (simp add: queue_bytes_def Let_def)
qed

lemma offer_other:
  assumes "b_slots base m b" "i < 16" "j < 16" "i \<noteq> j" "0 \<le> cl_fd (slot b i)"
  shows "channel (offer h kind data j b) i = channel b i"
proof (cases "0 \<le> cl_fd (slot b j) \<and> cl_kind (slot b j) = kind")
  case False
  then show ?thesis by (auto simp: offer_def)
next
  case True
  obtain ok b1 where q: "queue_bytes j data b = (ok, b1)" by fastforce
  then have b1: "b_slots base m b1" "channel b1 i = channel b i"
    using queue_bytes_slots [OF assms(1,3), of data] queue_bytes_other [OF assms, of data] True by simp_all
  then have "0 \<le> cl_fd (slot b1 i)" using assms(5) by (simp add: channel_def)
  from close_client_other [OF b1(1) assms(2,3,4) this, of h] q b1 True show ?thesis
    by (simp add: offer_def)
qed

subsection \<open>What a queue operation delivers\<close>

lemma flush_loop_sent:
  "flush_loop out s = ((r, out'), s') \<Longrightarrow> sent s' @ out' = sent s @ out"
proof (induction out s arbitrary: r out' s' rule: flush_loop.induct)
  case (1 out s)
  obtain a s1 where a: "sock_send out s = (a, s1)" by fastforce
  show ?case
  proof (cases "out = []")
    case True
    then show ?thesis using "1.prems" by (subst (asm) flush_loop.simps) simp
  next
    case False
    note IH = "1.IH"(1) [OF False a [symmetric]] "1.IH"(2) [OF False a [symmetric]]
    show ?thesis
    proof (cases a)
      case (Wrote n)
      show ?thesis
        using "1.prems" IH(1) [OF Wrote] False a Wrote sock_send_Wrote [of out s n s1]
        by (subst (asm) flush_loop.simps)
           (cases "n = 0"; force simp: sock_send_def split: list.splits send_ans.splits)
    next
      case (SendErr e)
      show ?thesis
        using "1.prems" IH(2) [OF SendErr] False a SendErr sock_send_other [of out s a s1]
        by (subst (asm) flush_loop.simps) (auto split: if_splits)
    next
      case (SendAgain p)
      then show ?thesis
        using "1.prems" False a sock_send_other [of out s a s1]
        by (subst (asm) flush_loop.simps) auto
    qed
  qed
qed

lemma flush_loop_fine:
  "flush_loop out s = ((r, out'), s') \<Longrightarrow> list_all send_fine (tx s) \<Longrightarrow> r \<and> list_all send_fine (tx s')"
proof (induction out s arbitrary: r out' s' rule: flush_loop.induct)
  case (1 out s)
  obtain a s1 where a: "sock_send out s = (a, s1)" by fastforce
  have tx: "list_all send_fine (tx s1)" "out \<noteq> [] \<Longrightarrow> send_fine a"
    using a "1.prems"(2)
    by (auto simp: sock_send_def split: list.splits send_ans.splits)
  show ?case
  proof (cases "out = []")
    case True
    then show ?thesis using "1.prems" by (subst (asm) flush_loop.simps) simp
  next
    case False
    note IH = "1.IH"(1) [OF False a [symmetric]] "1.IH"(2) [OF False a [symmetric]]
    show ?thesis
      using "1.prems" IH False a tx
      by (subst (asm) flush_loop.simps) (auto split: send_ans.splits if_splits)
  qed
qed

lemma queue_bytes_delivers:
  assumes "queue_bytes i data b = (ok, b')" "i < length (clients b)"
  shows "(length (cl_output (slot b i)) + length data \<le> CLIENT_BUFFER_SIZE \<longrightarrow>
            delivered b' i = delivered b i @ data \<and> (alive b i \<longrightarrow> ok \<and> alive b' i)) \<and>
    (ok \<longrightarrow> data \<noteq> [] \<longrightarrow> length (cl_output (slot b i)) + length data \<le> CLIENT_BUFFER_SIZE) \<and>
    cl_fd (slot b' i) = cl_fd (slot b i) \<and> cl_kind (slot b' i) = cl_kind (slot b i) \<and>
    length (cl_output (slot b' i)) \<le> length (cl_output (slot b i)) + length data"
proof (cases "CLIENT_BUFFER_SIZE - length (cl_output (slot b i)) < length data")
  case True
  then show ?thesis using assms by (auto simp: queue_bytes_def Let_def)
next
  case False
  let ?c = "(slot b i)\<lparr>cl_output := cl_output (slot b i) @ data\<rparr>"
  have q: "flush_client i (set_slot i ?c b) = (ok, b')"
    using assms(1) False by (simp add: queue_bytes_def Let_def)
  have fits: "data \<noteq> [] \<longrightarrow> length (cl_output (slot b i)) + length data \<le> CLIENT_BUFFER_SIZE"
    using False by (cases data) auto
  show ?thesis
  proof (cases "k_lookup (kern b) (cl_fd (slot b i))")
    case None
    then show ?thesis using q assms(2) False fits
      by (auto simp: flush_client_def Let_def delivered_def alive_def)
  next
    case (Some s)
    obtain r out s' where l: "flush_loop (cl_output ?c) s = ((r, out), s')" by (metis surj_pair)
    have b': "ok = r" "b' = (set_slot i (?c\<lparr>cl_output := out\<rparr>) (set_slot i ?c b))
        \<lparr>kern := (kern b)\<lparr>fds := fd_update (cl_fd ?c) s' (fds (kern b))\<rparr>\<rparr>"
      using q Some l assms(2) by (auto simp: flush_client_def Let_def)
    have "delivered b' i = delivered b i @ data"
      using b'(2) Some flush_loop_sent [OF l] assms(2) by (simp add: delivered_def fdt.update_lookup)
    moreover have "alive b i \<longrightarrow> ok \<and> alive b' i"
      using b' Some flush_loop_fine [OF l] assms(2) by (simp add: alive_def fdt.update_lookup)
    ultimately show ?thesis using b'(2) fits assms(2) flush_loop_shrinks [OF l] by auto
  qed
qed

section \<open>Broadcasts\<close>

text \<open>A message to all clients of a kind: those of other kinds notice nothing; one of this kind has the
  message appended, or is closed, and the latter only when its queue is full or its socket broken.\<close>

lemma closed_channel:
  "b_slots base m b \<Longrightarrow> i < 16 \<Longrightarrow> cl_fd (slot (close_client h i b) i) = -1"
  using close_client_slot [of i b h] slots_length [of base m "clients b"] by (simp add: unused_client_def)

lemma offer_here:
  assumes "b_slots base m b" "i < 16" "0 \<le> cl_fd (slot b i)"
  shows "let b' = offer h kind data i b in
    if cl_kind (slot b i) = kind then
      (cl_fd (slot b' i) = -1 \<and>
         \<not> (length (cl_output (slot b i)) + length data \<le> CLIENT_BUFFER_SIZE \<and> alive b i)) \<or>
      (cl_fd (slot b' i) = cl_fd (slot b i) \<and> cl_kind (slot b' i) = kind \<and>
         delivered b' i = delivered b i @ data \<and> (alive b i \<longrightarrow> alive b' i) \<and>
         length (cl_output (slot b' i)) \<le> length (cl_output (slot b i)) + length data \<and>
         (data \<noteq> [] \<longrightarrow> length (cl_output (slot b i)) + length data \<le> CLIENT_BUFFER_SIZE))
    else b' = b"
proof (cases "cl_kind (slot b i) = kind")
  case False
  then show ?thesis by (simp add: offer_def)
next
  case True
  have len: "i < length (clients b)" using slots_length [OF assms(1)] assms(2) by simp
  obtain ok b1 where q: "queue_bytes i data b = (ok, b1)" by fastforce
  note d = queue_bytes_delivers [OF q len]
  have b1: "b_slots base m b1" using queue_bytes_slots [OF assms, of data] q by simp
  have none: "data = [] \<Longrightarrow> length (cl_output (slot b i)) \<le> CLIENT_BUFFER_SIZE"
    using slots_client [OF assms(1,2)] assms(3) by (simp add: client_ok_def)
  show ?thesis
    using True assms(3) q d closed_channel [OF b1 assms(2), of h] none
    by (cases ok; cases "data = []") (auto simp: offer_def Let_def)
qed

lemma offers_other:
  assumes "b_slots base m b" "i < 16" "0 \<le> cl_fd (slot b i)" "\<forall>j \<in> set js. j < 16 \<and> j \<noteq> i"
  shows "b_slots base m (fold (offer h kind data) js b) \<and> channel (fold (offer h kind data) js b) i = channel b i"
  using assms
proof (induction js arbitrary: b)
  case Nil
  then show ?case by simp
next
  case (Cons j js)
  have c: "channel (offer h kind data j b) i = channel b i"
    using offer_other [OF Cons.prems(1,2) _ _ Cons.prems(3), of j h kind data] Cons.prems(4) by auto
  moreover have "b_slots base m (offer h kind data j b)"
    using offer_slots [OF Cons.prems(1), of j h kind data] Cons.prems(4) by simp
  moreover have "0 \<le> cl_fd (slot (offer h kind data j b) i)" using c Cons.prems(3) by (simp add: channel_def)
  ultimately show ?case using Cons.IH [of "offer h kind data j b"] Cons.prems(2,4) by simp
qed

lemma channel_alive: "channel b' i = channel b i \<Longrightarrow> alive b' i = alive b i"
  by (simp add: channel_def alive_def) metis

lemma broadcast_delivers:
  assumes "b_slots base m b" "i < 16" "0 \<le> cl_fd (slot b i)"
  shows "let b' = fold (offer h kind data) [0..<16] b in
    if cl_kind (slot b i) = kind then
      (cl_fd (slot b' i) = -1 \<and>
         \<not> (length (cl_output (slot b i)) + length data \<le> CLIENT_BUFFER_SIZE \<and> alive b i)) \<or>
      (cl_fd (slot b' i) = cl_fd (slot b i) \<and> cl_kind (slot b' i) = kind \<and>
         delivered b' i = delivered b i @ data \<and> (alive b i \<longrightarrow> alive b' i) \<and>
         length (cl_output (slot b' i)) \<le> length (cl_output (slot b i)) + length data \<and>
         (data \<noteq> [] \<longrightarrow> length (cl_output (slot b i)) + length data \<le> CLIENT_BUFFER_SIZE))
    else channel b' i = channel b i"
proof -
  let ?o = "offer h kind data"
  let ?b1 = "fold ?o [0..<i] b" and ?b2 = "?o i (fold ?o [0..<i] b)"
  let ?b3 = "fold ?o [Suc i..<16] ?b2"
  have split: "[0..<16] = [0..<i] @ i # [Suc i..<16]"
    using assms(2) by (metis (no_types, lifting) less_imp_le upt_add_eq_append upt_conv_Cons le0 le_add_diff_inverse add_0)
  have b': "fold ?o [0..<16] b = ?b3" by (subst split) simp
  have 1: "b_slots base m ?b1" "channel ?b1 i = channel b i"
    using offers_other [OF assms, of "[0..<i]" h kind data] assms(2) by auto
  then have f1: "0 \<le> cl_fd (slot ?b1 i)" "cl_kind (slot ?b1 i) = cl_kind (slot b i)"
      "cl_output (slot ?b1 i) = cl_output (slot b i)" "cl_fd (slot ?b1 i) = cl_fd (slot b i)"
    using assms(3) by (simp_all add: channel_def)
  note here = offer_here [OF 1(1) assms(2) f1(1), of h kind data, unfolded Let_def]
  have 2: "b_slots base m ?b2" using offer_slots [OF 1(1) assms(2)] .
  have 3: "channel ?b3 i = channel ?b2 i" if "0 \<le> cl_fd (slot ?b2 i)"
    using offers_other [OF 2 assms(2) that, of "[Suc i..<16]" h kind data] by auto
  have gone: "cl_fd (slot ?b3 i) = -1" if "cl_fd (slot ?b2 i) = -1"
  proof -
    have "slots_kept ?b2 ?b3" by (rule fold_kept) (rule offer_kept)
    then have "slot_kept (slot ?b2 i) (slot ?b3 i)"
      using slots_length [OF 2] assms(2) by (simp add: slots_kept_def list_all2_conv_all_nth)
    with that show ?thesis by (auto simp: slot_kept_def)
  qed
  show ?thesis
  proof (cases "cl_kind (slot b i) = kind")
    case False
    then have "?b2 = ?b1" using here f1 by simp
    then have "channel ?b3 i = channel b i" using 1 3 f1(1) by simp
    with False b' show ?thesis by simp
  next
    case True
    note here' = here [unfolded f1(2) if_P [OF True] f1(3,4) channel_alive [OF 1(2)] channel_delivered [OF 1(2)]]
    show ?thesis
    proof (cases "cl_fd (slot ?b2 i) = -1")
      case gone2: True
      have "\<not> (length (cl_output (slot b i)) + length data \<le> CLIENT_BUFFER_SIZE \<and> alive b i)"
        using here' gone2 assms(3) by auto
      with gone [OF gone2] True b' show ?thesis by (simp add: Let_def)
    next
      case False
      with here' have h2: "cl_fd (slot ?b2 i) = cl_fd (slot b i)" "cl_kind (slot ?b2 i) = kind"
        "delivered ?b2 i = delivered b i @ data" "alive b i \<longrightarrow> alive ?b2 i"
        "length (cl_output (slot ?b2 i)) \<le> length (cl_output (slot b i)) + length data"
        "data \<noteq> [] \<longrightarrow> length (cl_output (slot b i)) + length data \<le> CLIENT_BUFFER_SIZE" by blast+
      then have c: "channel ?b3 i = channel ?b2 i" using 3 assms(3) by simp
      then have "cl_fd (slot ?b3 i) = cl_fd (slot b i)" "cl_kind (slot ?b3 i) = kind"
        "cl_output (slot ?b3 i) = cl_output (slot ?b2 i)"
        using h2 by (simp_all add: channel_def)
      with h2 channel_delivered [OF c] channel_alive [OF c] True b' show ?thesis by (simp add: Let_def)
    qed
  qed
qed

end
