(* ===== verification/BridgeRumble.thy ===== *)
theory BridgeRumble
  imports BridgeDelivery
begin

text \<open>
  Rumble arbitration. Several clients may ask for rumble at once; the controller can do one thing.
  \<open>arbitrated\<close> says what the daemon owes them: the strongest request of each motor among the clients
  whose time is not over, for as long as the longest of them. \<open>update_rumble\<close> computes it in one pass
  over the slots. \<open>motor_watched\<close> is the invariant that makes shutdown safe.
\<close>

section \<open>The specification\<close>

definition rumbling :: "u64 \<Rightarrow> client \<Rightarrow> bool" where
  "rumbling now c \<longleftrightarrow> 0 \<le> cl_fd c \<and> (cl_rumble_low c \<noteq> 0 \<or> cl_rumble_high c \<noteq> 0) \<and> now < cl_rumble_expires_ms c"

definition settle :: "u64 \<Rightarrow> client \<Rightarrow> client" where
  "settle now c =
     (if 0 \<le> cl_fd c \<and> (cl_rumble_low c \<noteq> 0 \<or> cl_rumble_high c \<noteq> 0) \<and> cl_rumble_expires_ms c \<le> now
      then c\<lparr>cl_rumble_low := 0, cl_rumble_high := 0, cl_rumble_expires_ms := 0\<rparr> else c)"

definition strongest :: "('a \<Rightarrow> 'w::len word) \<Rightarrow> 'a list \<Rightarrow> 'w word" where
  "strongest f cs = fold (\<lambda>c. max (f c)) cs 0"

lemma rumble_scan_eq:
  "rumble_scan now cs low high longest =
     (map (settle now) cs,
      fold (\<lambda>c. max (cl_rumble_low c)) (filter (rumbling now) cs) low,
      fold (\<lambda>c. max (cl_rumble_high c)) (filter (rumbling now) cs) high,
      fold (\<lambda>c. max (cl_rumble_expires_ms c - now)) (filter (rumbling now) cs) longest)"
  by (induction now cs low high longest rule: rumble_scan.induct)
     (auto simp: Let_def rumbling_def settle_def max_def not_less)

lemma strongest_0: "strongest f cs = 0 \<longleftrightarrow> (\<forall>c \<in> set cs. f c = 0)"
proof -
  have "fold (\<lambda>c. max (f c)) cs x = 0 \<longleftrightarrow> x = 0 \<and> (\<forall>c \<in> set cs. f c = 0)" for x
    by (induction cs arbitrary: x) (auto simp: max_def)
  then show ?thesis by (simp add: strongest_def)
qed

lemma strongest_bound: "c \<in> set cs \<Longrightarrow> f c \<le> strongest f cs"
proof -
  have "x \<le> fold (\<lambda>c. max (f c)) cs x \<and> (\<forall>c \<in> set cs. f c \<le> fold (\<lambda>c. max (f c)) cs x)" for x
  proof (induction cs arbitrary: x)
    case Nil
    then show ?case by simp
  next
    case (Cons c cs)
    from Cons [of "max (f c) x"] show ?case by auto
  qed
  then show "c \<in> set cs \<Longrightarrow> f c \<le> strongest f cs" by (simp add: strongest_def)
qed

definition can_rumble :: "bridge \<Rightarrow> bool" where
  "can_rumble b \<longleftrightarrow> x_display b \<and> 0 \<le> lorie_controller_opcode b \<and> 0 \<le> lorie_device_id b \<and>
     lorie_capabilities b AND LORIE_CONTROLLER_CAP_RUMBLE \<noteq> 0"

definition arbitrated :: "host \<Rightarrow> bool \<Rightarrow> bridge \<Rightarrow> bridge" where
  "arbitrated h force b =
     (let now = to_ms (clock h (ticks b));
          live = filter (rumbling now) (clients b);
          low = strongest cl_rumble_low live;
          high = strongest cl_rumble_high live;
          left = strongest (\<lambda>c. cl_rumble_expires_ms c - now) live;
          device = word_of_int (lorie_device_id b);
          active = (active_rumble_low b, active_rumble_high b);
          requests =
            (if live = [] then (if active \<noteq> (0, 0) then [StopRumble device] else [])
             else if force \<or> (low, high) \<noteq> active
             then [Rumble device LORIE_CONTROLLER_EFFECT_MAIN low high (ucast (max 1 (min left 0xffffffff)))]
             else [])
      in b\<lparr>ticks := Suc (ticks b), clients := map (settle now) (clients b),
           active_rumble_low := low, active_rumble_high := high,
           x_sent := x_sent b @
             (if can_rumble b then map (Pair (word_of_int (lorie_controller_opcode b))) requests else [])\<rparr>)"

lemma rumble_duration_eq: "rumble_duration left = ucast (max 1 (min left 0xffffffff))"
proof (cases "0xffffffff < left")
  case True
  then show ?thesis by (auto simp: rumble_duration_def min_def max_def dest: leD)
next
  case False
  have "(ucast left :: u32) = 0 \<longleftrightarrow> left = 0"
  proof
    assume zero: "(ucast left :: u32) = 0"
    have "unat left < 2 ^ 32" using False by (simp add: not_less word_le_nat_alt)
    then have "unat (ucast left :: u32) = unat left"
      by (simp add: unsigned_ucast_eq take_bit_nat_eq_self)
    with zero have "unat left = 0" by simp
    then show "left = 0" by (simp add: unat_eq_0)
  qed simp
  moreover have "left \<noteq> 0 \<Longrightarrow> 1 \<le> left" by (simp add: word_le_nat_alt unat_eq_0 Suc_le_eq flip: word_neq_0_conv unat_gt_0)
  ultimately show ?thesis using False by (auto simp: rumble_duration_def min_def max_def Let_def)
qed

lemma none_rumbling:
  "(\<forall>c \<in> set (filter (rumbling now) cs). cl_rumble_low c = 0) \<and>
   (\<forall>c \<in> set (filter (rumbling now) cs). cl_rumble_high c = 0) \<longleftrightarrow> filter (rumbling now) cs = []"
  by (auto simp: rumbling_def filter_empty_conv)

lemma update_rumble_arbitrated: "update_rumble h force b = arbitrated h force b"
proof -
  let ?now = "to_ms (clock h (ticks b))"
  let ?live = "filter (rumbling ?now) (clients b)"
  have live: "strongest cl_rumble_low ?live = 0 \<and> strongest cl_rumble_high ?live = 0 \<longleftrightarrow> ?live = []"
    using none_rumbling by (simp add: strongest_0)
  show ?thesis
    using live
    by (simp add: update_rumble_def arbitrated_def monotonic_ms_def read_clock_def Let_def rumble_scan_eq
          rumble_duration_eq send_lorie_rumble_def x_request_def can_rumble_def flip: strongest_def)
qed

section \<open>Shutdown\<close>

lemma can_rumble_static: "static b' = static b \<Longrightarrow> can_rumble b' = can_rumble b"
  by (simp add: static_def can_rumble_def)

text \<open>The last request stopped the motors, or a client with a rumble request is still there whose
  closing will look at them again.\<close>

definition motors_stopped :: "bridge \<Rightarrow> bool" where
  "motors_stopped b \<longleftrightarrow> x_sent b \<noteq> [] \<and>
     last (x_sent b) = (word_of_int (lorie_controller_opcode b), StopRumble (word_of_int (lorie_device_id b)))"

definition has_request :: "client \<Rightarrow> bool" where
  "has_request c \<longleftrightarrow> cl_rumble_low c \<noteq> 0 \<or> cl_rumble_high c \<noteq> 0"

definition motor_watched :: "bridge \<Rightarrow> bool" where
  "motor_watched b \<longleftrightarrow> motors_stopped b \<or>
     ((active_rumble_low b \<noteq> 0 \<or> active_rumble_high b \<noteq> 0) \<and>
      (\<exists>c \<in> set (clients b). 0 \<le> cl_fd c \<and> has_request c))"

lemma update_rumble_watched:
  assumes "can_rumble b" "motors_stopped b \<or> active_rumble_low b \<noteq> 0 \<or> active_rumble_high b \<noteq> 0"
  shows "motor_watched (update_rumble h True b)"
proof -
  let ?now = "to_ms (clock h (ticks b))"
  let ?live = "filter (rumbling ?now) (clients b)"
  show ?thesis
  proof (cases "?live = []")
    case True
    then show ?thesis using assms
      by (auto simp: update_rumble_arbitrated arbitrated_def Let_def motor_watched_def motors_stopped_def)
  next
    case False
    then obtain c where c: "c \<in> set (clients b)" "rumbling ?now c" by (auto simp: filter_empty_conv)
    then have "settle ?now c = c" by (auto simp: rumbling_def settle_def)
    then have "c \<in> settle ?now ` set (clients b)" using c(1) by (metis imageI)
    moreover have "0 \<le> cl_fd c" "has_request c" using c(2) by (auto simp: rumbling_def has_request_def)
    moreover have "strongest cl_rumble_low ?live \<noteq> 0 \<or> strongest cl_rumble_high ?live \<noteq> 0"
      using none_rumbling False by (metis strongest_0)
    ultimately show ?thesis
      by (auto simp: update_rumble_arbitrated arbitrated_def Let_def motor_watched_def)
  qed
qed

text \<open>A closed slot before anyone looks at the motors again.\<close>

definition vacate :: "nat \<Rightarrow> bridge \<Rightarrow> bridge" where
  "vacate i b = set_slot i unused_client
     (if 0 \<le> cl_fd (slot b i) then b\<lparr>kern := k_close (cl_fd (slot b i)) (kern b)\<rparr> else b)"

lemma close_client_eq:
  "close_client h i b =
     (if has_request (slot b i) \<and> x_display b then update_rumble h True (vacate i b) else vacate i b)"
proof -
  have "x_display (vacate i b) = x_display b" by (simp add: vacate_def)
  then show ?thesis unfolding close_client_def Let_def has_request_def vacate_def by presburger
qed

lemma vacate_simps [simp]:
  "clients (vacate i b) = (clients b)[i := unused_client]" "x_sent (vacate i b) = x_sent b"
  "motors_stopped (vacate i b) = motors_stopped b" "can_rumble (vacate i b) = can_rumble b"
  "active_rumble_low (vacate i b) = active_rumble_low b"
  "active_rumble_high (vacate i b) = active_rumble_high b"
  by (simp_all add: vacate_def motors_stopped_def can_rumble_def)

lemma close_client_watched:
  assumes "can_rumble b" "motor_watched b" "i < length (clients b)"
  shows "motor_watched (close_client h i b)"
proof (cases "has_request (slot b i)")
  case True
  have "motor_watched (update_rumble h True (vacate i b))"
    using assms by (intro update_rumble_watched) (auto simp: motor_watched_def)
  moreover have "x_display b" using assms(1) by (simp add: can_rumble_def)
  ultimately show ?thesis using True by (simp add: close_client_eq)
next
  case False
  have "\<exists>d \<in> set ((clients b)[i := unused_client]). 0 \<le> cl_fd d \<and> has_request d"
    if c: "c \<in> set (clients b)" "0 \<le> cl_fd c" "has_request c" for c
  proof -
    obtain j where j: "j < length (clients b)" "slot b j = c"
      using c(1) in_set_conv_nth [of c "clients b"] by blast
    have "i \<noteq> j" using False c(3) j(2) by blast
    then have "(clients b)[i := unused_client] ! j = c" using j(2) by simp
    moreover have "(clients b)[i := unused_client] ! j \<in> set ((clients b)[i := unused_client])"
      by (rule nth_mem) (simp add: j(1))
    ultimately have "c \<in> set ((clients b)[i := unused_client])" by simp
    with c(2,3) show ?thesis by blast
  qed
  then have "motor_watched (vacate i b)" using assms(2) unfolding motor_watched_def vacate_simps by blast
  with False show ?thesis by (simp add: close_client_eq)
qed

lemma closing_watched:
  assumes "can_rumble b" "motor_watched b" "\<forall>i \<in> set js. i < length (clients b)"
  shows "motor_watched (fold (close_client h) js b)"
  using assms
proof (induction js arbitrary: b)
  case Nil
  then show ?case by simp
next
  case (Cons i js)
  have "can_rumble (close_client h i b)"
    using Cons.prems(1) can_rumble_static [OF static_close_client [of h i b]] by simp
  moreover have "motor_watched (close_client h i b)"
    using Cons.prems by (intro close_client_watched) simp_all
  moreover have "length (clients (close_client h i b)) = length (clients b)"
    using close_client_kept [of b h i] by (auto simp: slots_kept_def dest: list_all2_lengthD)
  ultimately show ?case using Cons.IH [of "close_client h i b"] Cons.prems(3) by simp
qed

text \<open>Closing every slot leaves none in use.\<close>

lemma closing_slots:
  assumes "b_slots base m b"
  shows "b_slots base m (fold (close_client h) [0..<16] b) \<and>
    clients (fold (close_client h) [0..<16] b) = replicate 16 unused_client"
proof -
  have "b_slots base m (fold (close_client h) [0..<n] b) \<and>
    (\<forall>i < n. slot (fold (close_client h) [0..<n] b) i = unused_client)" if "n \<le> 16" for n
    using that
  proof (induction n)
    case 0
    show ?case using assms by simp
  next
    case (Suc n)
    let ?b = "fold (close_client h) [0..<n] b"
    have b: "b_slots base m ?b" "\<forall>i < n. slot ?b i = unused_client" using Suc by simp_all
    have c: "b_slots base m (close_client h n ?b)" using close_client_slots [OF b(1)] Suc.prems by simp
    have "slot (close_client h n ?b) i = unused_client" if "i < n" for i
    proof -
      have "slot_kept (slot ?b i) (slot (close_client h n ?b) i)"
        using close_client_kept [of ?b h n] slots_length [OF b(1)] that Suc.prems
        by (simp add: slots_kept_def list_all2_conv_all_nth)
      then have "cl_fd (slot (close_client h n ?b) i) < 0"
        using b(2) that by (auto simp: slot_kept_def unused_client_def)
      then show ?thesis using slots_client [OF c, of i] that Suc.prems by (simp add: client_ok_def)
    qed
    moreover have "slot (close_client h n ?b) n = unused_client"
      using slots_length [OF b(1)] Suc.prems by (intro close_client_slot) simp
    ultimately show ?case using c by (auto simp: less_Suc_eq)
  qed
  from this [of 16] have "b_slots base m (fold (close_client h) [0..<16] b)"
    "\<forall>i < 16. slot (fold (close_client h) [0..<16] b) i = unused_client" by simp_all
  moreover from slots_length [OF this(1)] this(2)
  have "clients (fold (close_client h) [0..<16] b) = replicate 16 unused_client"
    by (intro nth_equalityI) simp_all
  ultimately show ?thesis by blast
qed

end
