(* ===== verification/BridgeHotplug.thy ===== *)
theory BridgeHotplug
  imports BridgeDelivery
begin

text \<open>
  What monitors are told when the daemon has looked at the devices again. \<open>hotplug_messages\<close> says what
  they must be told, in terms of the answers of the X server and of what the daemon has told them before;
  it uses none of the daemon's functions. \<open>code_reports\<close> collects the messages along the branches of
  \<open>refresh_lorie_device\<close>; both are shown to be equal.
\<close>

section \<open>The specification\<close>

text \<open>
  Who the controller is, from the answers of the X server alone: the first pointer, floating or slave, in
  the list of devices for which it confirms a controller. The questions are numbered; the first one asks
  for the list.
\<close>

definition controller_reply :: "host \<Rightarrow> bridge \<Rightarrow> nat \<times> xi_device_info \<Rightarrow> lorie_capabilities_reply option" where
  "controller_reply h b = (\<lambda>(n, d).
     case capabilities_reply h n (word_of_int (lorie_controller_opcode b)) (word_of_int (xd_deviceid d)) of
       None \<Rightarrow> None
     | Some r \<Rightarrow> if qr_present r \<noteq> 0 \<and> int (unat (qr_deviceId r)) = xd_deviceid d then Some r else None)"

definition controller_question :: "host \<Rightarrow> bridge \<Rightarrow> (nat \<times> xi_device_info) option" where
  "controller_question h b =
     (case xi_devices h (x_asked b) of
        None \<Rightarrow> None
      | Some ds \<Rightarrow>
          find (\<lambda>q. controller_reply h b q \<noteq> None)
            (enumerate (Suc (x_asked b)) (filter (\<lambda>d. xd_use d \<in> {XISlavePointer, XIFloatingSlave}) ds)))"

text \<open>What makes a controller the one it is; an unknown one is \<open>None\<close>.\<close>

record controller =
  co_device :: int
  co_capabilities :: u16
  co_mode :: u8
  co_vendor :: u32
  co_product :: u32
  co_name :: cstring

definition known_controller :: "bridge \<Rightarrow> controller option" where
  "known_controller b =
     (if lorie_device_id b < 0 then None
      else Some \<lparr>co_device = lorie_device_id b, co_capabilities = lorie_capabilities b,
        co_mode = dd_input_mode (device_descriptor b), co_vendor = dd_vendor_id (device_descriptor b),
        co_product = dd_product_id (device_descriptor b), co_name = cstr (dd_name (device_descriptor b))\<rparr>)"

definition seen_controller :: "host \<Rightarrow> bridge \<Rightarrow> controller option" where
  "seen_controller h b =
     (case controller_question h b of
        None \<Rightarrow> None
      | Some (n, d) \<Rightarrow>
          (case controller_reply h b (n, d) of
             None \<Rightarrow> None
           | Some r \<Rightarrow>
               Some \<lparr>co_device = xd_deviceid d, co_capabilities = qr_capabilities r, co_mode = qr_inputMode r,
                 co_vendor = qr_vendorId r, co_product = qr_productId r,
                 co_name = take 63 (cstr (case xd_name d of None \<Rightarrow> lit ''Lorie gamepad'' | Some s \<Rightarrow> s))\<rparr>))"

text \<open>The descriptor a controller is announced with.\<close>

definition announcement :: "controller \<Rightarrow> tg_device_descriptor" where
  "announcement c =
     \<lparr>dd_magic = TG_DEVICE_MAGIC, dd_version = TG_CONTROL_VERSION, dd_present = 1,
      dd_capabilities = (if bit (co_capabilities c) 0 then 1 else 0), dd_input_mode = co_mode c,
      dd_pad0 = [0, 0, 0], dd_vendor_id = co_vendor c, dd_product_id = co_product c,
      dd_device_id = word_of_int (co_device c),
      dd_name = co_name c @ replicate (64 - length (co_name c)) 0\<rparr>"

definition hotplug_report :: "u8 \<Rightarrow> tg_device_descriptor \<Rightarrow> tg_hotplug_message" where
  "hotplug_report action d = \<lparr>hm_magic = TG_HOTPLUG_MAGIC, hm_version = TG_CONTROL_VERSION, hm_action = action,
     hm_pad0 = 0, hm_descriptor = d\<rparr>"

text \<open>What the monitors must be told: nothing when the controller is the same in every respect, else
  that the old one is gone and that the new one is there, if its events could be selected.\<close>

definition hotplug_messages :: "host \<Rightarrow> bridge \<Rightarrow> tg_hotplug_message list" where
  "hotplug_messages h b =
     (if known_controller b = seen_controller h b then []
      else
        (if known_controller b = None then []
         else [hotplug_report TG_HOTPLUG_REMOVE ((device_descriptor b)\<lparr>dd_present := 0, dd_device_id := -1\<rparr>)]) @
        (case (controller_question h b, seen_controller h b) of
           (Some (n, d), Some c) \<Rightarrow>
             if xi_select h (Suc n) (co_device c) [XI_ButtonPress, XI_ButtonRelease, XI_Motion]
             then [hotplug_report TG_HOTPLUG_ADD (announcement c)] else []
         | _ \<Rightarrow> []))"

section \<open>The messages of the code\<close>

definition code_reports :: "host \<Rightarrow> bridge \<Rightarrow> tg_hotplug_message list" where
  "code_reports h b =
     (case find_lorie_device h b of
        (found, b1) \<Rightarrow>
          let removed =
                (if 0 \<le> lorie_device_id b
                 then [\<lparr>hm_magic = TG_HOTPLUG_MAGIC, hm_version = TG_CONTROL_VERSION,
                        hm_action = TG_HOTPLUG_REMOVE, hm_pad0 = 0,
                        hm_descriptor = (device_descriptor b)\<lparr>dd_present := 0, dd_device_id := -1\<rparr>\<rparr>]
                 else [])
          in case found of
               None \<Rightarrow> removed
             | Some (device_id, reply, name) \<Rightarrow>
                 if same_device b device_id reply name then []
                 else removed @
                   (if fst (select_device h device_id (if 0 \<le> lorie_device_id b then forget_device h b1 else b1))
                    then [\<lparr>hm_magic = TG_HOTPLUG_MAGIC, hm_version = TG_CONTROL_VERSION,
                           hm_action = TG_HOTPLUG_ADD, hm_pad0 = 0,
                           hm_descriptor = new_descriptor device_id reply name\<rparr>]
                    else []))"

definition told :: "bytes \<Rightarrow> bridge \<Rightarrow> bridge \<Rightarrow> nat \<Rightarrow> bool" where
  "told data b b' i \<longleftrightarrow>
     (if cl_kind (slot b i) = CLIENT_MONITOR then
        (cl_fd (slot b' i) = -1 \<and>
           \<not> (length (cl_output (slot b i)) + length data \<le> CLIENT_BUFFER_SIZE \<and> alive b i)) \<or>
        (cl_fd (slot b' i) = cl_fd (slot b i) \<and> cl_kind (slot b' i) = CLIENT_MONITOR \<and>
           delivered b' i = delivered b i @ data \<and> (alive b i \<longrightarrow> alive b' i) \<and>
           length (cl_output (slot b' i)) \<le> length (cl_output (slot b i)) + length data)
      else channel b' i = channel b i)"

lemma told_nothing: "told [] b b i"
  by (simp add: told_def)

lemma told_trans:
  assumes "told x a b i" "cl_fd (slot b i) \<noteq> -1 \<Longrightarrow> told y b c i" "cl_fd (slot b i) = -1 \<Longrightarrow> cl_fd (slot c i) = -1"
    "0 \<le> cl_fd (slot a i)"
  shows "told (x @ y) a c i"
proof (cases "cl_kind (slot a i) = CLIENT_MONITOR")
  case True
  with assms show ?thesis by (cases "cl_fd (slot b i) = -1") (auto simp: told_def)
next
  case False
  with assms show ?thesis by (auto simp: told_def channel_def)
qed

lemma told_broadcast:
  assumes "b_slots base m b" "i < 16" "0 \<le> cl_fd (slot b i)"
  shows "told (enc_hotplug (hotplug_message action b)) b (broadcast_hotplug h action b) i"
  using broadcast_delivers [OF assms, of h CLIENT_MONITOR "enc_hotplug (hotplug_message action b)"]
  by (auto simp: told_def broadcast_hotplug_def Let_def simp del: upt.simps split: if_splits)

lemma told_cong:
  assumes "clients b' = clients b" "kern b' = kern b" "clients c' = clients c" "kern c' = kern c"
  shows "told x b c i = told x b' c' i"
  using assms by (simp add: told_def delivered_def alive_def channel_def)

text \<open>Forgetting a controller, and announcing a new one, as seen by one client.\<close>

lemma forget_told:
  assumes "bridge_inv base m b" "i < 16" "0 \<le> cl_fd (slot b i)"
  shows "told (enc_hotplug \<lparr>hm_magic = TG_HOTPLUG_MAGIC, hm_version = TG_CONTROL_VERSION,
      hm_action = TG_HOTPLUG_REMOVE, hm_pad0 = 0,
      hm_descriptor = (device_descriptor b)\<lparr>dd_present := 0, dd_device_id := -1\<rparr>\<rparr>) b (forget_device h b) i"
proof -
  let ?mid = "b\<lparr>lorie_device_id := -1, lorie_capabilities := 0, state := zero_state,
          device_descriptor := (device_descriptor b)\<lparr>dd_present := 0, dd_device_id := -1\<rparr>\<rparr>"
  have "told (enc_hotplug (hotplug_message TG_HOTPLUG_REMOVE ?mid)) ?mid (broadcast_hotplug h TG_HOTPLUG_REMOVE ?mid) i"
    using assms by (intro told_broadcast [of base m]) (simp_all add: bridge_inv_def)
  then show ?thesis using told_cong [of ?mid b "forget_device h b" "forget_device h b"]
    by (simp add: forget_device_def hotplug_message_def)
qed

lemma forget_device_kept: "slots_kept b (forget_device h b)"
  unfolding forget_device_def
  by (rule slots_kept_trans [OF _ broadcast_kept(2)]) (simp add: slots_kept_same)

lemma announce_told:
  assumes "bridge_inv base m b" "i < 16" "0 \<le> cl_fd (slot b i)"
    and "clients c = clients b" "kern c = kern b"
    and "c' = c\<lparr>lorie_device_id := d, lorie_capabilities := qr_capabilities r, device_descriptor := new_descriptor d r n\<rparr>"
  shows "told (enc_hotplug \<lparr>hm_magic = TG_HOTPLUG_MAGIC, hm_version = TG_CONTROL_VERSION,
      hm_action = TG_HOTPLUG_ADD, hm_pad0 = 0, hm_descriptor = new_descriptor d r n\<rparr>)
    b (broadcast_hotplug h TG_HOTPLUG_ADD c') i"
proof -
  have "told (enc_hotplug (hotplug_message TG_HOTPLUG_ADD c')) c' (broadcast_hotplug h TG_HOTPLUG_ADD c') i"
    using assms by (intro told_broadcast [of base m]) (simp_all add: bridge_inv_def)
  then show ?thesis
    using told_cong [of c' b "broadcast_hotplug h TG_HOTPLUG_ADD c'" "broadcast_hotplug h TG_HOTPLUG_ADD c'"] assms(4-6)
    by (simp add: hotplug_message_def)
qed

text \<open>A closed slot is not reused by a broadcast.\<close>

lemma kept_closed:
  assumes "slots_kept b b'" "i < length (clients b)" "cl_fd (slot b i) = -1"
  shows "cl_fd (slot b' i) = -1"
  using assms by (auto simp: slots_kept_def list_all2_conv_all_nth slot_kept_def)

lemma kept_fd:
  assumes "slots_kept b b'" "i < length (clients b)"
  shows "cl_fd (slot b' i) = -1 \<or> cl_fd (slot b' i) = cl_fd (slot b i)"
  using assms by (auto simp: slots_kept_def list_all2_conv_all_nth slot_kept_def)

text \<open>The two halves of \<open>refresh_lorie_device\<close>.\<close>

lemma refresh_cases:
  assumes "find_lorie_device h b = (found, b1)" "b2 = (if 0 \<le> lorie_device_id b then forget_device h b1 else b1)"
  shows "snd (refresh_lorie_device h b) =
    (case found of None \<Rightarrow> b2
     | Some (d, r, n) \<Rightarrow>
         if same_device b d r n then b1
         else if \<not> fst (select_device h d b2) then snd (select_device h d b2)
         else broadcast_hotplug h TG_HOTPLUG_ADD
                ((snd (select_device h d b2))\<lparr>lorie_device_id := d, lorie_capabilities := qr_capabilities r,
                   device_descriptor := new_descriptor d r n\<rparr>))"
proof -
  have "lorie_device_id b1 = lorie_device_id b" "\<And>d r n. same_device b1 d r n = same_device b d r n"
    using asking_fields(1) [OF find_lorie_device_spec(1) [OF assms(1)]] by (simp_all add: static_def same_device_def)
  then show ?thesis using assms find_lorie_device_spec(2) [OF assms(1)]
    by (auto simp: refresh_lorie_device_def Let_def split_beta split: option.split)
qed

lemma code_reports_told:
  assumes "bridge_inv base m b" "i < 16" "0 \<le> cl_fd (slot b i)"
  shows "told (concat (map enc_hotplug (code_reports h b))) b (snd (refresh_lorie_device h b)) i"
proof -
  obtain found b1 where f: "find_lorie_device h b = (found, b1)" by fastforce
  note ask = asking_fields [OF find_lorie_device_spec(1) [OF f]]
  define b2 where "b2 = (if 0 \<le> lorie_device_id b then forget_device h b1 else b1)"
  note cases = refresh_cases [OF f b2_def]
  have inv1: "bridge_inv base m b1" using asking_inv [OF find_lorie_device_spec(1) [OF f] assms(1)] .
  have inv2: "bridge_inv base m b2" using inv1 forget_device_inv by (simp add: b2_def)
  have 1: "told [] b b1 i" using told_nothing [of b i] told_cong [of b b b1 b] ask by simp
  let ?removed = "if 0 \<le> lorie_device_id b then enc_hotplug \<lparr>hm_magic = TG_HOTPLUG_MAGIC,
      hm_version = TG_CONTROL_VERSION, hm_action = TG_HOTPLUG_REMOVE, hm_pad0 = 0,
      hm_descriptor = (device_descriptor b)\<lparr>dd_present := 0, dd_device_id := -1\<rparr>\<rparr> else []"
  have 2: "told ?removed b b2 i"
    using forget_told [OF inv1 assms(2), of h] 1 assms(3) ask told_cong [of b1 b "forget_device h b1" "forget_device h b1"]
    by (simp add: b2_def static_def)
  have sel: "told x b (snd (select_device h d b2)) i = told x b b2 i" for d x
    using told_cong [of b b "snd (select_device h d b2)" b2] asking_fields [OF query_asking(4)] by simp
  have len: "i < length (clients b2)" using inv2 assms(2) slots_length by (auto simp: bridge_inv_def)
  let ?new = "\<lambda>d r n. (snd (select_device h d b2))\<lparr>lorie_device_id := d,
         lorie_capabilities := qr_capabilities r, device_descriptor := new_descriptor d r n\<rparr>"
  have "slots_kept b b2" using forget_device_kept [of b1 h] ask by (simp add: b2_def slots_kept_def list.rel_refl)
  then have fd: "cl_fd (slot b2 i) = -1 \<or> cl_fd (slot b2 i) = cl_fd (slot b i)"
    using kept_fd len by (metis list_all2_lengthD slots_kept_def)
  have 3: "told (?removed @ enc_hotplug \<lparr>hm_magic = TG_HOTPLUG_MAGIC, hm_version = TG_CONTROL_VERSION,
      hm_action = TG_HOTPLUG_ADD, hm_pad0 = 0, hm_descriptor = new_descriptor d r n\<rparr>) b
      (broadcast_hotplug h TG_HOTPLUG_ADD (?new d r n)) i" for d r n
    using announce_told [OF inv2 assms(2) _ _ _ refl, of "snd (select_device h d b2)" d r n h] fd assms(3)
      kept_closed [OF broadcast_kept(2), of i "?new d r n" h TG_HOTPLUG_ADD] len asking_fields [OF query_asking(4)]
    by (intro told_trans [OF 2 _ _ assms(3)]) auto
  show ?thesis
    unfolding cases code_reports_def f prod.case Let_def b2_def [symmetric]
    using 1 2 3 sel by (auto split: option.split)
qed

section \<open>The specification is met\<close>

lemma XI_uses: "d \<in> {XISlavePointer, XIFloatingSlave} \<longleftrightarrow> d = XIFloatingSlave \<or> d = XISlavePointer"
  by auto

lemma query_reply:
  assumes "query_lorie_capabilities h (xd_deviceid d) b = (r, b1)"
  shows "r = controller_reply h b (x_asked b, d)" "x_asked b1 = Suc (x_asked b)" "asking b b1"
  using assms query_asking(2) [of b h "xd_deviceid d"]
  by (auto simp: query_lorie_capabilities_def controller_reply_def x_request_def x_ask_def Let_def
      split: option.splits if_splits)

lemma controller_reply_asking: "asking b b' \<Longrightarrow> controller_reply h b' = controller_reply h b"
  using asking_fields(1) [of b b'] by (simp add: controller_reply_def static_def)

text \<open>The loop over the devices finds the first one that answers and has asked all before it.\<close>

lemma find_device_loop_finds:
  assumes "find_device_loop h ds b = (found, b')"
  shows "case find (\<lambda>q. controller_reply h b q \<noteq> None)
      (enumerate (x_asked b) (filter (\<lambda>d. xd_use d \<in> {XISlavePointer, XIFloatingSlave}) ds)) of
    None \<Rightarrow> found = None
  | Some (n, d) \<Rightarrow> x_asked b' = Suc n \<and> found = Some (xd_deviceid d, the (controller_reply h b (n, d)),
      snprintf_s (replicate 64 0) 64 (case xd_name d of None \<Rightarrow> lit ''Lorie gamepad'' | Some s \<Rightarrow> s))"
  using assms
proof (induction ds arbitrary: b)
  case Nil
  then show ?case by simp
next
  case (Cons d ds)
  obtain r b1 where q0: "query_lorie_capabilities h (xd_deviceid d) b = (r, b1)" by fastforce
  note q = query_reply [OF q0]
  show ?case
  proof (cases "xd_use d = XIFloatingSlave \<or> xd_use d = XISlavePointer")
    case True
    show ?thesis
    proof (cases r)
      case None
      then have "find_device_loop h ds b1 = (found, b')" using Cons.prems True q0 by auto
      from Cons.IH [OF this, unfolded controller_reply_asking [OF q(3)] q(2)] show ?thesis
        using True None q(1) by auto
    next
      case (Some r)
      then show ?thesis using Cons.prems True q q0 by auto
    qed
  next
    case False
    then show ?thesis using Cons by auto
  qed
qed

lemma find_lorie_device_finds:
  assumes "find_lorie_device h b = (found, b')"
  shows "case controller_question h b of
    None \<Rightarrow> found = None
  | Some (n, d) \<Rightarrow> x_asked b' = Suc n \<and> found = Some (xd_deviceid d, the (controller_reply h b (n, d)),
      snprintf_s (replicate 64 0) 64 (case xd_name d of None \<Rightarrow> lit ''Lorie gamepad'' | Some s \<Rightarrow> s))"
proof (cases "xi_devices h (x_asked b)")
  case None
  then show ?thesis using assms by (simp add: find_lorie_device_def x_ask_def controller_question_def)
next
  case (Some ds)
  let ?b = "b\<lparr>x_asked := Suc (x_asked b)\<rparr>"
  have "asking b ?b" by (simp add: asking_def)
  note finds = find_device_loop_finds [of h ds ?b found b', unfolded controller_reply_asking [OF this]]
  show ?thesis
    using assms Some finds by (simp add: find_lorie_device_def x_ask_def controller_question_def)
qed

lemma controller_question_reply:
  assumes "controller_question h b = Some (n, d)"
  obtains r where "controller_reply h b (n, d) = Some r" "0 \<le> xd_deviceid d"
proof -
  obtain r where r: "controller_reply h b (n, d) = Some r"
    using assms by (auto simp: controller_question_def find_Some_iff split: option.splits)
  then have "int (unat (qr_deviceId r)) = xd_deviceid d"
    by (auto simp: controller_reply_def split: option.splits if_splits)
  then have "0 \<le> xd_deviceid d" by (metis of_nat_0_le_iff)
  with r show thesis by (rule that)
qed

lemma cstr_short: "length (cstr s) < 64 \<Longrightarrow> take 64 (cstr s) = cstr s"
  by simp

lemma terminated_short: "terminated s \<Longrightarrow> length (cstr s) < length s"
  by (induction s) (auto simp: terminated_def)

lemma new_descriptor_announcement:
  "new_descriptor i r (snprintf_s (replicate 64 0) 64 s) =
     announcement \<lparr>co_device = i, co_capabilities = qr_capabilities r, co_mode = qr_inputMode r,
       co_vendor = qr_vendorId r, co_product = qr_productId r, co_name = take 63 (cstr s)\<rparr>"
proof -
  have c: "cstr (snprintf_s (replicate 64 0) 64 s) = take 63 (cstr s)" using snprintf_s_facts [of 64 "replicate 64 0" s] by simp
  have n: "snprintf_s (replicate 64 0) 64 x = take 63 (cstr x) @ replicate (64 - length (take 63 (cstr x))) 0" for x
  proof -
    have "length (take 63 (cstr x)) < 64" by simp
    then obtain m where "64 - length (take 63 (cstr x)) = Suc m" by (metis Suc_diff_Suc)
    then show ?thesis by (auto simp: snprintf_s_def Let_def)
  qed
  have b: "qr_capabilities r AND 1 \<noteq> 0 \<longleftrightarrow> bit (qr_capabilities r) 0"
    by (simp only: and_one_eq mod_2_eq_odd bit_0) simp
  show ?thesis
    by (simp add: new_descriptor_def announcement_def zero_descriptor_def n [of "snprintf_s (replicate 64 0) 64 s"] c b
        numeral_3_eq_3)
qed

lemma same_device_known:
  assumes "bridge_inv base m b" "0 \<le> i"
  shows "same_device b i r (snprintf_s (replicate 64 0) 64 s) \<longleftrightarrow>
    known_controller b = Some \<lparr>co_device = i, co_capabilities = qr_capabilities r, co_mode = qr_inputMode r,
       co_vendor = qr_vendorId r, co_product = qr_productId r, co_name = take 63 (cstr s)\<rparr>"
proof -
  have "terminated (dd_name (device_descriptor b))" "length (dd_name (device_descriptor b)) = 64"
    using assms(1) by (auto simp: bridge_inv_def device_ok_def Let_def wf_descriptor_def)
  then have "take 64 (cstr (dd_name (device_descriptor b))) = cstr (dd_name (device_descriptor b))"
    using terminated_short by (metis cstr_short)
  then show ?thesis
    using assms(2) snprintf_s_facts [of 64 "replicate 64 0" s]
    by (auto simp: same_device_def known_controller_def strncmp_eq_def)
qed

text \<open>Telling clients asks the X server nothing.\<close>

lemma update_rumble_asked: "x_asked (update_rumble h force b) = x_asked b"
  by (simp add: update_rumble_def monotonic_ms_def read_clock_def send_lorie_rumble_def x_request_def Let_def
      split: prod.split)

lemma close_client_asked: "x_asked (close_client h i b) = x_asked b"
  by (simp add: close_client_def update_rumble_asked Let_def)

lemma queue_bytes_asked: "x_asked (snd (queue_bytes i data b)) = x_asked b"
  by (simp add: queue_bytes_def flush_client_def Let_def split: option.split prod.split)

lemma offer_asked: "x_asked (offer h kind data i b) = x_asked b"
  using queue_bytes_asked [of i data b] by (auto simp: offer_def close_client_asked split: prod.split)

lemma forget_asked: "x_asked (forget_device h b) = x_asked b"
proof -
  have "x_asked (fold (offer h kind data) js c) = x_asked c" for kind data js c
    by (induction js arbitrary: c) (simp_all add: offer_asked)
  then show ?thesis by (simp add: forget_device_def broadcast_hotplug_def del: upt.simps)
qed

lemma code_reports_spec:
  assumes "bridge_inv base m b"
  shows "code_reports h b = hotplug_messages h b"
proof -
  obtain found b1 where f: "find_lorie_device h b = (found, b1)" by fastforce
  note ff = find_lorie_device_finds [OF f]
  show ?thesis
  proof (cases "controller_question h b")
    case None
    then show ?thesis using ff f
      by (auto simp: code_reports_def hotplug_messages_def seen_controller_def known_controller_def hotplug_report_def)
  next
    case (Some q)
    obtain n d where q: "q = (n, d)" by (cases q)
    obtain r where r: "controller_reply h b (n, d) = Some r" "0 \<le> xd_deviceid d"
      using controller_question_reply Some q by blast
    let ?name = "case xd_name d of None \<Rightarrow> lit ''Lorie gamepad'' | Some s \<Rightarrow> s"
    have found: "found = Some (xd_deviceid d, r, snprintf_s (replicate 64 0) 64 ?name)" "x_asked b1 = Suc n"
      using ff Some q r by simp_all
    have seen: "seen_controller h b = Some \<lparr>co_device = xd_deviceid d, co_capabilities = qr_capabilities r,
        co_mode = qr_inputMode r, co_vendor = qr_vendorId r, co_product = qr_productId r, co_name = take 63 (cstr ?name)\<rparr>"
      using Some q r by (simp add: seen_controller_def)
    have sel: "fst (select_device h i (if 0 \<le> lorie_device_id b then forget_device h b1 else b1)) =
        xi_select h (Suc n) i [XI_ButtonPress, XI_ButtonRelease, XI_Motion]" for i
      using found(2) by (simp add: select_device_def x_ask_def forget_asked)
    show ?thesis
      unfolding code_reports_def f prod.case found(1) option.case same_device_known [OF assms r(2)] Let_def
        hotplug_messages_def seen Some q sel new_descriptor_announcement hotplug_report_def
      by (auto simp: known_controller_def)
  qed
qed

text \<open>What the daemon answers to a query afterwards is what it told last.\<close>

lemma code_reports_descriptor:
  "device_descriptor (snd (refresh_lorie_device h b)) =
     (if code_reports h b = [] then device_descriptor b else hm_descriptor (last (code_reports h b)))"
proof -
  obtain found b1 where f: "find_lorie_device h b = (found, b1)" by fastforce
  note ask = asking_fields(1) [OF find_lorie_device_spec(1) [OF f]]
  define b2 where "b2 = (if 0 \<le> lorie_device_id b then forget_device h b1 else b1)"
  have d1: "device_descriptor b1 = device_descriptor b" using ask by (simp add: static_def)
  have d2: "device_descriptor b2 = (if 0 \<le> lorie_device_id b
      then (device_descriptor b)\<lparr>dd_present := 0, dd_device_id := -1\<rparr> else device_descriptor b)"
    by (simp add: b2_def d1 forget_device_id)
  have sel: "device_descriptor (snd (select_device h i b2)) = device_descriptor b2" for i
    using asking_fields(1) [OF query_asking(4)] by (simp add: static_def)
  have add: "device_descriptor (broadcast_hotplug h a c) = device_descriptor c" for a c
    using static_broadcast(2) [of h a c] by (simp add: static_def)
  show ?thesis
    unfolding refresh_cases [OF f b2_def] code_reports_def f prod.case Let_def b2_def [symmetric]
    by (auto simp: d1 d2 sel add split: option.split)
qed

end
