(* ===== verification/BridgeProps.thy ===== *)
theory BridgeProps
  imports BridgeRumble BridgeHotplug
begin

text \<open>
  The properties of the bridge daemon, and the concrete states on which their witnesses evaluate.
\<close>

section \<open>Example states\<close>

definition bx_reply :: lorie_capabilities_reply where
  "bx_reply = \<lparr>qr_deviceId = 2, qr_capabilities = 1, qr_present = 1, qr_numAxes = 6, qr_numButtons = 16,
     qr_numHats = 1, qr_mapping = 0, qr_vendorId = 0x45e, qr_productId = 0x28e, qr_inputMode = 1\<rparr>"

definition bx_host :: host where
  "bx_host = \<lparr>clock = (\<lambda>_. \<lparr>tv_sec = 100, tv_nsec = 0\<rparr>),
     xi_devices = (\<lambda>_. Some [\<lparr>xd_deviceid = 2, xd_use = 3, xd_name = Some (lit ''pad'')\<rparr>]),
     capabilities_reply = (\<lambda>_ _ _. Some bx_reply), version_reply = (\<lambda>_ _. Some 1),
     xi_select = (\<lambda>_ _ _. True)\<rparr>"

definition bx_empty_host :: host where
  "bx_empty_host = bx_host\<lparr>xi_devices := (\<lambda>_. None)\<rparr>"

definition bx_x_env :: x_env where
  "bx_x_env = \<lparr>xv_display = True, xv_xinput = Some 131, xv_xi_major = Some 2, xv_controller = (140, True)\<rparr>"

definition bx_server_env :: server_env where
  "bx_server_env = \<lparr>se_socket = None, se_ctl = None, se_bind = True, se_listen = True\<rparr>"

definition bx_kernel :: kernel where
  "bx_kernel = \<lparr>fds = [], dial = (\<lambda>_. SocketFails EBADF), dialled = 0\<rparr>"

definition bx_path :: cstring where
  "bx_path = lit ''/s''"

text \<open>A client for events with a rumble request in slot 0, a monitor in slot 1.\<close>

definition bx_client :: "fd \<Rightarrow> client_kind \<Rightarrow> client" where
  "bx_client f kind = unused_client\<lparr>cl_fd := f, cl_kind := kind\<rparr>"

definition bx_bridge :: bridge where
  "bx_bridge = \<lparr>clients = [(bx_client 0 CLIENT_EVENTS)\<lparr>cl_rumble_low := 9, cl_rumble_expires_ms := 100500\<rparr>,
       bx_client 1 CLIENT_MONITOR] @ replicate 14 unused_client,
     state = zero_state, x_display = True, lorie_controller_opcode = 140, lorie_device_id = 2,
     lorie_capabilities = 1, active_rumble_low = 9, active_rumble_high = 0,
     device_descriptor = new_descriptor 2 bx_reply [], kern = bx_kernel\<lparr>fds := [Some blank_sock, Some blank_sock]\<rparr>,
     x_sent = [], x_asked = 0, ticks = 0, fs_ops = []\<rparr>"

lemma bx_lookup: "k_lookup (kern bx_bridge) f = (if f = 0 \<or> f = 1 then Some blank_sock else None)"
  by (auto simp: bx_bridge_def fd_lookup_def nth_Cons split: nat.split)

lemma bx_good: "bridge_good ((k_lookup (kern bx_bridge))(0 := None, 1 := None)) bx_bridge"
proof -
  have eq: "i < 16 \<Longrightarrow> slot bx_bridge i = (if i = 0 then (bx_client 0 CLIENT_EVENTS)\<lparr>cl_rumble_low := 9, cl_rumble_expires_ms := 100500\<rparr>
      else if i = 1 then bx_client 1 CLIENT_MONITOR else unused_client)" for i
    by (auto simp: bx_bridge_def nth_Cons split: nat.split)
  have "b_slots ((k_lookup (kern bx_bridge))(0 := None, 1 := None)) (\<lambda>_. 15) bx_bridge"
    unfolding slots_inv_def bx_lookup
    by (auto simp: eq client_ok_def bx_client_def unused_client_def bx_lookup)
       (auto simp: bx_bridge_def)
  moreover have "pad_ok (state bx_bridge)" using pad_ok_zero by (simp add: bx_bridge_def)
  moreover have "device_ok bx_bridge"
    by (simp add: bx_bridge_def device_ok_def new_descriptor_def zero_descriptor_def wf_descriptor_def
          bx_reply_def snprintf_s_facts)
  ultimately show ?thesis by (simp add: bridge_inv_def)
qed

section \<open>The daemon as a whole\<close>

text \<open>C2: From the moment the daemon listens, whatever its clients, the X server and the clock do and in
  whichever order its handlers run, its state is consistent: no two clients share a descriptor, every
  client's descriptor is open, queues hold at most 16384 bytes and less than one control message waits
  to be parsed, unused slots are blank, no other descriptor of the process is touched, the axes are in
  the ranges it advertises and the hats agree with the button bits, and the descriptor it hands out
  describes exactly the XI2 device it listens to.\<close>

theorem bridge_consistent:
  assumes "bridge_start h xv env path k = (Some (xi_opcode, server_fd), b0)" "(bridge_step h)\<^sup>*\<^sup>* b0 b"
  shows "bridge_inv (k_lookup (kern b0)) (\<lambda>_. 15) b"
proof -
  have "fresh_bridge (k_lookup (kern b0)) b0" using bridge_start_spec [OF assms(1)] by simp
  then show ?thesis using assms(2) by (rule bridge_ts.reachable_inv)
qed

definition bx_started :: bridge where
  "bx_started = snd (bridge_start bx_empty_host bx_x_env bx_server_env bx_path bx_kernel)"

lemma bx_start: "bridge_start bx_empty_host bx_x_env bx_server_env bx_path bx_kernel = (Some (131, 0), bx_started)"
proof -
  have "fst (bridge_start bx_empty_host bx_x_env bx_server_env bx_path bx_kernel) = Some (131, 0)"
    by (simp add: bridge_start_def bx_x_env_def bridge_loaded_def find_extension_def query_lorie_version_def
          x_request_def x_ask_def bx_empty_host_def bx_host_def select_hierarchy_def refresh_lorie_device_def
          find_lorie_device_def create_server_def bx_path_def lit_def bx_server_env_def bx_kernel_def
          fd_alloc_def bridge_set_nonblocking_def k_set_nonblock_def k_set_cloexec_def fd_lookup_def
          fd_update_def blank_sock_def Let_def cstr_def)
  then show ?thesis unfolding bx_started_def by (metis prod.collapse)
qed

theorem bridge_consistent_witness:
  "bridge_inv (k_lookup (kern bx_started)) (\<lambda>_. 15) (accept_clients [Accepted blank_sock] bx_started)"
  by (rule bridge_consistent [OF bx_start])
     (rule r_into_rtranclp, rule bridge_step.accept)

text \<open>C10: A run of the daemon gives back every descriptor: whether it fails while starting or ends after
  any sequence of turns, the process has the descriptors it had at first. When it has served, all
  slots are unused and its socket is unlinked at the end.\<close>

theorem bridge_run_balanced:
  assumes "bridge_main h xv env argv1 rounds k = (status, b)"
  shows "k_lookup (kern b) = k_lookup k \<and> (status = 0 \<or> status = 1) \<and>
    (status = 0 \<longrightarrow> clients b = replicate 16 unused_client \<and>
       last (fs_ops b) = Unlink (cstr (case argv1 of None \<Rightarrow> DEFAULT_SOCKET | Some p \<Rightarrow> p)))"
proof -
  let ?path = "case argv1 of None \<Rightarrow> DEFAULT_SOCKET | Some p \<Rightarrow> p"
  obtain r b0 where s: "bridge_start h xv env ?path k = (r, b0)" by fastforce
  note spec = bridge_start_spec [OF s]
  show ?thesis
  proof (cases r)
    case None
    then show ?thesis using assms s spec by (simp add: bridge_main_def)
  next
    case (Some p)
    then obtain op f where r: "r = Some (op, f)" by (cases p) auto
    let ?b1 = "main_loop h op rounds b0" and ?base = "k_lookup (kern b0)"
    let ?b2 = "snd (send_lorie_rumble 0 0 0 ?b1)"
    let ?b3 = "fold (close_client h) [0..<16] ?b2"
    have "bridge_good ?base ?b1"
      using bridge_ts.reachable_inv [OF _ main_loop_steps] spec r by auto
    then have "b_slots ?base (\<lambda>_. 15) ?b2"
      by (simp add: bridge_inv_def send_lorie_rumble_def x_request_def)
    note closed = closing_slots [OF this, of h]
    then have "\<forall>g. 0 \<le> g \<longrightarrow> k_lookup (kern ?b3) g = ?base g"
      by (auto simp: slots_inv_def unused_client_def)
    then have "k_lookup (kern ?b3) = ?base" by (metis ext fdt.lookup_neg not_less)
    then have "k_lookup (k_close f (kern ?b3)) = k_lookup k"
      using spec r by simp
    moreover have "b = shutdown h f ?path ?b1" "status = 0"
      using assms s r by (simp_all add: bridge_main_def)
    ultimately show ?thesis using closed by (simp add: shutdown_def Let_def del: k_close_lookup upt.simps)
  qed
qed

theorem bridge_run_balanced_witness:
  "k_lookup (kern (snd (bridge_main bx_host (bx_x_env\<lparr>xv_display := False\<rparr>) bx_server_env None [] bx_kernel))) =
     k_lookup bx_kernel"
  using bridge_run_balanced [of bx_host "bx_x_env\<lparr>xv_display := False\<rparr>" bx_server_env None "[]" bx_kernel,
      OF prod.collapse [symmetric]] by simp

section \<open>Rumble\<close>

text \<open>C5: The controller always does what the strongest requests of the clients ask for.
  \<open>update_rumble\<close> is the arbitration of its specification: requests whose time is over are cleared, each
  motor gets the largest strength any remaining client wants and the longest remaining time (at least
  one millisecond, at most what 32 bits hold); the server is told only when something changes or the
  caller insists, it is told to stop when nobody wants rumble any more, and nothing is sent without a
  controller that can rumble.\<close>

theorem rumble_arbitration: "update_rumble h force b = arbitrated h force b"
  by (rule update_rumble_arbitrated)

text \<open>C9: The daemon never leaves the motors running: when it shuts down with a controller that can
  rumble, the last request the X server gets is to stop it, even though closing one client makes the
  requests of the others effective again in between.\<close>

theorem shutdown_stops_motors:
  assumes "can_rumble b" "length (clients b) = 16" "b_slots base m b"
  shows "last (x_sent (shutdown h server_fd path b)) =
    (word_of_int (lorie_controller_opcode b), StopRumble (word_of_int (lorie_device_id b)))"
proof -
  let ?b1 = "snd (send_lorie_rumble 0 0 0 b)"
  let ?b2 = "fold (close_client h) [0..<16] ?b1"
  have b1: "can_rumble ?b1" "motors_stopped ?b1" "clients ?b1 = clients b" "b_slots base m ?b1"
    using assms by (auto simp: send_lorie_rumble_def can_rumble_def motors_stopped_def x_request_def)
  have "motor_watched ?b2"
    using b1 assms(2) by (intro closing_watched) (simp_all add: motor_watched_def)
  moreover have "\<not> (\<exists>c \<in> set (clients ?b2). 0 \<le> cl_fd c \<and> has_request c)"
    using closing_slots [OF b1(4), of h] by (simp add: unused_client_def)
  ultimately have "motors_stopped ?b2" by (simp add: motor_watched_def)
  moreover have "static ?b2 = static b"
    using static_fold [of "close_client h" "[0..<16]" ?b1] static_close_client static_send_lorie_rumble by simp
  ultimately show ?thesis by (simp add: shutdown_def Let_def motors_stopped_def static_def del: upt.simps)
qed

theorem shutdown_stops_motors_witness:
  "last (x_sent (shutdown bx_host 7 bx_path bx_bridge)) = (140, StopRumble 2)"
proof -
  have "can_rumble bx_bridge" "length (clients bx_bridge) = 16" by (simp_all add: can_rumble_def bx_bridge_def)
  moreover have "b_slots ((k_lookup (kern bx_bridge))(0 := None, 1 := None)) (\<lambda>_. 15) bx_bridge"
    using bx_good by (simp add: bridge_inv_def)
  ultimately have "last (x_sent (shutdown bx_host 7 bx_path bx_bridge)) =
    (word_of_int (lorie_controller_opcode bx_bridge), StopRumble (word_of_int (lorie_device_id bx_bridge)))"
    by (rule shutdown_stops_motors)
  then show ?thesis by (simp add: bx_bridge_def)
qed

section \<open>What clients receive\<close>

text \<open>C6: A broadcast of events reaches every event client completely, in order and exactly once: its
  bytes are appended to what the client gets, or the client is closed, and that only happens when its
  queue of 16384 bytes has no room (then it always happens) or its socket is broken. A slow client never delays the others:
  whatever happens to it, the channels of clients of other kinds stay as they are.\<close>

theorem broadcast_delivery:
  assumes "bridge_inv base m b" "i < 16" "0 \<le> cl_fd (slot b i)"
  shows "let b' = broadcast_events h events b; bytes = concat (map enc_event events) in
    if cl_kind (slot b i) = CLIENT_EVENTS then
      (cl_fd (slot b' i) = -1 \<and>
         \<not> (length (cl_output (slot b i)) + length bytes \<le> CLIENT_BUFFER_SIZE \<and> alive b i)) \<or>
      (cl_fd (slot b' i) = cl_fd (slot b i) \<and> cl_kind (slot b' i) = CLIENT_EVENTS \<and>
         delivered b' i = delivered b i @ bytes \<and> (alive b i \<longrightarrow> alive b' i) \<and>
         length (cl_output (slot b' i)) \<le> length (cl_output (slot b i)) + length bytes \<and>
         (bytes \<noteq> [] \<longrightarrow> length (cl_output (slot b i)) + length bytes \<le> CLIENT_BUFFER_SIZE))
    else channel b' i = channel b i"
  using broadcast_delivers [of base m b i h CLIENT_EVENTS "concat (map enc_event events)"] assms
  by (simp add: broadcast_events_def bridge_inv_def Let_def del: upt.simps)

definition bx_event :: tg_input_event where
  "bx_event = \<lparr>ie_sec = 0, ie_usec = 0, ie_type = TG_EV_KEY, ie_code = TG_BTN_SOUTH, ie_value = 1\<rparr>"

theorem broadcast_delivery_witness:
  "delivered (broadcast_events bx_host [bx_event] bx_bridge) 0 = delivered bx_bridge 0 @ enc_event bx_event \<and>
   channel (broadcast_events bx_host [bx_event] bx_bridge) 1 = channel bx_bridge 1"
proof -
  have c0: "slot bx_bridge 0 = (bx_client 0 CLIENT_EVENTS)\<lparr>cl_rumble_low := 9, cl_rumble_expires_ms := 100500\<rparr>"
    and c1: "slot bx_bridge 1 = bx_client 1 CLIENT_MONITOR" by (simp_all add: bx_bridge_def)
  have "alive bx_bridge 0"
    by (simp add: alive_def bx_lookup c0 bx_client_def blank_sock_def)
  then show ?thesis
    using broadcast_delivery [OF bx_good, of 0 bx_host "[bx_event]"]
      broadcast_delivery [OF bx_good, of 1 bx_host "[bx_event]"] evt.length_enc [of bx_event]
    by (auto simp: c0 c1 Let_def bx_client_def unused_client_def simp del: One_nat_def)
qed

text \<open>C7: Monitors learn exactly what happened to the controller. After the daemon has looked at the
  devices again, every monitor has been sent one REMOVE message if the controller it knew (device,
  capabilities, mode, vendor, product and name) is gone or differs in any of these, followed by one ADD
  message with the descriptor of the first controller the X server confirms, if its events could be
  selected, and nothing if nothing changed; or it was closed because it does not read. All other
  clients get nothing, and the descriptor the daemon answers queries with is the one it told last.\<close>

theorem hotplug_reported:
  assumes "bridge_inv base m b" "i < 16" "0 \<le> cl_fd (slot b i)"
  shows "told (concat (map enc_hotplug (hotplug_messages h b))) b (snd (refresh_lorie_device h b)) i \<and>
    device_descriptor (snd (refresh_lorie_device h b)) =
      (if hotplug_messages h b = [] then device_descriptor b else hm_descriptor (last (hotplug_messages h b)))"
  using code_reports_told [OF assms, of h] code_reports_descriptor [of h b] code_reports_spec [OF assms(1), of h]
  by simp

text \<open>The known controller of \<open>bx_bridge\<close> is gone; or it now has a name it did not have.\<close>

theorem hotplug_reported_witness:
  "map hm_action (hotplug_messages bx_empty_host bx_bridge) = [TG_HOTPLUG_REMOVE] \<and>
   map hm_action (hotplug_messages bx_host bx_bridge) = [TG_HOTPLUG_REMOVE, TG_HOTPLUG_ADD] \<and>
   told (concat (map enc_hotplug (hotplug_messages bx_host bx_bridge))) bx_bridge
     (snd (refresh_lorie_device bx_host bx_bridge)) 1"
proof (intro conjI)
  show "map hm_action (hotplug_messages bx_empty_host bx_bridge) = [TG_HOTPLUG_REMOVE]"
    by (simp add: hotplug_messages_def known_controller_def seen_controller_def controller_question_def
        hotplug_report_def bx_empty_host_def bx_bridge_def)
  have "cstr (dd_name (new_descriptor 2 bx_reply [])) = []"
    using snprintf_s_facts [of 64 "replicate 64 0" "[]"] by (simp add: new_descriptor_def)
  then show "map hm_action (hotplug_messages bx_host bx_bridge) = [TG_HOTPLUG_REMOVE, TG_HOTPLUG_ADD]"
    by (simp add: hotplug_messages_def known_controller_def seen_controller_def controller_question_def
        controller_reply_def hotplug_report_def bx_host_def bx_bridge_def bx_reply_def lit_def)
  have "0 \<le> cl_fd (slot bx_bridge 1)" by (simp add: bx_bridge_def bx_client_def)
  then show "told (concat (map enc_hotplug (hotplug_messages bx_host bx_bridge))) bx_bridge
     (snd (refresh_lorie_device bx_host bx_bridge)) 1"
    using hotplug_reported [OF bx_good, of 1 bx_host] by simp
qed

text \<open>C39: When the controller is unplugged, the daemon forgets every pressed button and every axis, but
  tells only the monitors: an event client gets no byte, so what it holds down at that moment stays
  pressed for it.\<close>

theorem unplug_silent_for_event_clients:
  assumes "bridge_inv base m b" "i < 16" "0 \<le> cl_fd (slot b i)" "cl_kind (slot b i) = CLIENT_EVENTS"
    and "0 \<le> lorie_device_id b" "fst (find_lorie_device h b) = None"
  shows "let b' = snd (refresh_lorie_device h b) in
    channel b' i = channel b i \<and> state b' = zero_state \<and> lorie_device_id b' = -1 \<and>
    dd_present (device_descriptor b') = 0"
proof -
  obtain b1 where f: "find_lorie_device h b = (None, b1)" using assms(6) by (cases "find_lorie_device h b") auto
  have "lorie_device_id b1 = lorie_device_id b"
    using asking_fields(1) [OF find_lorie_device_spec(1) [OF f]] by (simp add: static_def)
  then have b': "snd (refresh_lorie_device h b) = forget_device h b1"
    using f assms(5) by (simp add: refresh_lorie_device_def Let_def)
  let ?mid = "b1\<lparr>lorie_device_id := -1, lorie_capabilities := 0, state := zero_state,
          device_descriptor := (device_descriptor b1)\<lparr>dd_present := 0, dd_device_id := -1\<rparr>\<rparr>"
  have ask: "clients ?mid = clients b" "kern ?mid = kern b"
    using asking_fields [OF find_lorie_device_spec(1) [OF f]] by simp_all
  then have "b_slots base m ?mid" using assms(1) by (simp add: bridge_inv_def)
  from told_broadcast [OF this assms(2), of TG_HOTPLUG_REMOVE h] ask assms(3,4)
  have "channel (forget_device h b1) i = channel ?mid i"
    by (simp add: told_def forget_device_def split: if_split_asm)
  moreover have "channel ?mid i = channel b i" using ask by (simp add: channel_def)
  ultimately have "channel (forget_device h b1) i = channel b i" by simp
  moreover have "static (forget_device h b1) = static ?mid"
    by (simp add: forget_device_def stays)
  ultimately show ?thesis by (simp add: b' Let_def static_def)
qed

definition bx_held :: bridge where
  "bx_held = bx_bridge\<lparr>state := zero_state\<lparr>gs_buttons := 1\<rparr>\<rparr>"

theorem unplug_silent_for_event_clients_witness:
  "pressed (state bx_held) 1 \<and> \<not> pressed (state (snd (refresh_lorie_device bx_empty_host bx_held))) 1 \<and>
   channel (snd (refresh_lorie_device bx_empty_host bx_held)) 0 = channel bx_held 0"
proof -
  have "pad_ok (state bx_held)"
    by (auto simp: bx_held_def pad_ok_def zero_state_def hat_value_def pressed_def axis_bounds_def)
  then have good: "bridge_good ((k_lookup (kern bx_bridge))(0 := None, 1 := None)) bx_held"
    using bx_good device_ok_cong [of bx_held bx_bridge] by (simp add: bridge_inv_def bx_held_def)
  have "cl_fd (slot bx_held 0) = 0" "cl_kind (slot bx_held 0) = CLIENT_EVENTS" "lorie_device_id bx_held = 2"
    by (simp_all add: bx_held_def bx_bridge_def bx_client_def)
  moreover have "fst (find_lorie_device bx_empty_host bx_held) = None"
    by (simp add: find_lorie_device_def x_ask_def bx_empty_host_def)
  ultimately show ?thesis
    using unplug_silent_for_event_clients [OF good, of 0 bx_empty_host]
    by (simp add: Let_def zero_state_def pressed_def bx_held_def)
qed

section \<open>Bounds\<close>

lemma set_axis_length: "length (fst (set_axis h axis v eb)) \<le> Suc (length (fst eb))"
  by (cases eb) (simp add: set_axis_def append_event_def timestamp_event_def read_clock_def)

lemma append_event_length [simp]: "length (fst (append_event h ty code v eb)) = Suc (length (fst eb))"
  by (cases eb) (simp add: append_event_def timestamp_event_def read_clock_def)

lemma append_events_length:
  "length (fst (fold (\<lambda>x. append_event h ty (f x) (g x)) xs eb)) = length (fst eb) + length xs"
  by (induction xs arbitrary: eb) auto

lemma motion_loop_length:
  "length (fst (motion_loop h bits axes vs eb)) \<le> length (fst eb) + length (filter (\<lambda>axis. axis < 6) axes)"
proof (induction h bits axes vs eb rule: motion_loop.induct)
  case (1 h bits vs eb)
  then show ?case by simp
next
  case (2 h bits axis axes vs eb)
  then show ?case using set_axis_length [of h axis "convert_axis axis (next_value vs)" eb]
    by (auto split: if_splits)
qed

text \<open>The event arrays on the stack are large enough. A snapshot is always 21 events, its array has
  24 places; an XI2 event gives at most 6 events and the report, its array has 16 places, for any mask
  and any number of valuators the server may send.\<close>

theorem event_arrays_fit:
  "length (fst (snapshot_events h b)) = 21 \<and>
   length (fst (append_event h TG_EV_SYN TG_SYN_REPORT 0 (convert_xi_event h event b))) \<le> 7"
proof
  show "length (fst (snapshot_events h b)) = 21"
    unfolding snapshot_events_def Let_def split_def append_event_length append_events_length length_snapshot_buttons
    by simp
  have "length (filter (\<lambda>axis. axis < 6) [0..<n]) \<le> 6" for n
  proof -
    have "set (filter (\<lambda>axis. axis < 6) [0..<n]) \<subseteq> {..<6}" by auto
    from card_mono [OF _ this] distinct_card [of "filter (\<lambda>axis. axis < 6) [0..<n]"] show ?thesis by simp
  qed
  then have "length (fst (motion_loop h bits [0..<n] vs ([], b))) \<le> 6" for bits n vs
    using motion_loop_length [of h bits "[0..<n]" vs "([], b)"] le_trans by fastforce
  moreover have "length (fst (press_button h d press b)) \<le> 6" for d press
    by (auto simp: press_button_def set_hat_def Let_def)
  ultimately show "length (fst (append_event h TG_EV_SYN TG_SYN_REPORT 0 (convert_xi_event h event b))) \<le> 7"
    by (simp add: convert_xi_event_def)
qed

lemma nearest_division:
  assumes "q * 32767 = t * 255 + 16383 - r" "0 \<le> r" "r < (32767 :: int)"
  shows "2 * \<bar>q * 32767 - t * 255\<bar> \<le> 32767"
proof -
  have "q * 32767 - t * 255 = 16383 - r" using assms(1) by simp
  then show ?thesis using assms(2,3) by (simp add: abs_if)
qed

lemma nearest_unique: "2 * \<bar>q * 32767 - c * 32767\<bar> \<le> 32767 \<Longrightarrow> q = (c :: int)"
  by (simp add: abs_if split: if_split_asm)

text \<open>C40: Axis values. Whatever value the server sends, a stick lands in -32768 .. 32767 and a trigger in
  0 .. 255; a stick value in range is kept, a trigger value is scaled from 0 .. 32767 to the nearest of
  0 .. 255, so that its ends are reached exactly, and a larger value never gives a smaller result.\<close>

theorem axis_conversion:
  "axis_bounds axis (convert_axis axis v) \<and>
   (axis < 4 \<and> - 32768 \<le> trunc_double v \<and> trunc_double v \<le> 32767 \<longrightarrow> convert_axis axis v = trunc_double v) \<and>
   (4 \<le> axis \<and> 0 \<le> trunc_double v \<and> trunc_double v \<le> 32767 \<longrightarrow>
      2 * \<bar>convert_axis axis v * 32767 - trunc_double v * 255\<bar> \<le> 32767) \<and>
   (trunc_double v \<le> trunc_double w \<longrightarrow> convert_axis axis v \<le> convert_axis axis w)"
proof (intro conjI impI)
  show "axis_bounds axis (convert_axis axis v)" by (rule convert_axis_bounds)
next
  assume "axis < 4 \<and> - 32768 \<le> trunc_double v \<and> trunc_double v \<le> 32767"
  then show "convert_axis axis v = trunc_double v"
    by (simp add: convert_axis_def double_to_int_def clamp_int_def)
next
  let ?t = "trunc_double v"
  assume t: "4 \<le> axis \<and> 0 \<le> ?t \<and> ?t \<le> 32767"
  then have "convert_axis axis v = (?t * 255 + 16383) div 32767"
    by (simp add: convert_axis_def double_to_int_def clamp_int_def)
  moreover have "x div 32767 * 32767 = x - x mod 32767" for x :: int
    by (simp add: minus_mod_eq_div_mult)
  ultimately have "convert_axis axis v * 32767 = ?t * 255 + 16383 - (?t * 255 + 16383) mod 32767" by simp
  then show "2 * \<bar>convert_axis axis v * 32767 - ?t * 255\<bar> \<le> 32767"
    by (rule nearest_division) simp_all
next
  have mono: "x \<le> y \<Longrightarrow> clamp_int x l u \<le> clamp_int y l u" if "l \<le> u" for x y l u
    using that by (simp add: clamp_int_def)
  assume "trunc_double v \<le> trunc_double w"
  then have "double_to_int v \<le> double_to_int w" by (simp add: double_to_int_def mono)
  then show "convert_axis axis v \<le> convert_axis axis w"
    by (auto simp: convert_axis_def intro!: zdiv_mono1 mono)
qed

theorem axis_conversion_witness:
  "convert_axis 0 (Dyadic (-32768) 0) = -32768 \<and> convert_axis 4 (Dyadic 0 0) = 0 \<and>
   convert_axis 5 (Dyadic 65534 (-1)) = 255"
proof (intro conjI)
  show "convert_axis 0 (Dyadic (-32768) 0) = -32768"
    using axis_conversion [of 0 "Dyadic (-32768) 0" "Dyadic 0 0"] by (simp add: trunc_double_def)
  show "convert_axis 4 (Dyadic 0 0) = 0"
    using axis_conversion [of 4 "Dyadic 0 0" "Dyadic 0 0"]
    by (intro nearest_unique) (simp add: trunc_double_def)
  show "convert_axis 5 (Dyadic 65534 (-1)) = 255"
    using axis_conversion [of 5 "Dyadic 65534 (-1)" "Dyadic 0 0"]
    by (intro nearest_unique) (simp add: trunc_double_def)
qed

section \<open>A race in the poll loop\<close>

lemma asking_kept: "asking b b' \<Longrightarrow> slots_kept b b'"
  using asking_fields(2) slots_kept_same by metis

lemma refresh_kept: "slots_kept b (snd (refresh_lorie_device h b))"
proof -
  obtain found b1 where f: "find_lorie_device h b = (found, b1)" by fastforce
  have 1: "slots_kept b b1" using asking_kept find_lorie_device_spec(1) [OF f] by blast
  define b2 where "b2 = (if 0 \<le> lorie_device_id b1 then forget_device h b1 else b1)"
  have "slots_kept b1 (forget_device h b1)"
    unfolding forget_device_def by (rule slots_kept_trans [OF _ broadcast_kept(2)]) (simp add: slots_kept_same)
  then have 2: "slots_kept b b2" using slots_kept_trans [OF 1] 1 by (simp add: b2_def)
  have 3: "slots_kept b (snd (select_device h d b2))" for d
    using slots_kept_trans [OF 2 asking_kept [OF query_asking(4)]] .
  have "slots_kept b (broadcast_hotplug h TG_HOTPLUG_ADD
      ((snd (select_device h d b2))\<lparr>lorie_device_id := d, lorie_capabilities := c, device_descriptor := dd\<rparr>))" for d c dd
    by (rule slots_kept_trans [OF slots_kept_trans [OF 3 slots_kept_same] broadcast_kept(2)]) simp
  with 1 2 3 f show ?thesis
    by (auto simp: refresh_lorie_device_def Let_def split_beta b2_def split: option.split)
qed

lemma set_axis_clients [simp]: "clients (snd (set_axis h axis v eb)) = clients (snd eb)"
  by (cases eb) (simp add: set_axis_def)

lemma motion_loop_clients: "clients (snd (motion_loop h bits axes vs eb)) = clients (snd eb)"
  by (induction h bits axes vs eb rule: motion_loop.induct) simp_all

lemma pump_x_event_kept: "slots_kept b (pump_x_event h op ev b)"
proof -
  have "clients (snd (convert_xi_event h e b)) = clients b" for e
    by (simp add: convert_xi_event_def motion_loop_clients) (simp add: press_button_def set_hat_def Let_def)
  then have "slots_kept b (process_xi_event h e d b)" for e d
    using slots_kept_trans [OF slots_kept_same broadcast_kept(1)]
    by (simp add: process_xi_event_def split_beta slots_kept_same)
  then show ?thesis by (simp add: pump_x_event_def refresh_kept)
qed

lemma pump_x_events_kept: "slots_kept b (pump_x_events h op evs b)"
  unfolding pump_x_events_def by (rule fold_kept) (rule pump_x_event_kept)

lemma admit_newcomer:
  assumes "length (clients b) = 16" "i < 16" "cl_fd (slot b i) < 0" "\<And>j. j < i \<Longrightarrow> 0 \<le> cl_fd (slot b j)"
    and "ctl s = None"
  obtains f where "0 \<le> f" "slot (admit s b) i = unused_client\<lparr>cl_fd := f\<rparr>"
proof -
  have "free_index (clients b) = i"
  proof (rule linorder_cases)
    assume "i < free_index (clients b)"
    then have "0 \<le> cl_fd (slot b i)" using assms(1,2) by (intro free_index_lowest) simp_all
    with assms(3) show ?thesis by simp
  next
    assume lt: "free_index (clients b) < i"
    then have "cl_fd (slot b (free_index (clients b))) < 0" using assms(1,2) by (intro free_index_free) simp
    with assms(4) [OF lt] show ?thesis by simp
  qed simp
  moreover obtain f k where a: "k_accept s (kern b) = (f, k)" by fastforce
  moreover have "\<exists>s'. k_lookup k f = Some s' \<and> ctl s' = None"
    using a assms(5) fdt.alloc_lookup [of "s\<lparr>sent := [], nonblock := False, cloexec := False\<rparr>" "fds (kern b)" f]
    by (auto simp: k_accept_def split: prod.splits)
  then have "\<exists>k'. bridge_set_nonblocking f k = (True, k')"
    by (auto simp: bridge_set_nonblocking_def k_set_nonblock_def)
  ultimately have "slot (admit s b) i = unused_client\<lparr>cl_fd := f\<rparr>"
    using assms(1,2) by (auto simp: admit_def Let_def)
  moreover have "0 \<le> f" using k_accept_lookup [OF a] by simp
  ultimately show thesis using that by blast
qed

text \<open>Only one slot has poll results.\<close>

lemma serve_one_slot:
  assumes "i < 16" "\<And>j. j \<noteq> i \<Longrightarrow> revents j = 0"
  shows "fold (\<lambda>j. serve_client h (revents j) j) [0..<16] b = serve_client h (revents i) i b"
proof -
  have idle: "fold (\<lambda>j. serve_client h (revents j) j) js c = c" if "i \<notin> set js" for js c
    using that assms(2) by (induction js arbitrary: c) (auto simp: serve_client_def)
  have "[0..<16] = [0..<i] @ i # [Suc i..<16]"
    using assms(1) by (metis (no_types, lifting) less_imp_le upt_add_eq_append upt_conv_Cons le0 le_add_diff_inverse add_0)
  then show ?thesis by (simp add: idle)
qed

text \<open>C38: A turn of the loop can close a client that has just connected. When a client hangs up and an X
  event is delivered in the same turn, its slot may be freed while the event is broadcast; \<open>accept\<close>
  then puts a new client into this slot, and the poll result of the old one, taken before, closes the
  new one although nothing is wrong with it.\<close>

theorem stale_hangup_closes_newcomer:
  assumes "bridge_good base b" "i < 16" "0 \<le> cl_fd (slot b i)"
    and "rd_display rd AND (POLLIN OR POLLERR OR POLLHUP) \<noteq> 0" "rd_server rd AND POLLIN \<noteq> 0"
    and "rd_ready rd = (\<lambda>j. if j = i then POLLIN OR POLLHUP else 0)"
    and "b1 = pump_x_events h op (rd_events1 rd) b" "cl_fd (slot b1 i) < 0" "\<And>j. j < i \<Longrightarrow> 0 \<le> cl_fd (slot b1 j)"
    and "rd_accepts rd = [Accepted s]" "ctl s = None"
  shows "(\<exists>f. 0 \<le> f \<and> slot (accept_clients (rd_accepts rd) b1) i = unused_client\<lparr>cl_fd := f\<rparr>) \<and>
    slot (loop_turn h op rd b) i = unused_client"
proof -
  have len: "length (clients b) = 16" using assms(1) slots_length by (auto simp: bridge_inv_def)
  have g1: "bridge_good base b1" using assms(1,7) pump_x_events_inv by simp
  then have "length (clients b1) = 16" using slots_length by (auto simp: bridge_inv_def)
  from admit_newcomer [OF this assms(2,8,9,11)] obtain f
    where f: "0 \<le> f" "slot (admit s b1) i = unused_client\<lparr>cl_fd := f\<rparr>" by blast
  define b2 where "b2 = accept_clients (rd_accepts rd) b1"
  have b2: "slot b2 i = unused_client\<lparr>cl_fd := f\<rparr>" using f assms(10) by (simp add: b2_def)
  have s2: "b_slots base (\<lambda>_. 15) b2" using accept_slots g1 by (simp add: b2_def bridge_inv_def)
  let ?rev = "\<lambda>j. poll_answer (poll_requests b ! j) (rd_ready rd j)"
  have rev: "?rev i AND (POLLERR OR POLLHUP OR POLLNVAL) \<noteq> 0" "?rev i AND POLLOUT = 0" "\<And>j. j \<noteq> i \<Longrightarrow> ?rev j = 0"
    using assms(2,3,6) len by (simp_all add: poll_answer_def poll_requests_def)
  have "serve_client h (?rev i) i b2 = close_client h i b2" using b2 f(1) rev(1,2) by (simp add: serve_client_def)
  then have "fold (\<lambda>j. serve_client h (?rev j) j) [0..<16] b2 = close_client h i b2"
    using serve_one_slot [of i ?rev h b2] assms(2) rev(3) by simp
  then have turn: "loop_turn h op rd b =
      update_rumble h False (pump_x_events h op (rd_events2 rd) (close_client h i b2))"
    using assms(4,5,7) by (simp add: loop_turn_def Let_def b2_def del: upt.simps)
  have kept: "slots_kept (close_client h i b2) (loop_turn h op rd b)"
    unfolding turn by (rule slots_kept_trans [OF pump_x_events_kept update_rumble_kept])
  have good: "bridge_good base (loop_turn h op rd b)"
    using bridge_ts.steps_inv [OF loop_turn_steps assms(1)] .
  have "i < length (clients (close_client h i b2))"
    using slots_length [OF close_client_slots [OF s2 assms(2)]] assms(2) by simp
  from kept_closed [OF kept this closed_channel [OF s2 assms(2)]]
  have "cl_fd (slot (loop_turn h op rd b) i) = -1" .
  then have "slot (loop_turn h op rd b) i = unused_client"
    using slots_client [of base "\<lambda>_. 15" _ _ i] good assms(2) by (auto simp: client_ok_def bridge_inv_def)
  with b2 f(1) show ?thesis by (auto simp: b2_def)
qed

text \<open>A client whose queue is full, and the press of a button.\<close>

definition bx_stalled :: bridge where
  "bx_stalled = bx_bridge\<lparr>clients := (bx_client 0 CLIENT_EVENTS)\<lparr>cl_output := replicate 16384 0\<rparr> # replicate 15 unused_client,
     kern := bx_kernel\<lparr>fds := [Some blank_sock]\<rparr>\<rparr>"

definition bx_press :: x_event where
  "bx_press = \<lparr>xc_type = 35, xc_extension = 131, xc_got = True, xc_evtype = 4,
     xc_data = \<lparr>xe_evtype = 4, xe_deviceid = 2, xe_sourceid = 2, xe_detail = 1, xe_mask = [], xe_values = []\<rparr>\<rparr>"

definition bx_round :: round where
  "bx_round = \<lparr>rd_error = None, rd_display = POLLIN, rd_server = POLLIN,
     rd_ready = (\<lambda>j. if j = 0 then POLLIN OR POLLHUP else 0), rd_accepts = [Accepted blank_sock],
     rd_events1 = [bx_press], rd_events2 = []\<rparr>"

lemma bx_stalled_slot: "i < 16 \<Longrightarrow> slot bx_stalled i =
    (if i = 0 then (bx_client 0 CLIENT_EVENTS)\<lparr>cl_output := replicate 16384 0\<rparr> else unused_client)"
  by (auto simp: bx_stalled_def nth_Cons split: nat.split)

lemma bx_stalled_lookup: "k_lookup (kern bx_stalled) f = (if f = 0 then Some blank_sock else None)"
  by (auto simp: bx_stalled_def fd_lookup_def nth_Cons split: nat.split)

lemma bx_stalled_good: "bridge_good (\<lambda>_. None) bx_stalled"
proof -
  have "b_slots (\<lambda>_. None) (\<lambda>_. 15) bx_stalled"
    unfolding slots_inv_def bx_stalled_lookup
    by (auto simp: bx_stalled_slot client_ok_def bx_client_def unused_client_def bx_stalled_lookup)
       (auto simp: bx_stalled_def)
  then show ?thesis
    using bx_good device_ok_cong [of bx_stalled bx_bridge] by (simp add: bridge_inv_def bx_stalled_def)
qed

lemma pad_change_clients: "pad_change b b' \<Longrightarrow> clients b' = clients b"
  by (cases b; cases b') (simp add: pad_change_def)

lemma bx_pumped: "cl_fd (slot (pump_x_events bx_host 131 [bx_press] bx_stalled) 0) = -1"
proof -
  let ?c = "convert_xi_event bx_host (xc_data bx_press) bx_stalled"
  obtain events b where a: "append_event bx_host TG_EV_SYN TG_SYN_REPORT 0 ?c = (events, b)" by fastforce
  have "pad_change bx_stalled (snd (append_event bx_host TG_EV_SYN TG_SYN_REPORT 0 ?c))"
    using convert_xi_event_pad [of bx_stalled bx_host "xc_data bx_press"] bx_stalled_good
    by (intro pad_change_event) (simp add: bridge_inv_def)
  then have pad: "pad_change bx_stalled b" by (simp only: a snd_conv)
  have ev: "fst ?c \<noteq> []"
    by (simp add: convert_xi_event_def bx_press_def press_button_def bx_stalled_def bx_bridge_def
          zero_state_def pressed_def button_code_def append_event_def timestamp_event_def read_clock_def Let_def)
  have p: "pump_x_events bx_host 131 [bx_press] bx_stalled = broadcast_events bx_host events b"
    using ev a by (simp add: pump_x_events_def pump_x_event_def bx_press_def process_xi_event_def split_beta
        bx_stalled_def bx_bridge_def del: append_event_clock)
  obtain e es where "events = e # es" using a append_event_length by (metis fst_conv length_Suc_conv)
  then show ?thesis
    using broadcast_delivery [OF bridge_inv_pad [OF bx_stalled_good pad], of 0 bx_host events]
      bx_stalled_slot [of 0] evt.length_enc [of e] pad_change_clients [OF pad]
    unfolding p by (auto simp: Let_def bx_client_def unused_client_def)
qed

theorem stale_hangup_closes_newcomer_witness:
  "slot (loop_turn bx_host 131 bx_round bx_stalled) 0 = unused_client"
  using stale_hangup_closes_newcomer [OF bx_stalled_good, of 0 bx_round _ bx_host 131 blank_sock] bx_pumped
    bx_stalled_slot [of 0]
  by (simp add: bx_round_def bx_client_def blank_sock_def)

end
