(* ===== verification/Mirror.thy ===== *)
theory Mirror
  imports BridgeRumble GamepadTransfer
begin

text \<open>
  The bridge and the client library together. \<open>mirrors st ts\<close> says that the snapshot \<open>ts\<close> a program
  reads from the client library shows the state \<open>st\<close> of the pad in the bridge: sticks with their
  value, triggers spread over the signed 16 bit range, buttons under the library's numbers, hats.
  The lemmas show that the events the bridge produces keep a snapshot in step, and that the events of
  \<open>send_snapshot\<close> bring any snapshot in step.
\<close>

definition mirrors :: "gamepad_state \<Rightarrow> termux_gamepad_state \<Rightarrow> bool" where
  "mirrors st ts \<longleftrightarrow>
     length (ts_axes ts) = 6 \<and>
     (\<forall>i < 6. sint (ts_axes ts ! i) = (if i < 4 then gs_axes st ! i else gs_axes st ! i * 257 - 32768)) \<and>
     (\<forall>j < 12. bit (ts_buttons ts) j = pressed st (snd (snapshot_buttons ! j))) \<and>
     sint (ts_hat_x ts) = gs_hat_x st \<and> sint (ts_hat_y ts) = gs_hat_y st"

section \<open>Events without their time\<close>

text \<open>The client library ignores the time of an event.\<close>

definition sig_of :: "tg_input_event \<Rightarrow> u16 \<times> u16 \<times> s32" where
  "sig_of e = (ie_type e, ie_code e, ie_value e)"

definition ev_of :: "u16 \<times> u16 \<times> s32 \<Rightarrow> tg_input_event" where
  "ev_of t = \<lparr>ie_sec = 0, ie_usec = 0, ie_type = fst t, ie_code = fst (snd t), ie_value = snd (snd t)\<rparr>"

lemma state_event_sig: "state_event ts e = state_event ts (ev_of (sig_of e))"
  by (simp add: state_event_def ev_of_def sig_of_def Let_def)

lemma run_events_sig: "run_events ts es = run_events ts (map ev_of (map sig_of es))"
  by (induction es arbitrary: ts) (simp_all flip: state_event_sig)

lemma append_event_sig:
  "map sig_of (fst (append_event h ty code v eb)) = map sig_of (fst eb) @ [(ty, code, word_of_int v)]"
  by (cases eb) (simp add: append_event_def timestamp_event_def read_clock_def sig_of_def)

lemma run_append_event:
  "run_events ts (fst (append_event h ty code v eb)) =
     state_event (run_events ts (fst eb)) (ev_of (ty, code, word_of_int v))"
  by (cases eb)
     (simp add: append_event_def timestamp_event_def read_clock_def state_event_def ev_of_def Let_def)

lemma append_events_sig:
  "map sig_of (fst (fold (\<lambda>x. append_event h ty (f x) (g x)) xs eb)) =
     map sig_of (fst eb) @ map (\<lambda>x. (ty, f x, word_of_int (g x))) xs"
  by (induction xs arbitrary: eb) (simp_all add: append_event_sig)

section \<open>Values\<close>

lemma stick_value:
  assumes "- 32768 \<le> v" "v \<le> 32767"
  shows "sint (ucast (word_of_int v :: s32) :: s16) = v"
proof -
  have "ucast (word_of_int v :: s32) = (word_of_int v :: s16)"
    by transfer (simp add: take_bit_eq_mod mod_mod_cancel)
  then show ?thesis using assms by (simp add: signed_of_int signed_take_bit_int_eq_self)
qed

lemma hat_byte:
  assumes "- 1 \<le> v" "v \<le> 1"
  shows "sint (ucast (word_of_int v :: s32) :: s8) = v"
proof -
  have "ucast (word_of_int v :: s32) = (word_of_int v :: s8)"
    by transfer (simp add: take_bit_eq_mod mod_mod_cancel)
  then show ?thesis using assms by (simp add: signed_of_int signed_take_bit_int_eq_self)
qed

lemma trigger_word:
  assumes "0 \<le> v" "v \<le> 255"
  shows "sint (ucast (word_of_int v * 257 - 32768 :: s32) :: s16) = v * 257 - 32768"
proof -
  have "sint (word_of_int v :: s32) = v"
    using assms by (simp add: signed_of_int signed_take_bit_int_eq_self)
  then show ?thesis using trigger_value [of "word_of_int v"] assms by simp
qed

definition wide_axis :: "nat \<Rightarrow> int \<Rightarrow> int" where
  "wide_axis axis v = (if axis < 4 then v else v * 257 - 32768)"

lemma axis_cases: "axis < 6 \<Longrightarrow> axis = 0 \<or> axis = 1 \<or> axis = 2 \<or> axis = 3 \<or> axis = 4 \<or> axis = (5 :: nat)"
  by auto

lemma axis_write_axis:
  assumes "axis < 6" "i < 6"
  shows "axis_write i (ev_of (TG_EV_ABS, axis_code axis, w)) =
    (if i = axis then Some (if axis < 4 then ucast w else ucast (w * 257 - 32768)) else None)"
  using axis_cases [OF assms(1)] axis_cases [OF assms(2)]
  by (auto simp: axis_write_def ev_of_def axis_code_def)

lemma axis_sint:
  assumes "axis < 6" "axis_bounds axis v"
  shows "sint (if axis < 4 then ucast (word_of_int v :: s32) else ucast (word_of_int v * 257 - 32768 :: s32) :: s16) =
    (if axis < 4 then v else v * 257 - 32768)"
  using assms stick_value [of v] trigger_word [of v] by (simp add: axis_bounds_def)

section \<open>One event\<close>

text \<open>A changed axis.\<close>

lemma mirrors_axis:
  assumes "mirrors st ts" "length (gs_axes st) = 6" "axis < 6" "axis_bounds axis v"
  shows "mirrors (st\<lparr>gs_axes := (gs_axes st)[axis := v]\<rparr>) (state_event ts (ev_of (TG_EV_ABS, axis_code axis, word_of_int v)))"
proof -
  let ?e = "ev_of (TG_EV_ABS, axis_code axis, word_of_int v)"
  let ?ts = "state_event ts ?e"
  have len: "length (ts_axes ts) = 6" using assms(1) by (simp add: mirrors_def)
  have "sint (ts_axes ?ts ! i) = (if i < 4 then (gs_axes st)[axis := v] ! i else (gs_axes st)[axis := v] ! i * 257 - 32768)"
    if "i < 6" for i
  proof -
    have "ts_axes ?ts ! i = (if i = axis then if axis < 4 then ucast (word_of_int v :: s32)
        else ucast (word_of_int v * 257 - 32768 :: s32) else ts_axes ts ! i)"
      using axis_event [OF that len] axis_write_axis [OF assms(3) that] by simp
    then show ?thesis using assms(1-3) that axis_sint [OF assms(3,4)]
      by (cases "axis < 4") (simp_all add: mirrors_def)
  qed
  moreover have "ts_buttons ?ts = ts_buttons ts" "ts_hat_x ?ts = ts_hat_x ts" "ts_hat_y ?ts = ts_hat_y ts"
    using axis_cases [OF assms(3)]
    by (auto simp: state_event_def ev_of_def axis_code_def)
  moreover have "pressed (st\<lparr>gs_axes := x\<rparr>) d = pressed st d" for x d by (simp add: pressed_def)
  ultimately show ?thesis using assms(1) by (simp add: mirrors_def)
qed

lemma mirrors_hat_x:
  assumes "mirrors st ts" "- 1 \<le> v" "v \<le> 1"
  shows "mirrors (st\<lparr>gs_hat_x := v\<rparr>) (state_event ts (ev_of (TG_EV_ABS, TG_ABS_HAT0X, word_of_int v)))"
proof -
  have "state_event ts (ev_of (TG_EV_ABS, TG_ABS_HAT0X, word_of_int v)) = ts\<lparr>ts_hat_x := ucast (word_of_int v :: s32)\<rparr>"
    by (simp add: state_event_def ev_of_def)
  moreover have "pressed (st\<lparr>gs_hat_x := x\<rparr>) d = pressed st d" for x d by (simp add: pressed_def)
  ultimately show ?thesis using assms hat_byte [OF assms(2,3)] by (simp add: mirrors_def)
qed

lemma mirrors_hat_y:
  assumes "mirrors st ts" "- 1 \<le> v" "v \<le> 1"
  shows "mirrors (st\<lparr>gs_hat_y := v\<rparr>) (state_event ts (ev_of (TG_EV_ABS, TG_ABS_HAT0Y, word_of_int v)))"
proof -
  have "state_event ts (ev_of (TG_EV_ABS, TG_ABS_HAT0Y, word_of_int v)) = ts\<lparr>ts_hat_y := ucast (word_of_int v :: s32)\<rparr>"
    by (simp add: state_event_def ev_of_def)
  moreover have "pressed (st\<lparr>gs_hat_y := x\<rparr>) d = pressed st d" for x d by (simp add: pressed_def)
  ultimately show ?thesis using assms hat_byte [OF assms(2,3)] by (simp add: mirrors_def)
qed

text \<open>The button numbers of the bridge and of the client library.\<close>

lemma upto12: "j < 12 \<Longrightarrow> j \<in> {0, 1, 2, 3, 4, 5, 6, 7, 8, 9, 10, 11 :: nat}"
  by (simp only: insert_iff empty_iff) arith

lemma snapshot_button:
  assumes "j < 12"
  shows "snd (snapshot_buttons ! j) = (if j < 10 then j + 1 else j + 5) \<and>
    fst (snapshot_buttons ! j) = button_code (if j < 10 then j + 1 else j + 5) \<and>
    button_index (button_code (if j < 10 then j + 1 else j + 5)) = int j"
  using upto12 [OF assms]
  by (elim insertE emptyE; simp add: snapshot_buttons_def button_code_def button_index_def del: One_nat_def)

lemma button_detail:
  assumes "1 \<le> d" "d \<le> 16" "\<not> (11 \<le> d \<and> d \<le> 14)"
  obtains j where "j < 12" "d = snd (snapshot_buttons ! j)" "button_code d \<noteq> 0" "button_index (button_code d) = int j"
proof -
  let ?j = "if d \<le> 10 then d - 1 else d - 5"
  have j: "?j < 12" "(if ?j < 10 then ?j + 1 else ?j + 5) = d" using assms by auto
  note b = snapshot_button [OF j(1), unfolded j(2)]
  then have "button_code d \<noteq> 0" by (auto simp: button_index_def)
  with b j show thesis by (intro that [of ?j]) simp_all
qed

lemma pressed_update:
  assumes "1 \<le> d" "d \<le> 16" "1 \<le> d'" "d' \<le> 16"
  shows "pressed (st\<lparr>gs_buttons := (if press then gs_buttons st OR push_bit (d - 1) 1
      else gs_buttons st AND NOT (push_bit (d - 1) 1))\<rparr>) d' =
    (if d' = d then press else pressed st d')"
  using assms by (auto simp: pressed_bit bit_or_iff bit_and_iff bit_not_iff bit_exp_iff)

lemma mirrors_button:
  assumes "mirrors st ts" "1 \<le> d" "d \<le> 16" "\<not> (11 \<le> d \<and> d \<le> 14)"
  shows "button_code d \<noteq> 0 \<and>
    mirrors (st\<lparr>gs_buttons := (if press then gs_buttons st OR push_bit (d - 1) 1
        else gs_buttons st AND NOT (push_bit (d - 1) 1))\<rparr>)
      (state_event ts (ev_of (TG_EV_KEY, button_code d, word_of_int (of_bool press))))"
proof -
  obtain j where j: "j < 12" "d = snd (snapshot_buttons ! j)" "button_code d \<noteq> 0" "button_index (button_code d) = int j"
    using button_detail [OF assms(2-4)] .
  let ?e = "ev_of (TG_EV_KEY, button_code d, word_of_int (of_bool press))"
  have "bit (ts_buttons (state_event ts ?e)) k = (if k = j then press else bit (ts_buttons ts) k)" if "k < 12" for k
    using that j by (auto simp: button_event button_write_def ev_of_def)
  moreover have "pressed (st\<lparr>gs_buttons := (if press then gs_buttons st OR push_bit (d - 1) 1
        else gs_buttons st AND NOT (push_bit (d - 1) 1))\<rparr>) (snd (snapshot_buttons ! k)) =
      (if k = j then press else pressed st (snd (snapshot_buttons ! k)))" if "k < 12" for k
  proof -
    have "snd (snapshot_buttons ! k) = d \<longleftrightarrow> k = j"
      using snapshot_button [OF that] snapshot_button [OF j(1)] j(2) that j(1) by (auto split: if_splits)
    moreover have "1 \<le> snd (snapshot_buttons ! k)" "snd (snapshot_buttons ! k) \<le> 16"
      using snapshot_button [OF that] that by auto
    ultimately show ?thesis using assms(2,3) by (simp only: pressed_update)
  qed
  moreover have "ts_axes (state_event ts ?e) = ts_axes ts" "ts_hat_x (state_event ts ?e) = ts_hat_x ts"
    "ts_hat_y (state_event ts ?e) = ts_hat_y ts"
    by (auto simp: state_event_def ev_of_def Let_def)
  ultimately show ?thesis using assms(1) j(3) by (simp add: mirrors_def)
qed

section \<open>An XI2 event\<close>

text \<open>The pair of the events stored so far and the state of the daemon is in step with a snapshot.\<close>

definition in_step :: "termux_gamepad_state \<Rightarrow> tg_input_event list \<times> bridge \<Rightarrow> bool" where
  "in_step ts eb \<longleftrightarrow> mirrors (state (snd eb)) (run_events ts (fst eb)) \<and> length (gs_axes (state (snd eb))) = 6"

lemma in_step_append:
  assumes "mirrors (state (snd eb)) (state_event (run_events ts (fst eb)) (ev_of (ty, code, word_of_int v)))"
    "length (gs_axes (state (snd eb))) = 6"
  shows "in_step ts (append_event h ty code v eb)"
  using assms by (simp add: in_step_def run_append_event)

lemma set_axis_in_step:
  assumes "in_step ts eb" "axis < 6" "axis_bounds axis v"
  shows "in_step ts (set_axis h axis v eb)"
proof (cases eb)
  case (Pair es b)
  let ?st = "(state b)\<lparr>gs_axes := (gs_axes (state b))[axis := v]\<rparr>"
  have "in_step ts (append_event h TG_EV_ABS (axis_code axis) v (es, b\<lparr>state := ?st\<rparr>))"
    using assms Pair mirrors_axis [of "state b" "run_events ts es" axis v]
    by (intro in_step_append) (simp_all add: in_step_def)
  with assms(1) Pair show ?thesis by (simp add: set_axis_def)
qed

lemma motion_loop_in_step: "in_step ts eb \<Longrightarrow> in_step ts (motion_loop h bits axes vs eb)"
proof (induction h bits axes vs eb rule: motion_loop.induct)
  case (1 h bits vs eb)
  then show ?case by simp
next
  case (2 h bits axis axes vs eb)
  then show ?case using set_axis_in_step [OF "2.prems" _ convert_axis_bounds] by simp
qed

lemma hat_value_bounds: "- 1 \<le> hat_value st x y \<and> hat_value st x y \<le> 1"
  by (simp add: hat_value_def)

lemma set_hat_in_step:
  assumes "in_step ts eb"
  shows "in_step ts (set_hat h eb)"
proof -
  define eb1 where "eb1 = (if hat_value (state (snd eb)) 13 14 \<noteq> gs_hat_x (state (snd eb))
    then append_event h TG_EV_ABS TG_ABS_HAT0X (hat_value (state (snd eb)) 13 14)
      (fst eb, (snd eb)\<lparr>state := (state (snd eb))\<lparr>gs_hat_x := hat_value (state (snd eb)) 13 14\<rparr>\<rparr>) else eb)"
  let ?y = "hat_value (state (snd eb)) 11 12"
  let ?x = "hat_value (state (snd eb)) 13 14"
  have "in_step ts (append_event h TG_EV_ABS TG_ABS_HAT0X ?x
      (fst eb, (snd eb)\<lparr>state := (state (snd eb))\<lparr>gs_hat_x := ?x\<rparr>\<rparr>))"
    using assms mirrors_hat_x [of "state (snd eb)" "run_events ts (fst eb)" ?x] hat_value_bounds
    by (intro in_step_append) (simp_all add: in_step_def)
  with assms have 1: "in_step ts eb1" by (simp add: eb1_def)
  have "in_step ts (append_event h TG_EV_ABS TG_ABS_HAT0Y ?y
      (fst eb1, (snd eb1)\<lparr>state := (state (snd eb1))\<lparr>gs_hat_y := ?y\<rparr>\<rparr>))"
    using 1 mirrors_hat_y [of "state (snd eb1)" "run_events ts (fst eb1)" ?y] hat_value_bounds
    by (intro in_step_append) (simp_all add: in_step_def)
  with 1 show ?thesis unfolding set_hat_def Let_def eb1_def [symmetric] by simp
qed

lemma mirrors_hat_bits:
  assumes "mirrors st ts" "11 \<le> d" "d \<le> 14"
  shows "mirrors (st\<lparr>gs_buttons := (if press then gs_buttons st OR push_bit (d - 1) 1
        else gs_buttons st AND NOT (push_bit (d - 1) 1))\<rparr>) ts"
proof -
  have "pressed (st\<lparr>gs_buttons := (if press then gs_buttons st OR push_bit (d - 1) 1
        else gs_buttons st AND NOT (push_bit (d - 1) 1))\<rparr>) (snd (snapshot_buttons ! k)) =
      pressed st (snd (snapshot_buttons ! k))" if "k < 12" for k
  proof -
    have "snd (snapshot_buttons ! k) \<noteq> d" "1 \<le> snd (snapshot_buttons ! k)" "snd (snapshot_buttons ! k) \<le> 16"
      using snapshot_button [OF that] that assms(2,3) by auto
    then show ?thesis using assms(2,3) by (simp only: pressed_update) simp
  qed
  with assms(1) show ?thesis by (simp add: mirrors_def)
qed

lemma press_button_in_step:
  assumes "in_step ts ([], b)" "1 \<le> d" "d \<le> 16"
  shows "in_step ts (press_button h d press b)"
proof -
  let ?st = "(state b)\<lparr>gs_buttons := (if press then gs_buttons (state b) OR push_bit (d - 1) 1
        else gs_buttons (state b) AND NOT (push_bit (d - 1) 1))\<rparr>"
  let ?b = "b\<lparr>state := ?st\<rparr>"
  have m: "mirrors (state b) ts" "length (gs_axes (state b)) = 6" using assms(1) by (simp_all add: in_step_def)
  show ?thesis
  proof (cases "11 \<le> d \<and> d \<le> 14")
    case True
    have "in_step ts ([], ?b)" using mirrors_hat_bits [OF m(1)] True m(2) by (simp add: in_step_def)
    from set_hat_in_step [OF this] True assms(1) show ?thesis
      by (cases press) (simp_all add: press_button_def Let_def)
  next
    case False
    note mb = mirrors_button [OF m(1) assms(2,3) False, of press]
    have "in_step ts (append_event h TG_EV_KEY (button_code d) (of_bool press) ([], ?b))"
      using mb m(2) by (intro in_step_append) simp_all
    with False mb assms(1) show ?thesis by (cases press) (auto simp: press_button_def Let_def)
  qed
qed

lemma convert_xi_event_in_step:
  assumes "mirrors (state b) ts" "length (gs_axes (state b)) = 6"
  shows "in_step ts (convert_xi_event h ev b)"
proof -
  have "in_step ts ([], b)" using assms by (simp add: in_step_def)
  then show ?thesis
    using motion_loop_in_step press_button_in_step [of ts b "nat (xe_detail ev)"]
    by (simp add: convert_xi_event_def nat_le_iff le_nat_iff)
qed

section \<open>The snapshot\<close>

definition snapshot_sigs :: "gamepad_state \<Rightarrow> (u16 \<times> u16 \<times> s32) list" where
  "snapshot_sigs st =
     map (\<lambda>i. (TG_EV_ABS, axis_code i, word_of_int (gs_axes st ! i))) [0..<6] @
     [(TG_EV_ABS, TG_ABS_HAT0X, word_of_int (gs_hat_x st)), (TG_EV_ABS, TG_ABS_HAT0Y, word_of_int (gs_hat_y st))] @
     map (\<lambda>x. (TG_EV_KEY, fst x, word_of_int (of_bool (pressed st (snd x))))) snapshot_buttons @
     [(TG_EV_SYN, TG_SYN_REPORT, 0)]"

lemma snapshot_events_sig: "map sig_of (fst (snapshot_events h b)) = snapshot_sigs (state b)"
  unfolding snapshot_events_def Let_def split_def append_event_sig append_events_sig snapshot_sigs_def
  by simp

text \<open>What the events of one kind leave of the other parts.\<close>

lemma last_write_append: "last_write w x (es @ fs) = last_write w (last_write w x es) fs"
  by (induction es arbitrary: x) auto

lemma last_write_none: "(\<And>e. e \<in> set es \<Longrightarrow> w e = None) \<Longrightarrow> last_write w x es = x"
  by (induction es arbitrary: x) auto

lemma last_write_tail: "(\<And>e. e \<in> set fs \<Longrightarrow> w e = None) \<Longrightarrow> last_write w x (es @ fs) = last_write w x es"
  by (simp add: last_write_append last_write_none)

lemma last_write_map:
  assumes "\<And>i. i < length xs \<Longrightarrow> w (f (xs ! i)) = (if i = j then Some v else None)" "j < length xs"
  shows "last_write w x (map f xs) = v"
proof -
  have split: "xs = take j xs @ xs ! j # drop (Suc j) xs" using assms(2) by (rule id_take_nth_drop)
  have "w (f (xs ! j)) = Some v" using assms by simp
  have "w e = None" if e: "e \<in> set (map f (drop (Suc j) xs))" for e
  proof -
    obtain k where "k < length (drop (Suc j) xs)" "e = f (drop (Suc j) xs ! k)"
      using e by (auto simp: in_set_conv_nth)
    then show ?thesis using assms(1) [of "Suc j + k"] by simp
  qed
  from last_write_none [OF this] have "last_write w v (map f (drop (Suc j) xs)) = v" .
  with \<open>w (f (xs ! j)) = Some v\<close> show ?thesis
    by (subst split) (simp add: last_write_append del: append_take_drop_id)
qed

lemma snapshot_writes:
  assumes "length (ts_axes ts) = 6"
  shows "i < 6 \<Longrightarrow> ts_axes (run_events ts (map ev_of (snapshot_sigs st))) ! i =
      (if i < 4 then ucast (word_of_int (gs_axes st ! i) :: s32) else ucast (word_of_int (gs_axes st ! i) * 257 - 32768 :: s32))"
    and "j < 12 \<Longrightarrow> bit (ts_buttons (run_events ts (map ev_of (snapshot_sigs st)))) j = pressed st (snd (snapshot_buttons ! j))"
    and "ts_hat_x (run_events ts (map ev_of (snapshot_sigs st))) = ucast (word_of_int (gs_hat_x st) :: s32)"
    and "ts_hat_y (run_events ts (map ev_of (snapshot_sigs st))) = ucast (word_of_int (gs_hat_y st) :: s32)"
proof -
  let ?axes = "map (\<lambda>i. ev_of (TG_EV_ABS, axis_code i, word_of_int (gs_axes st ! i))) [0..<6]"
  let ?hats = "[ev_of (TG_EV_ABS, TG_ABS_HAT0X, word_of_int (gs_hat_x st)), ev_of (TG_EV_ABS, TG_ABS_HAT0Y, word_of_int (gs_hat_y st))]"
  let ?keys = "map (\<lambda>x. ev_of (TG_EV_KEY, fst x, word_of_int (of_bool (pressed st (snd x))))) snapshot_buttons"
  let ?syn = "[ev_of (TG_EV_SYN, TG_SYN_REPORT, 0)]"
  have all: "map ev_of (snapshot_sigs st) = ?axes @ ?hats @ ?keys @ ?syn"
    by (simp add: snapshot_sigs_def del: upt.simps)
  have rest: "w e = None" if "e \<in> set (?hats @ ?keys @ ?syn)" "i < 6" "w = axis_write i" for w e i
    using that by (auto simp: axis_write_def ev_of_def)
  show "ts_axes (run_events ts (map ev_of (snapshot_sigs st))) ! i =
      (if i < 4 then ucast (word_of_int (gs_axes st ! i) :: s32) else ucast (word_of_int (gs_axes st ! i) * 257 - 32768 :: s32))"
    if "i < 6"
  proof -
    have "last_write (axis_write i) (ts_axes ts ! i) ?axes =
      (if i < 4 then ucast (word_of_int (gs_axes st ! i) :: s32) else ucast (word_of_int (gs_axes st ! i) * 257 - 32768 :: s32))"
      using that by (intro last_write_map [where j = i]) (simp_all add: axis_write_axis del: upt.simps)
    moreover have "last_write (axis_write i) (ts_axes ts ! i) (?axes @ ?hats @ ?keys @ ?syn) =
        last_write (axis_write i) (ts_axes ts ! i) ?axes"
      by (rule last_write_tail) (rule rest [OF _ that refl])
    ultimately show ?thesis unfolding all run_axis [OF that assms] by (rule trans [rotated])
  qed
  show "bit (ts_buttons (run_events ts (map ev_of (snapshot_sigs st)))) j = pressed st (snd (snapshot_buttons ! j))"
    if "j < 12"
  proof -
    have w: "button_write j (ev_of (TG_EV_KEY, fst (snapshot_buttons ! k), word_of_int (of_bool (pressed st (snd (snapshot_buttons ! k)))))) =
      (if k = j then Some (pressed st (snd (snapshot_buttons ! j))) else None)" if "k < 12" for k
      using snapshot_button [OF that] by (auto simp: button_write_def ev_of_def)
    have "last_write (button_write j) x ?keys = pressed st (snd (snapshot_buttons ! j))" for x
      using that w by (intro last_write_map [where j = j]) (simp_all add: length_snapshot_buttons)
    moreover have "button_write j e = None" if "e \<in> set (?axes @ ?hats)" for e
      using that by (auto simp: button_write_def ev_of_def)
    moreover have "button_write j e = None" if "e \<in> set ?syn" for e
      using that by (auto simp: button_write_def ev_of_def)
    ultimately show ?thesis
      using run_button [of j ts "(?axes @ ?hats) @ ?keys @ ?syn"] that
      unfolding all append_assoc [symmetric]
      by (simp add: last_write_append last_write_none del: append_assoc upt.simps)
  qed
  have hx: "hat_x_write e = None \<and> hat_y_write e = None" if "e \<in> set ?axes" for e
    using that axis_cases by (auto simp: hat_x_write_def hat_y_write_def ev_of_def axis_code_def nth_Cons split: nat.splits)
  have hk: "hat_x_write e = None \<and> hat_y_write e = None" if "e \<in> set (?keys @ ?syn)" for e
    using that by (auto simp: hat_x_write_def hat_y_write_def ev_of_def)
  show "ts_hat_x (run_events ts (map ev_of (snapshot_sigs st))) = ucast (word_of_int (gs_hat_x st) :: s32)"
    "ts_hat_y (run_events ts (map ev_of (snapshot_sigs st))) = ucast (word_of_int (gs_hat_y st) :: s32)"
    using last_write_tail [of "?keys @ ?syn" hat_x_write _ "?axes @ ?hats"]
      last_write_tail [of "?keys @ ?syn" hat_y_write _ "?axes @ ?hats"] hk
      last_write_none [of ?axes hat_x_write] last_write_none [of ?axes hat_y_write] hx
      run_hats [of ts "(?axes @ ?hats) @ ?keys @ ?syn"]
    unfolding all append_assoc [symmetric]
    by (simp_all add: last_write_append hat_x_write_def hat_y_write_def ev_of_def del: append_assoc upt.simps)
qed

lemma snapshot_mirrors:
  assumes "pad_ok (state b)" "length (ts_axes ts) = 6"
  shows "mirrors (state b) (run_events ts (fst (snapshot_events h b)))"
proof -
  have e: "run_events ts (fst (snapshot_events h b)) = run_events ts (map ev_of (snapshot_sigs (state b)))"
    by (metis run_events_sig snapshot_events_sig)
  note w = snapshot_writes [OF assms(2), where st = "state b"]
  have "sint (ucast (word_of_int (gs_hat_x (state b)) :: s32) :: s8) = gs_hat_x (state b)"
    "sint (ucast (word_of_int (gs_hat_y (state b)) :: s32) :: s8) = gs_hat_y (state b)"
    using assms(1) hat_value_bounds by (simp_all add: pad_ok_def hat_byte)
  moreover have "sint (ts_axes (run_events ts (map ev_of (snapshot_sigs (state b)))) ! i) =
      (if i < 4 then gs_axes (state b) ! i else gs_axes (state b) ! i * 257 - 32768)" if "i < 6" for i
    using axis_sint [OF that, of "gs_axes (state b) ! i"] assms(1) that w(1) [OF that] by (simp add: pad_ok_def)
  ultimately show ?thesis unfolding e mirrors_def using w(2-) assms(2) by simp
qed

end
