(* ===== verification/EndToEnd.thy ===== *)
theory EndToEnd
  imports Mirror
begin

text \<open>
  The properties that span the bridge and the client library: what a program reads is what the
  controller does, what it asks of the motors is what the X server is told, and what the bridge
  answers to a new connection is what the client library accepts.
\<close>

section \<open>The events of the pad\<close>

text \<open>The codes of its keys and axes, and an event that is one of them, without its time.\<close>

definition key_codes :: "u16 list" where
  "key_codes = [0x130, 0x131, 0x132, 0x133, 0x134, 0x136, 0x137, 0x13a, 0x13b, 0x13c, 0x13d, 0x13e]"

definition abs_codes :: "u16 list" where
  "abs_codes = [0, 1, 2, 3, 4, 5, 0x10, 0x11]"

definition pad_event :: "u16 \<times> u16 \<times> s32 \<Rightarrow> bool" where
  "pad_event t \<longleftrightarrow> (fst t = TG_EV_KEY \<and> fst (snd t) \<in> set key_codes) \<or>
     (fst t = TG_EV_ABS \<and> fst (snd t) \<in> set abs_codes)"

lemma axis_code_abs: "axis < 6 \<Longrightarrow> axis_code axis \<in> set abs_codes"
  using axis_cases [of axis] by (auto simp: axis_code_def abs_codes_def)


definition pad_events :: "tg_input_event list \<times> bridge \<Rightarrow> bool" where
  "pad_events eb \<longleftrightarrow> (\<forall>t \<in> set (map sig_of (fst eb)). pad_event t)"

lemma pad_events_Nil [simp]: "pad_events ([], b)"
  by (simp add: pad_events_def)

lemma pad_events_append:
  "pad_events eb \<Longrightarrow> pad_event (ty, code, word_of_int v) \<Longrightarrow> pad_events (append_event h ty code v eb)"
  unfolding pad_events_def append_event_sig by auto

lemma pad_events_state: "pad_events (fst eb, b) = pad_events eb"
  by (simp add: pad_events_def)

lemma set_axis_pad_events: "pad_events eb \<Longrightarrow> axis < 6 \<Longrightarrow> pad_events (set_axis h axis v eb)"
  using axis_code_abs [of axis] pad_events_state [of eb]
  by (cases eb) (simp add: set_axis_def pad_events_append pad_event_def)

lemma motion_loop_pad_events: "pad_events eb \<Longrightarrow> pad_events (motion_loop h bits axes vs eb)"
  by (induction h bits axes vs eb rule: motion_loop.induct) (simp_all add: set_axis_pad_events)

lemma set_hat_pad_events: "pad_events eb \<Longrightarrow> pad_events (set_hat h eb)"
  by (simp add: set_hat_def Let_def pad_events_append pad_events_state pad_event_def abs_codes_def)

lemma button_code_key: "button_code d \<noteq> 0 \<Longrightarrow> button_code d \<in> set key_codes"
  by (auto simp: button_code_def key_codes_def Let_def nth_Cons split: nat.splits if_splits)

lemma convert_pad_events: "pad_events (convert_xi_event h x b)"
  using button_code_key
  by (simp add: convert_xi_event_def motion_loop_pad_events press_button_def Let_def set_hat_pad_events
      pad_events_append pad_event_def)

lemma pad_events_reports: "pad_events eb \<Longrightarrow> count_reports (fst eb) = 0"
  by (auto simp: pad_events_def pad_event_def count_reports_def is_report_def sig_of_def filter_empty_conv)

section \<open>From the controller to the program\<close>

text \<open>C1: The bridge and the client library refine one abstract pad. If a program's snapshot shows the
  state of the pad and the bridge handles any XI2 event, then the events it broadcasts, run through
  the client library, give a snapshot that shows the new state; they contain exactly one report, and
  when nothing is broadcast the snapshot is still right. These are the events \<open>process_xi_event\<close> broadcasts.\<close>

theorem event_refinement:
  assumes "pad_ok (state b)" "mirrors (state b) ts"
    and "convert_xi_event h event b = (events, b')"
    and "append_event h TG_EV_SYN TG_SYN_REPORT 0 (events, b') = (reported, b'')"
  shows "mirrors (state b') (run_events ts events) \<and> mirrors (state b'') (run_events ts reported) \<and>
    state b'' = state b' \<and> count_reports events = 0 \<and> count_reports reported = 1 + count_reports events \<and>
    process_xi_event h event device_id b =
      (if xe_deviceid event \<noteq> device_id \<and> xe_sourceid event \<noteq> device_id then b
       else if events = [] then b' else broadcast_events h reported b'')"
proof -
  have 1: "in_step ts (events, b')"
    using convert_xi_event_in_step [OF assms(2), of h event] assms(1,3) by (simp add: pad_ok_def)
  have b'': "b'' = b'\<lparr>ticks := Suc (ticks b')\<rparr>"
    using append_event_clock [of h TG_EV_SYN TG_SYN_REPORT 0 "(events, b')"] assms(4) by simp
  have "run_events ts reported = state_event (run_events ts events) (ev_of (TG_EV_SYN, TG_SYN_REPORT, 0))"
    using run_append_event [of ts h TG_EV_SYN TG_SYN_REPORT 0 "(events, b')"] assms(4) by simp
  then have "run_events ts reported =
      (run_events ts events)\<lparr>ts_packet_number := ts_packet_number (run_events ts events) + 1\<rparr>"
    by (simp add: state_event_def ev_of_def)
  then have "mirrors (state b') (run_events ts reported)"
    using 1 by (simp add: in_step_def mirrors_def)
  moreover have "count_reports reported = 1 + count_reports events"
    using assms(4)
    by (auto simp: append_event_def timestamp_event_def read_clock_def Let_def count_reports_def is_report_def)
  moreover have "count_reports events = 0"
    using pad_events_reports [OF convert_pad_events [of h event b]] assms(3) by simp
  moreover have "process_xi_event h event device_id b =
      (if xe_deviceid event \<noteq> device_id \<and> xe_sourceid event \<noteq> device_id then b
       else if events = [] then b' else broadcast_events h reported b'')"
    using assms(3,4) by (simp add: process_xi_event_def)
  ultimately show ?thesis using 1 b'' by (simp add: in_step_def)
qed

definition ez_host :: host where
  "ez_host = \<lparr>clock = (\<lambda>_. \<lparr>tv_sec = 100, tv_nsec = 0\<rparr>), xi_devices = (\<lambda>_. None),
     capabilities_reply = (\<lambda>_ _ _. None), version_reply = (\<lambda>_ _. Some 1), xi_select = (\<lambda>_ _ _. True)\<rparr>"

definition ez_bridge :: bridge where
  "ez_bridge = (bridge_loaded \<lparr>fds = [], dial = (\<lambda>_. SocketFails EBADF), dialled = 0\<rparr>)\<lparr>x_display := True\<rparr>"

lemma ez_pad: "state ez_bridge = zero_state" "pad_ok (state ez_bridge)"
  by (simp_all add: ez_bridge_def bridge_loaded_def pad_ok_zero)

text \<open>A snapshot of the pad at rest: the client library's triggers rest at -32768.\<close>

lemma ez_mirror: "mirrors zero_state reset_state"
proof -
  have "axis < 6 \<Longrightarrow> sint (ts_axes reset_state ! axis) = (if axis < 4 then 0 else - 32768)" for axis
    using axis_cases [of axis] by (auto simp: reset_state_def)
  then show ?thesis
    by (auto simp: mirrors_def zero_state_def pressed_def reset_state_def)
qed

definition ez_press :: xi_device_event where
  "ez_press = \<lparr>xe_evtype = 4, xe_deviceid = 2, xe_sourceid = 2, xe_detail = 1, xe_mask = [], xe_values = []\<rparr>"

theorem event_refinement_witness:
  "mirrors (state (snd (convert_xi_event ez_host ez_press ez_bridge)))
     (run_events reset_state (fst (convert_xi_event ez_host ez_press ez_bridge)))"
  using event_refinement [of ez_bridge reset_state, OF _ _ prod.collapse [symmetric] prod.collapse [symmetric]]
    ez_pad ez_mirror by (simp del: append_event_clock)

text \<open>The events of a sequence of XI2 events.\<close>

fun session :: "host \<Rightarrow> xi_device_event list \<Rightarrow> bridge \<Rightarrow> tg_input_event list \<times> bridge" where
  "session h [] b = ([], b)"
| "session h (e # es) b =
     (case convert_xi_event h e b of
        (events, b1) \<Rightarrow>
          (case (if events = [] then ([], b1) else append_event h TG_EV_SYN TG_SYN_REPORT 0 (events, b1)) of
             (reported, b2) \<Rightarrow>
               (case session h es b2 of (rest, b3) \<Rightarrow> (reported @ rest, b3))))"

lemma session_mirrors:
  assumes "pad_ok (state b)" "mirrors (state b) ts"
  shows "mirrors (state (snd (session h es b))) (run_events ts (fst (session h es b)))"
  using assms
proof (induction es arbitrary: b ts)
  case Nil
  then show ?case by simp
next
  case (Cons e es)
  let ?c = "convert_xi_event h e b"
  let ?r = "if fst ?c = [] then ([], snd ?c) else append_event h TG_EV_SYN TG_SYN_REPORT 0 ?c"
  have pad: "pad_ok (state (snd ?c))"
    using convert_xi_event_pad [OF Cons.prems(1)] by (simp add: pad_change_def)
  have m: "in_step ts ?c"
    using convert_xi_event_in_step [OF Cons.prems(2)] Cons.prems(1) by (simp add: pad_ok_def)
  have st: "state (snd ?r) = state (snd ?c)" by simp
  have "state_event t (ev_of (TG_EV_SYN, TG_SYN_REPORT, 0)) = t\<lparr>ts_packet_number := ts_packet_number t + 1\<rparr>" for t
    by (simp add: state_event_def ev_of_def)
  then have "mirrors (state (snd ?c)) (run_events ts (fst ?r))"
    using m by (cases "fst ?c = []") (simp_all add: in_step_def run_append_event mirrors_def)
  then have "mirrors (state (snd (session h es (snd ?r)))) (run_events (run_events ts (fst ?r)) (fst (session h es (snd ?r))))"
    using pad st by (intro Cons.IH) (simp_all del: append_event_clock)
  then show ?case
    by (simp add: split_beta del: append_event_clock cong: if_cong split del: if_split)
qed

text \<open>C8: A program that connects at any moment sees the pad as it is. Whatever the snapshot of the client
  library held before, after the events of \<open>send_snapshot\<close> and of any XI2 events that follow it shows
  the axes, buttons and hats of the bridge.\<close>

theorem session_mirrored:
  assumes "pad_ok (state b)" "length (ts_axes ts) = 6" "snapshot_events h b = (events, b1)"
  shows "mirrors (state (snd (session h es b1))) (run_events ts (events @ fst (session h es b1)))"
proof -
  have "b1 = b\<lparr>ticks := ticks b + 21\<rparr>" using snapshot_events_clock [of h b] assms(3) by simp
  moreover have "mirrors (state b) (run_events ts events)"
    using snapshot_mirrors [OF assms(1,2), of h] assms(3) by simp
  ultimately show ?thesis using assms(1) session_mirrors [of b1 "run_events ts events"] by simp
qed

theorem session_mirrored_witness:
  "let (events, b1) = snapshot_events ez_host ez_bridge; (later, b2) = session ez_host [ez_press] b1 in
   mirrors (state b2) (run_events (reset_state\<lparr>ts_buttons := 0xfff\<rparr>) (events @ later))"
  using session_mirrored [of ez_bridge "reset_state\<lparr>ts_buttons := 0xfff\<rparr>" ez_host
      "fst (snapshot_events ez_host ez_bridge)" "snd (snapshot_events ez_host ez_bridge)" "[ez_press]"]
    ez_pad by (simp add: split_beta reset_state_def del: session.simps)

section \<open>One message from a client\<close>

text \<open>The daemon with the received bytes taken off the socket.\<close>

definition taken :: "nat \<Rightarrow> sock \<Rightarrow> bridge \<Rightarrow> bridge" where
  "taken i s b = b\<lparr>kern := (kern b)\<lparr>fds := fd_update (cl_fd (slot b i)) (s\<lparr>rx := tl (rx s)\<rparr>) (fds (kern b))\<rparr>\<rparr>"

lemma taken_simps [simp]:
  "clients (taken i s b) = clients b" "static (taken i s b) = static b" "ticks (taken i s b) = ticks b"
  "x_sent (taken i s b) = x_sent b" "device_descriptor (taken i s b) = device_descriptor b"
  "state (taken i s b) = state b" "active_rumble_low (taken i s b) = active_rumble_low b"
  "lorie_device_id (taken i s b) = lorie_device_id b" "lorie_controller_opcode (taken i s b) = lorie_controller_opcode b"
  "active_rumble_high (taken i s b) = active_rumble_high b"
  by (simp_all add: taken_def static_def)

lemma serve_one_message:
  assumes "i < length (clients b)" "0 \<le> cl_fd (slot b i)" "cl_control (slot b i) = []"
    and "k_lookup (kern b) (cl_fd (slot b i)) = Some s" "rx s = Data (enc_control m) # r"
    and "cm_magic m = TG_CONTROL_MAGIC" "cm_version m = TG_CONTROL_VERSION"
    and "handle_control h i m (taken i s b) = (ok, b')"
  shows "serve_client h POLLIN i b = (if ok then b' else close_client h i b')"
proof -
  have len: "length (enc_control m) = 16" by (rule ctl.length_enc) simp
  have ne: "enc_control m \<noteq> []" using len by auto
  have "k_recv_dontwait (cl_fd (slot b i)) 256 (kern b) = (Data (enc_control m), kern (taken i s b))"
    using assms(4,5) len by (simp add: k_recv_dontwait_def sock_recv_def taken_def)
  then have recv: "receive_control_messages h i b =
      control_loop h i (set_slot i ((slot b i)\<lparr>cl_control := enc_control m\<rparr>) (taken i s b))"
    using assms(3) ne by (simp add: receive_control_messages_def taken_def Let_def)
  let ?b = "set_slot i ((slot b i)\<lparr>cl_control := enc_control m\<rparr>) (taken i s b)"
  have c: "slot ?b i = (slot b i)\<lparr>cl_control := enc_control m\<rparr>" using assms(1) by simp
  have restore: "set_slot i ((slot ?b i)\<lparr>cl_control := []\<rparr>) ?b = taken i s b"
  proof -
    have "(slot b i)\<lparr>cl_control := []\<rparr> = slot b i" using assms(3) by simp
    then show ?thesis using assms(1) by (simp add: set_slot_def)
  qed
  have rest: "\<not> 16 \<le> length (cl_control (slot b' i))" "i < length (clients b')"
  proof -
    have k: "list_all2 slot_kept (clients b) (clients b')"
      using handle_control_kept [of "taken i s b" h i m] assms(8) by (simp add: slots_kept_def)
    then show "i < length (clients b')" using assms(1) by (simp add: list_all2_lengthD)
    have "slot_kept (slot b i) (slot b' i)" using k assms(1) by (simp add: list_all2_conv_all_nth)
    then show "\<not> 16 \<le> length (cl_control (slot b' i))" using assms(3) by (auto simp: slot_kept_def)
  qed
  have stops: "control_loop h i b' = (True, b')" using rest by (subst control_loop.simps) simp
  have "control_loop h i ?b = (if ok then (True, b') else (False, b'))"
    using assms(1,6-8) c len restore stops
    by (subst control_loop.simps) (simp add: Let_def ctl.dec_enc)
  then show ?thesis using assms(2) recv by (simp add: serve_client_def)
qed

section \<open>Connecting\<close>

lemma snapshot_report: "count_reports (fst (snapshot_events h b)) = 1"
proof -
  have r: "is_report e = (fst (sig_of e) = TG_EV_SYN \<and> fst (snd (sig_of e)) = TG_SYN_REPORT)" for e
    by (simp add: is_report_def sig_of_def)
  have n: "length (filter is_report es) =
      length (filter (\<lambda>t. fst t = TG_EV_SYN \<and> fst (snd t) = TG_SYN_REPORT) (map sig_of es))" for es
    by (induction es) (simp_all add: r)
  show ?thesis
    by (simp only: count_reports_def n snapshot_events_sig)
       (simp add: snapshot_sigs_def filter_map o_def del: upt.simps)
qed

lemma snapshot_bytes: "length (concat (map enc_event (fst (snapshot_events h b)))) = 504"
proof -
  have "length (fst (snapshot_events h b)) = 21"
    using arg_cong [OF snapshot_events_sig [of h b], of length] by (simp add: snapshot_sigs_def length_snapshot_buttons)
  then show ?thesis using evt.length_stream [of "fst (snapshot_events h b)"] by simp
qed

text \<open>The answer of the bridge to a query that finds room and a working socket.\<close>

lemma query_answered:
  assumes "i < length (clients b)" "cl_output (slot b i) = []" "alive b i" "wf_descriptor d"
    and "dd_present d \<noteq> 0" "d = device_descriptor b" "cm_command m = TG_CONTROL_QUERY_DESCRIPTOR"
  obtains b1 b' where "handle_control h i m b = (True, b')" "state b1 = state b"
    "delivered b' i = delivered b i @ enc_descriptor d @ concat (map enc_event (fst (snapshot_events h b1)))"
    "cl_fd (slot b' i) = cl_fd (slot b i)" "cl_kind (slot b' i) = CLIENT_EVENTS" "static b' = static b"
proof -
  let ?b0 = "set_slot i ((slot b i)\<lparr>cl_kind := CLIENT_EVENTS\<rparr>) b"
  have b0: "delivered ?b0 i = delivered b i" "alive ?b0 i" "i < length (clients ?b0)"
    using assms(1-3) by (simp_all add: delivered_def alive_def)
  obtain ok1 b1 where q1: "queue_bytes i (enc_descriptor d) ?b0 = (ok1, b1)" by fastforce
  have el: "length (enc_descriptor d) = 88" using assms(4) by (rule dev.length_enc)
  have b1: "ok1" "delivered b1 i = delivered b i @ enc_descriptor d" "alive b1 i" "length (cl_output (slot b1 i)) \<le> 88"
      "cl_fd (slot b1 i) = cl_fd (slot b i)" "cl_kind (slot b1 i) = CLIENT_EVENTS"
    using queue_bytes_delivers [OF q1 b0(3)] b0(1,2) el assms(1,2) by simp_all
  have s1: "static b1 = static b" using static_queue_bytes [of i "enc_descriptor d" ?b0] q1 by (simp add: stays)
  obtain out where "clients b1 = (clients ?b0)[i := out]" using queue_bytes_clients [of i "enc_descriptor d" ?b0] q1 by auto
  then have len1: "i < length (clients b1)" using assms(1) by simp
  let ?bytes = "concat (map enc_event (fst (snapshot_events h b1)))"
  define b2 where "b2 = b1\<lparr>ticks := ticks b1 + 21\<rparr>"
  have b2: "i < length (clients b2)" "alive b2 i" "delivered b2 i = delivered b1 i" "cl_output (slot b2 i) = cl_output (slot b1 i)"
    "cl_fd (slot b2 i) = cl_fd (slot b1 i)" "cl_kind (slot b2 i) = cl_kind (slot b1 i)" "static b2 = static b1"
    using b1 len1 by (simp_all add: alive_def delivered_def b2_def stays)
  obtain ok3 b3 where q3: "queue_bytes i ?bytes b2 = (ok3, b3)" by fastforce
  have b3: "ok3" "delivered b3 i = delivered b1 i @ ?bytes"
      "cl_fd (slot b3 i) = cl_fd (slot b1 i)" "cl_kind (slot b3 i) = cl_kind (slot b1 i)"
    using queue_bytes_delivers [OF q3 b2(1)] b1(4) b2 snapshot_bytes [of h b1] by simp_all
  have s3: "static b3 = static b" using static_queue_bytes [of i ?bytes b2] q3 b2(7) s1 by simp
  have "handle_control h i m b = (True, b3)"
    using q1 q3 b1(1) b3(1) s1 assms(5-7)
    by (simp add: handle_control_def send_snapshot_def queue_events_def split_beta snapshot_events_clock b2_def static_def)
  then show thesis using that [of b3 b1] b1 b3 s1 s3 by (simp add: static_def)
qed

text \<open>The answer to the first query of a client, and what the client can make of it.\<close>

lemma connection_answered:
  assumes "bridge_good base b" "i < 16" "0 \<le> cl_fd (slot b i)" "0 \<le> lorie_device_id b"
    and "cl_control (slot b i) = []" "cl_output (slot b i) = []" "alive b i"
    and "k_lookup (kern b) (cl_fd (slot b i)) = Some s"
    and "rx s = Data (enc_control (control_message TG_CONTROL_QUERY_DESCRIPTOR 0 0 0)) # r"
    and "b' = serve_client h POLLIN i b" "d = device_descriptor b"
  shows "\<exists>events. delivered b' i = delivered b i @ enc_descriptor d @ concat (map enc_event events) \<and>
    cl_fd (slot b' i) = cl_fd (slot b i) \<and> cl_kind (slot b' i) = CLIENT_EVENTS \<and>
    dec_descriptor (enc_descriptor d) = d \<and> dd_magic d = TG_DEVICE_MAGIC \<and>
    dd_version d = TG_CONTROL_VERSION \<and> dd_present d \<noteq> 0 \<and>
    count_reports events = 1 \<and> mirrors (state b') (run_events reset_state events)"
proof -
  have len: "i < length (clients b)" using assms(1,2) slots_length by (auto simp: bridge_inv_def)
  have dev: "wf_descriptor d" "dd_magic d = TG_DEVICE_MAGIC" "dd_version d = TG_CONTROL_VERSION" "dd_present d \<noteq> 0"
    using assms(1,4,11) by (auto simp: bridge_inv_def device_ok_def Let_def split: if_splits)
  let ?m = "control_message TG_CONTROL_QUERY_DESCRIPTOR 0 0 0" and ?t = "taken i s b"
  have t: "delivered ?t i = delivered b i" "alive ?t i" "cl_output (slot ?t i) = []" "i < length (clients ?t)"
    using assms(6-8) len by (simp_all add: delivered_def alive_def taken_def fdt.update_lookup)
  have t': "state ?t = state b" "static ?t = static b" "slot ?t i = slot b i" "device_descriptor ?t = device_descriptor b"
    using len by (simp_all add: taken_def static_def)
  have dt: "d = device_descriptor ?t" "cm_command ?m = TG_CONTROL_QUERY_DESCRIPTOR"
    using assms(11) t'(4) by (simp_all add: control_message_def)
  obtain b1 b2 where q0: "handle_control h i ?m ?t = (True, b2)" "state b1 = state ?t"
    "delivered b2 i = delivered ?t i @ enc_descriptor d @ concat (map enc_event (fst (snapshot_events h b1)))"
    "cl_fd (slot b2 i) = cl_fd (slot ?t i)" "cl_kind (slot b2 i) = CLIENT_EVENTS" "static b2 = static ?t"
    by (rule query_answered [OF t(4,3,2) dev(1,4) dt, of h])
  note q = q0(1) q0(2,3,4) [unfolded t'(1,3) t(1)] q0(5) q0(6) [unfolded t'(2)]
  from serve_one_message [OF len assms(3,5,8,9) _ _ q(1)] have b': "b' = b2"
    using assms(10) by (simp add: control_message_def)
  have "mirrors (state b1) (run_events reset_state (fst (snapshot_events h b1)))"
    using assms(1) q(2) by (intro snapshot_mirrors) (simp_all add: bridge_inv_def reset_state_def)
  then show ?thesis
    using q b' dev dev.dec_enc [OF dev(1)] snapshot_report [of h b1]
    by (intro exI [of _ "fst (snapshot_events h b1)"]) (simp add: static_def)
qed

text \<open>C3: Connecting works end to end. When a client that has just connected sends the descriptor query of
  the client library and its socket takes what it is sent, the bridge answers with its 88 byte
  descriptor, which passes every check of \<open>open_event_stream\<close> and decodes to the controller the bridge
  has, followed by one snapshot after which the library's state shows the pad.\<close>

theorem connection_end_to_end:
  assumes "bridge_good base b" "i < 16" "0 \<le> cl_fd (slot b i)" "0 \<le> lorie_device_id b"
    and "cl_control (slot b i) = []" "cl_output (slot b i) = []" "alive b i"
    and "k_lookup (kern b) (cl_fd (slot b i)) = Some s"
    and "rx s = Data (enc_control (control_message TG_CONTROL_QUERY_DESCRIPTOR 0 0 0)) # r"
    and "b' = serve_client h POLLIN i b" "d = device_descriptor b"
  shows "\<exists>events. delivered b' i = delivered b i @ enc_descriptor d @ concat (map enc_event events) \<and>
    cl_fd (slot b' i) = cl_fd (slot b i) \<and> cl_kind (slot b' i) = CLIENT_EVENTS \<and>
    dec_descriptor (enc_descriptor d) = d \<and> dd_magic d = TG_DEVICE_MAGIC \<and>
    dd_version d = TG_CONTROL_VERSION \<and> dd_present d \<noteq> 0 \<and>
    count_reports events = 1 \<and> mirrors (state b') (run_events reset_state events)"
  by (rule connection_answered [OF assms])

text \<open>A controller and one client that has sent a message.\<close>

definition ez_sock :: "tg_control_message \<Rightarrow> sock" where
  "ez_sock m = blank_sock\<lparr>rx := [Data (enc_control m)]\<rparr>"

definition ez_reply :: lorie_capabilities_reply where
  "ez_reply = \<lparr>qr_deviceId = 2, qr_capabilities = 1, qr_present = 1, qr_numAxes = 6, qr_numButtons = 16,
     qr_numHats = 1, qr_mapping = 0, qr_vendorId = 0x45e, qr_productId = 0x28e, qr_inputMode = 1\<rparr>"

definition ez_plugged :: "tg_control_message \<Rightarrow> bridge" where
  "ez_plugged m = ez_bridge\<lparr>clients := unused_client\<lparr>cl_fd := 0\<rparr> # replicate 15 unused_client,
     lorie_controller_opcode := 140, lorie_device_id := 2, lorie_capabilities := 1,
     device_descriptor := new_descriptor 2 ez_reply [],
     kern := \<lparr>fds = [Some (ez_sock m)], dial = (\<lambda>_. SocketFails EBADF), dialled = 0\<rparr>\<rparr>"

lemma ez_plugged_slot: "i < 16 \<Longrightarrow> slot (ez_plugged m) i = (if i = 0 then unused_client\<lparr>cl_fd := 0\<rparr> else unused_client)"
  by (auto simp: ez_plugged_def nth_Cons split: nat.split)

lemma ez_plugged_lookup: "k_lookup (kern (ez_plugged m)) f = (if f = 0 then Some (ez_sock m) else None)"
  by (auto simp: ez_plugged_def fd_lookup_def nth_Cons split: nat.split)

lemma ez_plugged_good: "bridge_good (\<lambda>_. None) (ez_plugged m)"
proof -
  have "b_slots (\<lambda>_. None) (\<lambda>_. 15) (ez_plugged m)"
    unfolding slots_inv_def ez_plugged_lookup
    by (auto simp: ez_plugged_slot client_ok_def unused_client_def ez_plugged_lookup)
       (auto simp: ez_plugged_def)
  moreover have "device_ok (ez_plugged m)"
    by (simp add: ez_plugged_def device_ok_def new_descriptor_def zero_descriptor_def wf_descriptor_def
          ez_reply_def snprintf_s_facts)
  moreover have "pad_ok (state (ez_plugged m))" using ez_pad by (simp add: ez_plugged_def)
  ultimately show ?thesis by (simp add: bridge_inv_def)
qed

theorem connection_end_to_end_witness:
  "\<exists>events. delivered (serve_client ez_host POLLIN 0 (ez_plugged (control_message TG_CONTROL_QUERY_DESCRIPTOR 0 0 0))) 0 =
       enc_descriptor (new_descriptor 2 ez_reply []) @ concat (map enc_event events) \<and>
     mirrors zero_state (run_events reset_state events)"
proof -
  let ?b = "ez_plugged (control_message TG_CONTROL_QUERY_DESCRIPTOR 0 0 0)"
  have s: "slot ?b 0 = unused_client\<lparr>cl_fd := 0\<rparr>" by (simp add: ez_plugged_slot)
  have dev: "lorie_device_id ?b = 2" "device_descriptor ?b = new_descriptor 2 ez_reply []" "state ?b = zero_state"
    by (simp_all add: ez_plugged_def ez_pad)
  have "alive ?b 0" by (simp add: alive_def s ez_plugged_lookup ez_sock_def blank_sock_def)
  moreover have "delivered ?b 0 = []"
    by (simp add: delivered_def s ez_plugged_lookup ez_sock_def blank_sock_def unused_client_def)
  moreover have "state (serve_client ez_host POLLIN 0 ?b) = zero_state"
    using static_serve [of ez_host POLLIN 0 ?b] dev by (simp add: static_def)
  ultimately show ?thesis
    using connection_end_to_end [OF ez_plugged_good [of "control_message TG_CONTROL_QUERY_DESCRIPTOR 0 0 0"], of 0 "ez_sock (control_message TG_CONTROL_QUERY_DESCRIPTOR 0 0 0)" "[]" _ ez_host _,
        OF _ _ _ _ _ _ _ _ refl refl] dev
    by (auto simp: s ez_plugged_lookup unused_client_def ez_sock_def)
qed

section \<open>From the program to the motors\<close>

lemma no_request_scan:
  assumes "\<And>c. c \<in> set cs \<Longrightarrow> \<not> (0 \<le> cl_fd c \<and> has_request c)"
  shows "filter (rumbling now) cs = []"
  using assms by (auto simp: filter_empty_conv rumbling_def has_request_def)

lemma single_rumbler:
  assumes "i < length cs" "\<And>j. j < length cs \<Longrightarrow> j \<noteq> i \<Longrightarrow> \<not> (0 \<le> cl_fd (cs ! j) \<and> has_request (cs ! j))" "rumbling now c"
  shows "filter (rumbling now) (cs[i := c]) = [c]"
proof -
  have "cs[i := c] = take i cs @ c # drop (Suc i) cs" using assms(1) by (rule upd_conv_take_nth_drop)
  moreover have "filter (rumbling now) (take i cs) = []"
    using assms(1,2) by (intro no_request_scan) (auto simp: in_set_conv_nth)
  moreover have "filter (rumbling now) (drop (Suc i) cs) = []"
    using assms(1,2) by (intro no_request_scan) (fastforce simp: in_set_conv_nth)
  ultimately show ?thesis using assms(3) by simp
qed

text \<open>C4: Rumble works end to end. When a program asks the client library for rumble, the call succeeds, and
  the bytes it put on the wire reach the bridge while no other client wants rumble, then the bridge
  sends the X server exactly one request: for its device, with the two strengths the program asked
  for, for the time that is left of the duration (2500 ms for a duration of 0).\<close>

theorem rumble_end_to_end:
  assumes "termux_gamepad_rumble (Some g) low high duration kc = (0, kc')" "low \<noteq> 0 \<or> high \<noteq> 0"
    and "k_lookup kc (gp_event_fd g) = Some c" "k_lookup kc' (gp_event_fd g) = Some c'"
    and "i < length (clients b)" "0 \<le> cl_fd (slot b i)" "cl_control (slot b i) = []" "can_rumble b"
    and "k_lookup (kern b) (cl_fd (slot b i)) = Some s" "rx s = Data (drop (length (sent c)) (sent c')) # r"
    and "\<And>j. j < length (clients b) \<Longrightarrow> j \<noteq> i \<Longrightarrow> \<not> (0 \<le> cl_fd (slot b j) \<and> has_request (slot b j))"
    and "expires = to_ms (clock h (ticks b)) + ucast (if duration \<noteq> 0 then duration else 2500)"
    and "now = to_ms (clock h (Suc (ticks b)))" "now < expires"
  shows "x_sent (serve_client h POLLIN i b) = x_sent b @
    [(word_of_int (lorie_controller_opcode b),
      Rumble (word_of_int (lorie_device_id b)) LORIE_CONTROLLER_EFFECT_MAIN low high
        (ucast (max 1 (min (expires - now) 0xffffffff))))]"
proof -
  let ?m = "control_message TG_CONTROL_RUMBLE low high duration"
  have "send_command (gp_event_fd g) TG_CONTROL_RUMBLE low high duration kc = (0, kc')"
    using assms(1,2) by (auto simp: termux_gamepad_rumble_def split: if_splits)
  from send_command_spec [OF this assms(3)] assms(4) have "sent c' = sent c @ enc_control ?m" by auto
  then have rx: "rx s = Data (enc_control ?m) # r" using assms(10) by simp
  let ?t = "taken i s b"
  let ?c = "(slot b i)\<lparr>cl_rumble_low := low, cl_rumble_high := high, cl_rumble_expires_ms := expires\<rparr>"
  let ?b = "set_slot i ?c (?t\<lparr>ticks := Suc (ticks b)\<rparr>)"
  have h: "handle_control h i ?m ?t = (True, update_rumble h True ?b)"
    using assms(12) by (simp add: handle_control_def control_message_def monotonic_ms_def read_clock_def)
  have "rumbling now ?c" using assms(2,6,14) by (simp add: rumbling_def)
  from single_rumbler [OF assms(5,11) this]
  have live: "filter (rumbling now) (clients ?b) = [?c]" by simp
  have can: "can_rumble ?b" using assms(8) can_rumble_static [of ?b b] by (simp add: stays)
  have "x_sent (update_rumble h True ?b) = x_sent b @
    [(word_of_int (lorie_controller_opcode b), Rumble (word_of_int (lorie_device_id b)) LORIE_CONTROLLER_EFFECT_MAIN low high
        (ucast (max 1 (min (expires - now) 0xffffffff))))]"
    using live can assms(13) by (simp add: update_rumble_arbitrated arbitrated_def Let_def strongest_def del: set_slot_kern(1))
  then show ?thesis
    using serve_one_message [OF assms(5-7,9) rx _ _ h] by (simp add: control_message_def)
qed

definition ez_kernel :: kernel where
  "ez_kernel = \<lparr>fds = [Some blank_sock], dial = (\<lambda>_. SocketFails EBADF), dialled = 0\<rparr>"

definition ez_handle :: termux_gamepad where
  "ez_handle = (initial_handle [])\<lparr>gp_event_fd := 0\<rparr>"

theorem rumble_end_to_end_witness:
  "x_sent (serve_client ez_host POLLIN 0 (ez_plugged (control_message TG_CONTROL_RUMBLE 7 9 300))) =
     [(140, Rumble 2 0 7 9 300)]"
proof -
  let ?m = "control_message TG_CONTROL_RUMBLE 7 9 300"
  let ?b = "ez_plugged ?m"
  let ?k = "ez_kernel\<lparr>fds := [Some (blank_sock\<lparr>sent := enc_control ?m\<rparr>)]\<rparr>"
  have ne: "enc_control ?m \<noteq> []" using ctl.length_enc [of ?m] by auto
  have "send_loop (enc_control ?m) blank_sock = (0, blank_sock\<lparr>sent := enc_control ?m\<rparr>)"
    using ne by (subst send_loop.simps) (simp add: sock_send_def blank_sock_def send_loop.simps)
  then have call: "termux_gamepad_rumble (Some ez_handle) 7 9 300 ez_kernel = (0, ?k)"
    by (simp add: termux_gamepad_rumble_def send_command_def send_all_def ez_handle_def ez_kernel_def
          fd_lookup_def fd_update_def)
  have s: "slot ?b 0 = unused_client\<lparr>cl_fd := 0\<rparr>" by (simp add: ez_plugged_slot)
  have len: "length (clients ?b) = 16" by (simp add: ez_plugged_def)
  have others: "\<not> (0 \<le> cl_fd (slot ?b j) \<and> has_request (slot ?b j))" if "j < length (clients ?b)" "j \<noteq> 0" for j
    using that len by (simp add: ez_plugged_slot unused_client_def)
  have t: "to_ms (clock ez_host n) = 100000" for n by (simp add: ez_host_def to_ms_def)
  have "x_sent (serve_client ez_host POLLIN 0 ?b) = x_sent ?b @
    [(word_of_int (lorie_controller_opcode ?b), Rumble (word_of_int (lorie_device_id ?b)) 0 7 9
        (ucast (max 1 (min (100300 - 100000) 0xffffffff :: u64))))]"
  proof (rule rumble_end_to_end [OF call, where i = 0 and r = "[]" and b = ?b and s = "ez_sock ?m"])
    show "k_lookup ez_kernel (gp_event_fd ez_handle) = Some blank_sock"
      "k_lookup ?k (gp_event_fd ez_handle) = Some (blank_sock\<lparr>sent := enc_control ?m\<rparr>)"
      by (simp_all add: ez_kernel_def ez_handle_def fd_lookup_def)
    show "rx (ez_sock ?m) = [Data (drop (length (sent blank_sock)) (sent (blank_sock\<lparr>sent := enc_control ?m\<rparr>)))]"
      by (simp add: ez_sock_def blank_sock_def)
    show "k_lookup (kern ?b) (cl_fd (slot ?b 0)) = Some (ez_sock ?m)"
      by (simp add: s ez_plugged_lookup)
    show "can_rumble ?b" by (simp add: can_rumble_def ez_plugged_def ez_bridge_def)
  qed (use s len others t in \<open>simp_all add: unused_client_def\<close>)
  then show ?thesis by (simp add: ez_plugged_def ez_bridge_def bridge_loaded_def)
qed

end
