(* ===== verification/UdevState.thy ===== *)
theory UdevState
  imports ShimCalls
begin

text \<open>
  The fake libudev, \<open>src/src/libudev_fake.c\<close>, up to its connections: the static objects, the device
  descriptor it keeps, and the functions that answer questions about devices.

  Every object an application can hold is one of the library's statics, so a pointer is the name of
  a static: a \<open>struct udev_device *\<close> is a \<open>fake_device_kind option\<close> (each static device has a kind of its
  own and keeps it), and a pointer to the context, the enumeration or the monitor is a \<open>bool\<close> that says
  whether it is non-null. A \<open>const char *\<close> that points into a static is the text it points to at the time
  of the call. The reference counters are C \<open>int\<close>s that are only compared with zero; they are \<open>int\<close>s
  here. The environment is an argument, as \<open>getenv\<close> is called anew by every function.
\<close>

section \<open>State\<close>

datatype fake_device_kind = FAKE_EVDEV | FAKE_JOYDEV | FAKE_PARENT

record udev_device =
  ud_refs :: int
  ud_action :: int
  ud_kind :: fake_device_kind

record udev_enumerate =
  ue_refs :: int
  ue_matched_input :: int

record udev_monitor =
  um_refs :: int
  um_pipefd0 :: fd
  um_pipefd1 :: fd

record udev =
  g_descriptor :: tg_device_descriptor
  vendor_string :: bytes
  product_string :: bytes
  g_udev_refs :: int
  g_event_dev :: udev_device
  g_joy_dev :: udev_device
  g_parent_dev :: udev_device
  g_enum :: udev_enumerate
  g_monitor :: udev_monitor

text \<open>The static initialisers.\<close>

definition udev_loaded :: udev where
  "udev_loaded =
     \<lparr>g_descriptor = zero_descriptor, vendor_string = lit ''0000'' @ [0], product_string = lit ''0000'' @ [0],
      g_udev_refs = 1,
      g_event_dev = \<lparr>ud_refs = 1, ud_action = 0, ud_kind = FAKE_EVDEV\<rparr>,
      g_joy_dev = \<lparr>ud_refs = 1, ud_action = 0, ud_kind = FAKE_JOYDEV\<rparr>,
      g_parent_dev = \<lparr>ud_refs = 1, ud_action = 0, ud_kind = FAKE_PARENT\<rparr>,
      g_enum = \<lparr>ue_refs = 0, ue_matched_input = 0\<rparr>,
      g_monitor = \<lparr>um_refs = 0, um_pipefd0 = 0, um_pipefd1 = 0\<rparr>\<rparr>"

type_synonym device_ptr = "fake_device_kind option"

fun the_device :: "udev \<Rightarrow> fake_device_kind \<Rightarrow> udev_device" where
  "the_device u FAKE_EVDEV = g_event_dev u"
| "the_device u FAKE_JOYDEV = g_joy_dev u"
| "the_device u FAKE_PARENT = g_parent_dev u"

fun map_device :: "(udev_device \<Rightarrow> udev_device) \<Rightarrow> fake_device_kind \<Rightarrow> udev \<Rightarrow> udev" where
  "map_device f FAKE_EVDEV u = u\<lparr>g_event_dev := f (g_event_dev u)\<rparr>"
| "map_device f FAKE_JOYDEV u = u\<lparr>g_joy_dev := f (g_joy_dev u)\<rparr>"
| "map_device f FAKE_PARENT u = u\<lparr>g_parent_dev := f (g_parent_dev u)\<rparr>"

section \<open>The descriptor\<close>

definition udev_backend_enabled :: "env \<Rightarrow> bool" where
  "udev_backend_enabled env =
     (let backend = termux_gamepad_get_backend env in backend = BACKEND_AUTO \<or> backend = BACKEND_UDEV)"

text \<open>The loop of \<open>format_hex4\<close> runs from the last digit to the first; the fifth byte is the terminator.\<close>

definition digits :: cstring where
  "digits = lit ''0123456789abcdef''"

fun hex_loop :: "nat \<Rightarrow> u32 \<Rightarrow> bytes \<Rightarrow> bytes" where
  "hex_loop 0 v out = out"
| "hex_loop (Suc i) v out = hex_loop i (drop_bit 4 v) (out[i := digits ! unat (v AND 15)])"

definition format_hex4 :: "bytes \<Rightarrow> u32 \<Rightarrow> bytes" where
  "format_hex4 out v = (hex_loop 4 v out)[4 := 0]"

definition update_descriptor :: "env \<Rightarrow> tg_device_descriptor \<Rightarrow> udev \<Rightarrow> udev" where
  "update_descriptor env descriptor u =
     (if \<not> udev_backend_enabled env then u\<lparr>g_descriptor := (g_descriptor u)\<lparr>dd_present := 0\<rparr>\<rparr>
      else u\<lparr>g_descriptor := descriptor,
             vendor_string := format_hex4 (vendor_string u) (dd_vendor_id descriptor),
             product_string := format_hex4 (product_string u) (dd_product_id descriptor)\<rparr>)"

definition dinput_mode :: "env \<Rightarrow> udev \<Rightarrow> bool" where
  "dinput_mode env u =
     (let override = env ''TERMUX_GAMEPAD_MODE'' in
      if tg_streq override (Some (lit ''dinput'')) then True
      else if tg_streq override (Some (lit ''xinput'')) then False
      else dd_input_mode (g_descriptor u) = TG_INPUT_MODE_DINPUT)"

definition device_name :: "env \<Rightarrow> udev \<Rightarrow> cstring" where
  "device_name env u =
     (if char_at (dd_name (g_descriptor u)) \<noteq> 0 then dd_name (g_descriptor u)
      else if dinput_mode env u then TG_DINPUT_NAME else TG_XINPUT_NAME)"

section \<open>The context\<close>

definition udev_new :: "udev \<Rightarrow> bool \<times> udev" where
  "udev_new u = (True, u\<lparr>g_udev_refs := g_udev_refs u + 1\<rparr>)"

definition udev_ref :: "bool \<Rightarrow> udev \<Rightarrow> bool \<times> udev" where
  "udev_ref p u = (p, if p then u\<lparr>g_udev_refs := g_udev_refs u + 1\<rparr> else u)"

definition udev_unref :: "bool \<Rightarrow> udev \<Rightarrow> bool \<times> udev" where
  "udev_unref p u =
     (False, if p \<and> 0 < g_udev_refs u then u\<lparr>g_udev_refs := g_udev_refs u - 1\<rparr> else u)"

section \<open>Devices\<close>

definition TG_FAKE_PARENT_SYSPATH :: cstring where
  "TG_FAKE_PARENT_SYSPATH = lit ''/sys/devices/virtual/termux-gamepad0/input/input99''"

definition TG_FAKE_SYSPATH :: cstring where
  "TG_FAKE_SYSPATH = TG_FAKE_PARENT_SYSPATH @ lit ''/event99''"

definition TG_FAKE_JOYDEV_SYSPATH :: cstring where
  "TG_FAKE_JOYDEV_SYSPATH = TG_FAKE_PARENT_SYSPATH @ lit ''/js99''"

definition device_for_syspath :: "cstring option \<Rightarrow> device_ptr" where
  "device_for_syspath path =
     (if tg_streq path (Some TG_FAKE_SYSPATH) then Some FAKE_EVDEV
      else if tg_streq path (Some TG_FAKE_JOYDEV_SYSPATH) then Some FAKE_JOYDEV
      else if tg_streq path (Some TG_FAKE_PARENT_SYSPATH) then Some FAKE_PARENT
      else None)"

definition udev_device_ref :: "device_ptr \<Rightarrow> udev \<Rightarrow> device_ptr \<times> udev" where
  "udev_device_ref d u =
     (d, case d of None \<Rightarrow> u | Some p \<Rightarrow> map_device (\<lambda>v. v\<lparr>ud_refs := ud_refs v + 1\<rparr>) p u)"

definition udev_device_unref :: "device_ptr \<Rightarrow> udev \<Rightarrow> device_ptr \<times> udev" where
  "udev_device_unref d u =
     (None, case d of
        None \<Rightarrow> u
      | Some p \<Rightarrow> if 0 < ud_refs (the_device u p) then map_device (\<lambda>v. v\<lparr>ud_refs := ud_refs v - 1\<rparr>) p u else u)"

definition udev_device_new_from_syspath :: "env \<Rightarrow> cstring option \<Rightarrow> udev \<Rightarrow> device_ptr \<times> udev" where
  "udev_device_new_from_syspath env path u =
     (if \<not> udev_backend_enabled env then (None, u)
      else case device_for_syspath path of
        None \<Rightarrow> (None, u)
      | Some p \<Rightarrow> (Some p, map_device (\<lambda>v. v\<lparr>ud_refs := ud_refs v + 1\<rparr>) p u))"

text \<open>The device number is not looked at.\<close>

definition udev_device_new_from_devnum :: "env \<Rightarrow> char \<Rightarrow> u64 \<Rightarrow> udev \<Rightarrow> device_ptr \<times> udev" where
  "udev_device_new_from_devnum env ty devnum u =
     (if \<not> udev_backend_enabled env then (None, u)
      else (Some FAKE_EVDEV, u\<lparr>g_event_dev := (g_event_dev u)\<lparr>ud_refs := ud_refs (g_event_dev u) + 1\<rparr>\<rparr>))"

definition udev_device_get_devnum :: "device_ptr \<Rightarrow> u64" where
  "udev_device_get_devnum d = 0"

definition udev_device_get_devnode :: "udev \<Rightarrow> device_ptr \<Rightarrow> cstring option" where
  "udev_device_get_devnode u d =
     (case d of None \<Rightarrow> None
      | Some p \<Rightarrow>
          if ud_kind (the_device u p) = FAKE_EVDEV then Some TG_FAKE_DEVNODE
          else if ud_kind (the_device u p) = FAKE_JOYDEV then Some TG_FAKE_JOYDEV_NODE
          else None)"

definition udev_device_get_syspath :: "udev \<Rightarrow> device_ptr \<Rightarrow> cstring option" where
  "udev_device_get_syspath u d =
     (case d of None \<Rightarrow> None
      | Some p \<Rightarrow>
          if ud_kind (the_device u p) = FAKE_EVDEV then Some TG_FAKE_SYSPATH
          else if ud_kind (the_device u p) = FAKE_JOYDEV then Some TG_FAKE_JOYDEV_SYSPATH
          else Some TG_FAKE_PARENT_SYSPATH)"

definition udev_device_get_sysname :: "udev \<Rightarrow> device_ptr \<Rightarrow> cstring option" where
  "udev_device_get_sysname u d =
     (case d of None \<Rightarrow> None
      | Some p \<Rightarrow>
          if ud_kind (the_device u p) = FAKE_EVDEV then Some (lit ''event99'')
          else if ud_kind (the_device u p) = FAKE_JOYDEV then Some (lit ''js99'')
          else Some (lit ''input99''))"

definition udev_device_get_subsystem :: "device_ptr \<Rightarrow> cstring option" where
  "udev_device_get_subsystem d = (if d \<noteq> None then Some (lit ''input'') else None)"

definition udev_device_get_driver :: "device_ptr \<Rightarrow> cstring option" where
  "udev_device_get_driver d = None"

definition udev_device_get_parent :: "udev \<Rightarrow> device_ptr \<Rightarrow> device_ptr" where
  "udev_device_get_parent u d =
     (case d of None \<Rightarrow> None
      | Some p \<Rightarrow> if ud_kind (the_device u p) = FAKE_PARENT then None else Some FAKE_PARENT)"

definition udev_device_get_parent_with_subsystem_devtype ::
  "udev \<Rightarrow> device_ptr \<Rightarrow> cstring option \<Rightarrow> cstring option \<Rightarrow> device_ptr" where
  "udev_device_get_parent_with_subsystem_devtype u d s t =
     (case d of None \<Rightarrow> None
      | Some p \<Rightarrow>
          if ud_kind (the_device u p) = FAKE_PARENT \<or> \<not> tg_streq s (Some (lit ''input'')) then None
          else Some FAKE_PARENT)"

definition udev_device_get_property_value ::
  "env \<Rightarrow> udev \<Rightarrow> device_ptr \<Rightarrow> cstring option \<Rightarrow> cstring option" where
  "udev_device_get_property_value env u d key =
     (if d = None \<or> key = None then None
      else if tg_streq key (Some (lit ''ID_INPUT_JOYSTICK'')) then Some (lit ''1'')
      else if tg_streq key (Some (lit ''ID_INPUT'')) then Some (lit ''1'')
      else if tg_streq key (Some (lit ''DEVNAME'')) then udev_device_get_devnode u d
      else if tg_streq key (Some (lit ''SUBSYSTEM'')) then Some (lit ''input'')
      else if tg_streq key (Some (lit ''NAME'')) then Some (device_name env u)
      else if tg_streq key (Some (lit ''ID_VENDOR_ID'')) then
        Some (if dinput_mode env u then lit ''1209'' else vendor_string u)
      else if tg_streq key (Some (lit ''ID_MODEL_ID'')) then
        Some (if dinput_mode env u then lit ''0001'' else product_string u)
      else if tg_streq key (Some (lit ''ID_REVISION'')) then Some (lit ''0114'')
      else None)"

definition udev_device_get_action :: "udev \<Rightarrow> device_ptr \<Rightarrow> cstring option" where
  "udev_device_get_action u d =
     (case d of None \<Rightarrow> None
      | Some p \<Rightarrow> Some (if ud_action (the_device u p) = 2 then lit ''remove'' else lit ''add''))"

definition udev_device_get_sysattr_value ::
  "env \<Rightarrow> udev \<Rightarrow> device_ptr \<Rightarrow> cstring option \<Rightarrow> cstring option" where
  "udev_device_get_sysattr_value env u d key =
     (if d = None \<or> key = None then None
      else if tg_streq key (Some (lit ''id/vendor'')) then
        Some (if dinput_mode env u then lit ''1209'' else vendor_string u)
      else if tg_streq key (Some (lit ''id/product'')) then
        Some (if dinput_mode env u then lit ''0001'' else product_string u)
      else if tg_streq key (Some (lit ''id/version'')) then Some (lit ''0114'')
      else if tg_streq key (Some (lit ''name'')) then Some (device_name env u)
      else None)"

section \<open>The enumeration without its scan\<close>

definition udev_enumerate_new :: "udev \<Rightarrow> bool \<times> udev" where
  "udev_enumerate_new u = (True, u\<lparr>g_enum := \<lparr>ue_refs = 1, ue_matched_input = 0\<rparr>\<rparr>)"

definition udev_enumerate_ref :: "bool \<Rightarrow> udev \<Rightarrow> bool \<times> udev" where
  "udev_enumerate_ref e u =
     (e, if e then u\<lparr>g_enum := (g_enum u)\<lparr>ue_refs := ue_refs (g_enum u) + 1\<rparr>\<rparr> else u)"

definition udev_enumerate_unref :: "bool \<Rightarrow> udev \<Rightarrow> bool \<times> udev" where
  "udev_enumerate_unref e u =
     (False, if e \<and> 0 < ue_refs (g_enum u)
             then u\<lparr>g_enum := (g_enum u)\<lparr>ue_refs := ue_refs (g_enum u) - 1\<rparr>\<rparr> else u)"

definition udev_enumerate_add_match_subsystem :: "bool \<Rightarrow> cstring option \<Rightarrow> udev \<Rightarrow> int \<times> udev" where
  "udev_enumerate_add_match_subsystem e subsystem u =
     (if \<not> e then (-1, u)
      else (0, u\<lparr>g_enum := (g_enum u)
             \<lparr>ue_matched_input := (if tg_streq subsystem (Some (lit ''input'')) then 1 else 0)\<rparr>\<rparr>))"

definition udev_enumerate_add_match_property ::
  "bool \<Rightarrow> cstring option \<Rightarrow> cstring option \<Rightarrow> udev \<Rightarrow> int \<times> udev" where
  "udev_enumerate_add_match_property e key v u =
     (if \<not> e then (-1, u)
      else (0, if tg_streq key (Some (lit ''ID_INPUT_JOYSTICK'')) \<and> tg_streq v (Some (lit ''1''))
               then u\<lparr>g_enum := (g_enum u)\<lparr>ue_matched_input := 1\<rparr>\<rparr> else u))"

text \<open>A list entry: there is only one, \<open>g_entries[0]\<close>, so the pointer is a \<open>bool\<close> too.\<close>

definition udev_enumerate_get_list_entry :: "env \<Rightarrow> bool \<Rightarrow> udev \<Rightarrow> bool" where
  "udev_enumerate_get_list_entry env e u =
     (if \<not> udev_backend_enabled env then False
      else if \<not> e \<or> ue_matched_input (g_enum u) = 0 \<or> dd_present (g_descriptor u) = 0 then False
      else True)"

definition udev_list_entry_get_next :: "bool \<Rightarrow> bool" where
  "udev_list_entry_get_next e = False"

definition udev_list_entry_get_name :: "bool \<Rightarrow> cstring option" where
  "udev_list_entry_get_name e = (if \<not> e then None else Some TG_FAKE_SYSPATH)"

end
