(* ===== verification/UdevCalls.thy ===== *)
theory UdevCalls
  imports UdevState
begin

text \<open>
  The parts of the fake libudev, \<open>src/src/libudev_fake.c\<close>, that talk to the bridge: connecting, asking for
  the descriptor when an application scans for devices, and the monitor that hands out hotplug messages.
  Sockets are those of \<open>Kernel\<close>; they stay blocking, so a \<open>recv\<close> with \<open>MSG_WAITALL\<close> for which nothing comes
  does not return (\<open>Inl Blocks\<close>).
\<close>

section \<open>Asking the bridge\<close>

definition connect_bridge :: "env \<Rightarrow> u16 \<Rightarrow> kernel \<Rightarrow> int \<times> kernel" where
  "connect_bridge env command k =
     (if \<not> udev_backend_enabled env then (-1, k)
      else
        (let path = default_path env None in
         if 108 \<le> tg_strlen (Some path) then (-1, k)
         else case k_socket k of
           (Inl e, k1) \<Rightarrow> (-1, k1)
         | (Inr f, k1) \<Rightarrow>
             (case k_connect f (cstr (tg_copy (replicate 108 0) (Some path) 108)) k1 of
                (Some e, k2) \<Rightarrow> (-1, k_close f k2)
              | (None, k2) \<Rightarrow>
                  (case k_send f (enc_control (control_message command 0 0 0)) k2 of
                     (Wrote n, k3) \<Rightarrow> if n \<noteq> 16 then (-1, k_close f k3) else (f, k3)
                   | (_, k3) \<Rightarrow> (-1, k_close f k3)))))"

definition refresh_descriptor :: "env \<Rightarrow> udev \<Rightarrow> kernel \<Rightarrow> fault + (int \<times> udev \<times> kernel)" where
  "refresh_descriptor env u k =
     (case connect_bridge env TG_CONTROL_QUERY_DESCRIPTOR k of
        (f, k1) \<Rightarrow>
          if f < 0 then Inr (-1, u, k1)
          else bindr (on_sock f [] (recv_waitall 88 []) k1)
            (\<lambda>(buf, k2).
               let descriptor = dec_descriptor buf in
               if length buf \<noteq> 88 \<or> dd_magic descriptor \<noteq> TG_DEVICE_MAGIC \<or>
                  dd_version descriptor \<noteq> TG_CONTROL_VERSION
               then Inr (-1, u, k_close f k2)
               else Inr (if dd_present descriptor \<noteq> 0 then 0 else -1,
                         update_descriptor env descriptor u, k_close f k2)))"

definition udev_enumerate_scan_devices ::
  "env \<Rightarrow> bool \<Rightarrow> udev \<Rightarrow> kernel \<Rightarrow> fault + (int \<times> udev \<times> kernel)" where
  "udev_enumerate_scan_devices env e u k =
     (if \<not> e then Inr (-1, u, k)
      else if \<not> udev_backend_enabled env then
        Inr (0, u\<lparr>g_descriptor := (g_descriptor u)\<lparr>dd_present := 0\<rparr>\<rparr>, k)
      else bindr (refresh_descriptor env u k) (\<lambda>(r, u', k'). Inr (0, u', k')))"

section \<open>The monitor\<close>

definition udev_monitor_new_from_netlink :: "env \<Rightarrow> udev \<Rightarrow> kernel \<Rightarrow> bool \<times> udev \<times> kernel" where
  "udev_monitor_new_from_netlink env u k =
     (if \<not> udev_backend_enabled env then (False, u, k)
      else case connect_bridge env TG_CONTROL_MONITOR k of
        (f, k1) \<Rightarrow> (0 \<le> f, u\<lparr>g_monitor := \<lparr>um_refs = 1, um_pipefd0 = f, um_pipefd1 = -1\<rparr>\<rparr>, k1))"

definition udev_monitor_ref :: "bool \<Rightarrow> udev \<Rightarrow> bool \<times> udev" where
  "udev_monitor_ref m u =
     (m, if m then u\<lparr>g_monitor := (g_monitor u)\<lparr>um_refs := um_refs (g_monitor u) + 1\<rparr>\<rparr> else u)"

definition udev_monitor_filter_add_match_subsystem_devtype ::
  "bool \<Rightarrow> cstring option \<Rightarrow> cstring option \<Rightarrow> int" where
  "udev_monitor_filter_add_match_subsystem_devtype m s t = 0"

definition udev_monitor_enable_receiving :: "env \<Rightarrow> bool \<Rightarrow> int" where
  "udev_monitor_enable_receiving env m = (if \<not> udev_backend_enabled env then -1 else if m then 0 else -1)"

definition udev_monitor_get_fd :: "env \<Rightarrow> bool \<Rightarrow> udev \<Rightarrow> int" where
  "udev_monitor_get_fd env m u =
     (if \<not> udev_backend_enabled env then -1 else if m then um_pipefd0 (g_monitor u) else -1)"

definition udev_monitor_receive_device ::
  "env \<Rightarrow> bool \<Rightarrow> udev \<Rightarrow> kernel \<Rightarrow> fault + (device_ptr \<times> udev \<times> kernel)" where
  "udev_monitor_receive_device env m u k =
     (if \<not> udev_backend_enabled env then Inr (None, u, k)
      else if \<not> m \<or> um_pipefd0 (g_monitor u) < 0 then Inr (None, u, k)
      else bindr (on_sock (um_pipefd0 (g_monitor u)) [] (recv_waitall 96 []) k)
        (\<lambda>(buf, k1).
           let message = dec_hotplug buf in
           if length buf \<noteq> 96 \<or> hm_magic message \<noteq> TG_HOTPLUG_MAGIC \<or>
              hm_version message \<noteq> TG_CONTROL_VERSION
           then Inr (None, u, k1)
           else
             (let u1 = update_descriptor env (hm_descriptor message) u;
                  d = g_event_dev u1
              in Inr (Some FAKE_EVDEV,
                   u1\<lparr>g_event_dev := d\<lparr>ud_action := (if hm_action message = TG_HOTPLUG_REMOVE then 2 else 1),
                                        ud_refs := ud_refs d + 1\<rparr>\<rparr>, k1))))"

definition udev_monitor_unref :: "bool \<Rightarrow> udev \<Rightarrow> kernel \<Rightarrow> bool \<times> udev \<times> kernel" where
  "udev_monitor_unref m u k =
     (if \<not> m then (False, u, k)
      else
        (let mon = g_monitor u;
             (mon, k) = (if 0 \<le> um_pipefd0 mon then (mon\<lparr>um_pipefd0 := -1\<rparr>, k_close (um_pipefd0 mon) k) else (mon, k));
             (mon, k) = (if 0 \<le> um_pipefd1 mon then (mon\<lparr>um_pipefd1 := -1\<rparr>, k_close (um_pipefd1 mon) k) else (mon, k));
             mon = (if 0 < um_refs mon then mon\<lparr>um_refs := um_refs mon - 1\<rparr> else mon)
         in (False, u\<lparr>g_monitor := mon\<rparr>, k)))"

end
