(* ===== verification/UdevSystem.thy ===== *)
theory UdevSystem
  imports UdevCalls ShimInvariant
begin

text \<open>
  The fake libudev as a transition system: what its connections do to the descriptor table, the invariant
  \<open>udev_inv\<close> of its statics, and the steps an application can make. The state of the system says, beside
  the statics and the kernel, whether the application has ever been given the monitor.
\<close>

section \<open>Hexadecimal ids\<close>

definition hex_digit :: "u32 \<Rightarrow> byte" where
  "hex_digit v = digits ! unat (v AND 15)"

definition hex4 :: "u32 \<Rightarrow> cstring" where
  "hex4 v = map (\<lambda>i. hex_digit (drop_bit (4 * i) v)) [3, 2, 1, 0]"

lemma length_format_hex4 [simp]: "length (format_hex4 out v) = length out"
proof -
  have "length (hex_loop n v out) = length out" for n
    by (induction n arbitrary: v out) simp_all
  then show ?thesis by (simp add: format_hex4_def)
qed

lemma format_hex4_eq:
  assumes "length out = 5"
  shows "format_hex4 out v = hex4 v @ [0]"
proof -
  obtain a b c d e where out: "out = [a, b, c, d, e]"
    using assms by (auto simp: length_Suc_conv eval_nat_numeral)
  show ?thesis
    by (simp add: format_hex4_def out hex4_def hex_digit_def eval_nat_numeral drop_bit_drop_bit flip: drop_bit_Suc)
qed

text \<open>Reading such a text back, as applications do.\<close>

definition hex_value :: "byte \<Rightarrow> nat" where
  "hex_value c = (if 97 \<le> unat c then unat c - 87 else unat c - 48)"

definition parse_hex :: "cstring \<Rightarrow> nat" where
  "parse_hex s = foldl (\<lambda>n c. 16 * n + hex_value c) 0 (cstr s)"

lemma digits_facts:
  assumes "i < 16"
  shows "hex_value (digits ! i) = i" "digits ! i \<noteq> 0"
proof -
  have "\<forall>i \<in> set [0..<16]. hex_value (digits ! i) = i \<and> digits ! i \<noteq> 0" by code_simp
  then show "hex_value (digits ! i) = i" "digits ! i \<noteq> 0" using assms by auto
qed

lemma hex_and: "unat (v AND 15) = unat v mod 16"
proof -
  have "v AND 15 = take_bit 4 v" by (simp add: take_bit_eq_mask mask_eq_exp_minus_1)
  then show ?thesis by (simp only: unsigned_take_bit_eq) (simp add: take_bit_eq_mod)
qed

lemma hex_digit_facts: "hex_value (hex_digit v) = unat v mod 16" "hex_digit v \<noteq> 0"
proof -
  have "unat (v AND 15) = unat v mod 16"
    by (simp add: hex_and)
  then show "hex_value (hex_digit v) = unat v mod 16" "hex_digit v \<noteq> 0"
    using digits_facts [of "unat v mod 16"] by (simp_all add: hex_digit_def)
qed

lemma cstr_hex4: "cstr (hex4 v @ r) = hex4 v @ cstr r"
  by (simp add: hex4_def hex_digit_facts)

lemma hex_arith: "(n::nat) mod 65536 = 16 * (16 * (16 * (n div 4096 mod 16) + n div 256 mod 16) + n div 16 mod 16) + n mod 16"
  using mod_mult2_eq [of n 16 4096] mod_mult2_eq [of "n div 16" 16 256] mod_mult2_eq [of "n div 256" 16 16]
  by (simp add: div_mult2_eq [symmetric])

lemma parse_hex4: "parse_hex (hex4 v @ [0]) = unat v mod 65536"
proof -
  have d: "unat (drop_bit n v) = unat v div 2 ^ n" for n
    by (simp only: unat_drop_bit_eq drop_bit_eq_div [of n "unat v"])
  show ?thesis
    unfolding parse_hex_def cstr_hex4 hex_arith by (simp add: hex4_def hex_digit_facts d)
qed

section \<open>Connections\<close>

lemma connect_bridge_cases:
  assumes "connect_bridge env c k = (f, k')"
  shows "(f = -1 \<and> k_lookup k' = k_lookup k) \<or>
    (udev_backend_enabled env \<and> 0 \<le> f \<and> k_lookup k f = None \<and>
     (\<exists>s0 s. dial k (dialled k) = Connects s0 \<and> k_lookup k' = (k_lookup k)(f \<mapsto> s) \<and> rx s = rx s0 \<and>
        peer s = cstr (default_path env None) \<and> sent s = enc_control (control_message c 0 0 0)))"
proof -
  let ?path = "default_path env None"
  show ?thesis
  proof (cases "udev_backend_enabled env \<and> \<not> 108 \<le> tg_strlen (Some ?path)")
    case False
    then show ?thesis using assms by (auto simp: connect_bridge_def split: if_splits)
  next
    case True
    then have en: "udev_backend_enabled env" and short: "\<not> 108 \<le> tg_strlen (Some ?path)" by simp_all
    have path: "cstr (tg_copy (replicate 108 0) (Some ?path) 108) = cstr ?path"
      using short by (simp add: tg_copy_cstr tg_strlen_def strlen_from_cstr)
    obtain r1 k1 where so: "k_socket k = (r1, k1)" by fastforce
    show ?thesis
    proof (cases r1)
      case (Inl e)
      then show ?thesis using assms True k_socket_Inl [of k e k1] so by (simp add: connect_bridge_def)
    next
      case (Inr g)
      note sk = k_socket_Inr [OF so [unfolded Inr]]
      have d1: "dial k1 = dial k" "dialled k1 = dialled k"
        using so Inr by (auto simp: k_socket_def Let_def split: attempt.splits prod.splits)
      obtain e k2 where co: "k_connect g (cstr ?path) k1 = (e, k2)" by fastforce
      have restored: "(k_lookup k4)(g := None) = k_lookup k"
        if "\<And>h. h \<noteq> g \<Longrightarrow> k_lookup k4 h = k_lookup k h" for k4
        using that sk(2) by (intro ext) simp
      have o2: "k_lookup k2 h = k_lookup k h" if "h \<noteq> g" for h
        using k_connect_lookup [OF co] sk(3) that by (auto split: option.splits)
      show ?thesis
      proof (cases e)
        case (Some x)
        then show ?thesis using assms en short so Inr path co restored [OF o2] by (auto simp: connect_bridge_def)
      next
        case None
        then obtain s0 where s0: "dial k (dialled k) = Connects s0"
          and k2: "k_lookup k2 g = Some (s0\<lparr>peer := cstr ?path, sent := [], nonblock := False, cloexec := True\<rparr>)"
          using co d1 sk(3) by (auto simp: k_connect_def Let_def fdt.update_lookup split: attempt.splits)
        let ?msg = "enc_control (control_message c 0 0 0)"
        obtain a k3 where se: "k_send g ?msg k2 = (a, k3)" by fastforce
        have o3: "k_lookup k3 h = k_lookup k h" if "h \<noteq> g" for h
          using k_send_lookup(1) [OF se that] o2 that by simp
        consider (ok) "a = Wrote 16" | (bad) "f = -1" "k' = k_close g k3"
          using assms en short so Inr path co None se
          by (cases a) (auto simp: connect_bridge_def split: if_splits)
        then show ?thesis
        proof cases
          case bad
          then show ?thesis using restored [OF o3] by simp
        next
          case ok
          have len: "length ?msg = 16" by (rule ctl.length_enc) simp
          obtain s3 where s3: "sock_send ?msg (s0\<lparr>peer := cstr ?path, sent := [], nonblock := False, cloexec := True\<rparr>) = (Wrote 16, s3)"
            and k3: "k_lookup k3 g = Some s3"
            using se ok k2 by (auto simp: k_send_def fdt.update_lookup split: prod.splits)
          have "f = g" "k' = k3"
            using assms en short so Inr path co None se ok by (auto simp: connect_bridge_def)
          moreover have "k_lookup k3 = (k_lookup k)(g \<mapsto> s3)" using o3 k3 by (intro ext) simp
          ultimately show ?thesis
            using en sk(1,2) s0 sock_send_Wrote [OF s3] sock_send_frame [OF s3] len
            by simp (rule exI [of _ s3], simp add: fun_upd_def)
        qed
      qed
    qed
  qed
qed

text \<open>The converse: a bridge that accepts the connection and the message is reached.\<close>

lemma connect_bridge_works:
  assumes "udev_backend_enabled env" "length (cstr (default_path env None)) < 108"
    and "dial k (dialled k) = Connects s0" "tx s0 = []"
  shows "\<exists>f s k'. connect_bridge env c k = (f, k') \<and> 0 \<le> f \<and> k_lookup k f = None \<and>
    k_lookup k' = (k_lookup k)(f \<mapsto> s) \<and> rx s = rx s0"
proof -
  let ?path = "default_path env None" and ?msg = "enc_control (control_message c 0 0 0)"
  have path: "cstr (tg_copy (replicate 108 0) (Some ?path) 108) = cstr ?path"
    using assms(2) by (simp add: tg_copy_cstr)
  obtain g k1 where so: "k_socket k = (Inr g, k1)"
    using assms(3) by (cases "fd_alloc (blank_sock\<lparr>cloexec := True\<rparr>) (fds k)") (simp add: k_socket_def)
  note sk = k_socket_Inr [OF so]
  have d1: "dial k1 (dialled k1) = Connects s0"
    using so assms(3) by (auto simp: k_socket_def Let_def split: attempt.splits prod.splits)
  let ?s = "s0\<lparr>peer := cstr ?path, sent := [], nonblock := False, cloexec := True\<rparr>"
  obtain k2 where co: "k_connect g (cstr ?path) k1 = (None, k2)" and k2: "k_lookup k2 g = Some ?s"
    using d1 sk(3) by (simp add: k_connect_def Let_def fdt.update_lookup)
  have len: "length ?msg = 16" by (rule ctl.length_enc) simp
  obtain k3 where se: "k_send g ?msg k2 = (Wrote 16, k3)" and k3: "k_lookup k3 g = Some (?s\<lparr>sent := ?msg\<rparr>)"
    using k2 len assms(4) by (simp add: k_send_def sock_send_def fdt.update_lookup)
  have cb: "connect_bridge env c k = (g, k3)"
    using assms(1,2) so path co se by (simp add: connect_bridge_def tg_strlen_def strlen_from_cstr)
  have "k_lookup k3 h = k_lookup k h" if "h \<noteq> g" for h
    using k_send_lookup(1) [OF se that] k_connect_lookup [OF co] sk(3) that by auto
  then have "k_lookup k3 = (k_lookup k)(g \<mapsto> ?s\<lparr>sent := ?msg\<rparr>)" using k3 by (intro ext) simp
  then show ?thesis using cb sk(1,2) by auto
qed

lemma dial_connect_bridge:
  assumes "connect_bridge env c k = (f, k')"
  shows "dial k' = dial k"
  using assms
  by (auto simp: connect_bridge_def k_socket_def k_connect_def k_send_def k_close_def Let_def
      split: if_splits sum.splits option.splits send_ans.splits attempt.splits prod.splits)

text \<open>A blocking receive gets its bytes whatever pieces they come in.\<close>

lemma recv_waitall_stream:
  assumes "rx s = map Data cs @ r" "[] \<notin> set cs" "length got \<le> n" "n \<le> length got + length (concat cs)"
  shows "\<exists>s'. recv_waitall n got s = Inr (got @ take (n - length got) (concat cs), s') \<and>
    (\<exists>cs'. rx s' = map Data cs' @ r \<and> [] \<notin> set cs' \<and> concat cs' = drop (n - length got) (concat cs))"
  using assms
proof (induction cs arbitrary: got s)
  case Nil
  have "recv_waitall (length got) got s = Inr (got, s)" by (simp add: recv_waitall.simps [of "length got"])
  then show ?case using Nil by (intro exI [of _ s]) auto
next
  case (Cons c cs)
  show ?case
  proof (cases "n \<le> length got")
    case True
    then have "recv_waitall n got s = Inr (got, s)" by (simp add: recv_waitall.simps [of n])
    then show ?thesis using Cons.prems True by (intro exI [of _ s]) (auto intro!: exI [of _ "c # cs"])
  next
    case less: False
    show ?thesis
    proof (cases "length c \<le> n - length got")
      case True
      have "sock_recv (n - length got) s = (Some (Data c), s\<lparr>rx := map Data cs @ r\<rparr>)"
        using Cons.prems(1) True by (simp add: sock_recv_def)
      then have step: "recv_waitall n got s = recv_waitall n (got @ c) (s\<lparr>rx := map Data cs @ r\<rparr>)"
        using less Cons.prems(2) by (auto simp: recv_waitall.simps [of n got s])
      show ?thesis
        using Cons.IH [of "s\<lparr>rx := map Data cs @ r\<rparr>" "got @ c"] Cons.prems True less by (auto simp: step)
    next
      case False
      let ?m = "n - length got"
      let ?s = "s\<lparr>rx := Data (drop ?m c) # map Data cs @ r\<rparr>"
      have "sock_recv ?m s = (Some (Data (take ?m c)), ?s)"
        using Cons.prems(1) False by (simp add: sock_recv_def)
      moreover have "take ?m c \<noteq> []" using less Cons.prems(2) False by auto
      ultimately have "recv_waitall n got s = recv_waitall n (got @ take ?m c) ?s"
        using less by (simp add: recv_waitall.simps [of n got s])
      moreover have "recv_waitall n (got @ take ?m c) ?s = Inr (got @ take ?m c, ?s)"
        using less False by (simp add: recv_waitall.simps [of n "got @ take ?m c"])
      ultimately show ?thesis using False Cons.prems(2)
        by (intro exI [of _ ?s]) (auto intro!: exI [of _ "drop ?m c # cs"])
    qed
  qed
qed

lemma on_sock_stream:
  assumes "k_lookup k f = Some s" "rx s = map Data cs @ r" "[] \<notin> set cs" "n \<le> length (concat cs)"
  shows "\<exists>k' s'. on_sock f [] (recv_waitall n []) k = Inr (take n (concat cs), k') \<and>
    k_lookup k' = (k_lookup k)(f \<mapsto> s') \<and>
    (\<exists>cs'. rx s' = map Data cs' @ r \<and> [] \<notin> set cs' \<and> concat cs' = drop n (concat cs))"
proof -
  obtain s' cs' where r: "recv_waitall n [] s = Inr (take n (concat cs), s')"
    and s': "rx s' = map Data cs' @ r" "[] \<notin> set cs'" "concat cs' = drop n (concat cs)"
    using recv_waitall_stream [of s cs r "[]" n] assms by auto
  let ?k = "k\<lparr>fds := fd_update f s' (fds k)\<rparr>"
  have "on_sock f [] (recv_waitall n []) k = Inr (take n (concat cs), ?k)"
    using assms(1) r by (simp add: on_sock_def)
  moreover have "k_lookup ?k = (k_lookup k)(f \<mapsto> s')" using assms(1) by (intro ext) (simp add: fdt.update_lookup)
  ultimately show ?thesis using s' by blast
qed

text \<open>What a scan does: nothing at all when the bridge does not answer with a descriptor.\<close>

lemma refresh_descriptor_cases:
  assumes "refresh_descriptor env u k = Inr (r, u', k')"
  shows "k_lookup k' = k_lookup k \<and>
    (r = -1 \<and> u' = u \<or>
     (\<exists>s0 b rest. dial k (dialled k) = Connects s0 \<and> pending (rx s0) = b @ rest \<and> length b = 88 \<and>
        dd_magic (dec_descriptor b) = TG_DEVICE_MAGIC \<and> dd_version (dec_descriptor b) = TG_CONTROL_VERSION \<and>
        udev_backend_enabled env \<and> u' = update_descriptor env (dec_descriptor b) u))"
proof -
  obtain f k1 where cb: "connect_bridge env TG_CONTROL_QUERY_DESCRIPTOR k = (f, k1)" by fastforce
  from connect_bridge_cases [OF cb] show ?thesis
  proof (elim disjE conjE exE)
    assume "f = -1" "k_lookup k1 = k_lookup k"
    then show ?thesis using assms cb by (simp add: refresh_descriptor_def)
  next
    fix s0 s
    assume f: "udev_backend_enabled env" "0 \<le> f" "k_lookup k f = None" "dial k (dialled k) = Connects s0"
      "k_lookup k1 = (k_lookup k)(f \<mapsto> s)" "rx s = rx s0"
    obtain buf k2 where rc: "on_sock f [] (recv_waitall 88 []) k1 = Inr (buf, k2)"
      using assms cb f(2) by (auto simp: refresh_descriptor_def bindr_eq_Inr)
    have o: "k_lookup (k_close f k2) = k_lookup k"
      using on_sock_lookup(1) [OF rc] f(3,5) by (intro ext) simp
    have k': "k' = k_close f k2" using assms cb f(2) rc by (auto simp: refresh_descriptor_def Let_def split: if_splits)
    have "k_lookup k1 f = Some s" using f(5) by simp
    from recv_waitall_fd [OF rc this] obtain s' :: sock where "length buf = 88 \<longrightarrow> pending (rx s) = buf @ pending (rx s')"
      by blast
    then have s': "length buf = 88 \<longrightarrow> pending (rx s0) = buf @ pending (rx s')" using f(6) by simp
    consider "r = -1" "u' = u" | "length buf = 88" "dd_magic (dec_descriptor buf) = TG_DEVICE_MAGIC"
      "dd_version (dec_descriptor buf) = TG_CONTROL_VERSION" "u' = update_descriptor env (dec_descriptor buf) u"
      using assms cb f(2) rc by (auto simp: refresh_descriptor_def Let_def split: if_splits)
    then show ?thesis using o k' f(1,4) s' by cases auto
  qed
qed

section \<open>The invariant\<close>

definition devices_ok :: "udev \<Rightarrow> bool" where
  "devices_ok u \<longleftrightarrow>
     ud_kind (g_event_dev u) = FAKE_EVDEV \<and> ud_kind (g_joy_dev u) = FAKE_JOYDEV \<and>
     ud_kind (g_parent_dev u) = FAKE_PARENT \<and> ud_action (g_joy_dev u) = 0 \<and> ud_action (g_parent_dev u) = 0 \<and>
     ud_action (g_event_dev u) \<in> {0, 1, 2}"

definition refs_ok :: "udev \<Rightarrow> bool" where
  "refs_ok u \<longleftrightarrow>
     0 \<le> g_udev_refs u \<and> 0 \<le> ud_refs (g_event_dev u) \<and> 0 \<le> ud_refs (g_joy_dev u) \<and>
     0 \<le> ud_refs (g_parent_dev u) \<and> 0 \<le> ue_refs (g_enum u) \<and> 0 \<le> um_refs (g_monitor u)"

text \<open>The ids an application reads as text are those of the descriptor.\<close>

definition ids_ok :: "udev \<Rightarrow> bool" where
  "ids_ok u \<longleftrightarrow>
     wf_descriptor (g_descriptor u) \<and>
     vendor_string u = hex4 (dd_vendor_id (g_descriptor u)) @ [0] \<and>
     product_string u = hex4 (dd_product_id (g_descriptor u)) @ [0]"

text \<open>A monitor that was handed out has no descriptor or one that is open.\<close>

definition monitor_ok :: "bool \<Rightarrow> udev \<Rightarrow> kernel \<Rightarrow> bool" where
  "monitor_ok held u k \<longleftrightarrow>
     (held \<longrightarrow> um_pipefd1 (g_monitor u) = -1 \<and>
        (um_pipefd0 (g_monitor u) = -1 \<or>
         0 \<le> um_pipefd0 (g_monitor u) \<and> k_lookup k (um_pipefd0 (g_monitor u)) \<noteq> None))"

definition udev_inv :: "bool \<Rightarrow> udev \<Rightarrow> kernel \<Rightarrow> bool" where
  "udev_inv held u k \<longleftrightarrow> devices_ok u \<and> refs_ok u \<and> ids_ok u \<and> monitor_ok held u k"

lemmas udev_inv_defs = udev_inv_def devices_ok_def refs_ok_def ids_ok_def monitor_ok_def

lemma udev_loaded_inv: "udev_inv False udev_loaded k"
proof -
  have "hex4 0 @ [0] = lit ''0000'' @ [0]" by code_simp
  then show ?thesis by (simp add: udev_inv_defs udev_loaded_def zero_descriptor_def wf_descriptor_def)
qed

lemma the_device_kind: "devices_ok u \<Longrightarrow> ud_kind (the_device u p) = p"
  by (cases p) (simp_all add: devices_ok_def)

lemma length_hex4 [simp]: "length (hex4 v) = 4"
  by (simp add: hex4_def)

lemma update_descriptor_inv:
  assumes "udev_inv held u k" "wf_descriptor d"
  shows "udev_inv held (update_descriptor env d u) k"
proof -
  have "length (vendor_string u) = 5" "length (product_string u) = 5"
    using assms(1) by (simp_all add: udev_inv_def ids_ok_def)
  then show ?thesis
    using assms by (auto simp: update_descriptor_def udev_inv_defs format_hex4_eq wf_descriptor_def)
qed

lemma device_refs_inv:
  assumes "udev_inv held u k"
  shows "udev_inv held (map_device (\<lambda>v. v\<lparr>ud_refs := ud_refs v + 1\<rparr>) p u) k"
    and "0 < ud_refs (the_device u p) \<Longrightarrow> udev_inv held (map_device (\<lambda>v. v\<lparr>ud_refs := ud_refs v - 1\<rparr>) p u) k"
  using assms by (cases p; auto simp: udev_inv_defs)+

lemma counter_inv:
  assumes "udev_inv held u k"
  shows "0 \<le> n \<Longrightarrow> udev_inv held (u\<lparr>g_udev_refs := n\<rparr>) k"
    and "0 \<le> ue_refs e \<Longrightarrow> udev_inv held (u\<lparr>g_enum := e\<rparr>) k"
    and "0 \<le> n \<Longrightarrow> udev_inv held (u\<lparr>g_monitor := (g_monitor u)\<lparr>um_refs := n\<rparr>\<rparr>) k"
    and "0 \<le> g_udev_refs u" "0 \<le> ue_refs (g_enum u)" "0 \<le> um_refs (g_monitor u)"
  using assms by (simp_all add: udev_inv_defs)

section \<open>Steps\<close>

text \<open>
  A call of the library that returns, with any arguments the application can have, or the world moving
  without closing the monitor's descriptor. The environment may be different at every call.
\<close>

inductive udev_step :: "udev \<times> kernel \<times> bool \<Rightarrow> udev \<times> kernel \<times> bool \<Rightarrow> bool" where
  step_new: "udev_new u = (r, u') \<Longrightarrow> udev_step (u, k, held) (u', k, held)"
| step_ref: "udev_ref p u = (r, u') \<Longrightarrow> udev_step (u, k, held) (u', k, held)"
| step_unref: "udev_unref p u = (r, u') \<Longrightarrow> udev_step (u, k, held) (u', k, held)"
| step_syspath: "udev_device_new_from_syspath env path u = (d, u') \<Longrightarrow> udev_step (u, k, held) (u', k, held)"
| step_devnum: "udev_device_new_from_devnum env ty n u = (d, u') \<Longrightarrow> udev_step (u, k, held) (u', k, held)"
| step_device_ref: "udev_device_ref d u = (d', u') \<Longrightarrow> udev_step (u, k, held) (u', k, held)"
| step_device_unref: "udev_device_unref d u = (d', u') \<Longrightarrow> udev_step (u, k, held) (u', k, held)"
| step_enumerate: "udev_enumerate_new u = (r, u') \<Longrightarrow> udev_step (u, k, held) (u', k, held)"
| step_enumerate_ref: "udev_enumerate_ref e u = (r, u') \<Longrightarrow> udev_step (u, k, held) (u', k, held)"
| step_enumerate_unref: "udev_enumerate_unref e u = (r, u') \<Longrightarrow> udev_step (u, k, held) (u', k, held)"
| step_match_subsystem: "udev_enumerate_add_match_subsystem e s u = (i, u') \<Longrightarrow> udev_step (u, k, held) (u', k, held)"
| step_match_property: "udev_enumerate_add_match_property e key v u = (i, u') \<Longrightarrow> udev_step (u, k, held) (u', k, held)"
| step_scan: "udev_enumerate_scan_devices env e u k = Inr (i, u', k') \<Longrightarrow> udev_step (u, k, held) (u', k', held)"
| step_monitor: "udev_monitor_new_from_netlink env u k = (r, u', k') \<Longrightarrow> udev_step (u, k, held) (u', k', held \<or> r)"
| step_monitor_ref: "m \<longrightarrow> held \<Longrightarrow> udev_monitor_ref m u = (r, u') \<Longrightarrow> udev_step (u, k, held) (u', k, held)"
| step_monitor_unref: "m \<longrightarrow> held \<Longrightarrow> udev_monitor_unref m u k = (r, u', k') \<Longrightarrow> udev_step (u, k, held) (u', k', held)"
| step_receive: "m \<longrightarrow> held \<Longrightarrow> udev_monitor_receive_device env m u k = Inr (d, u', k') \<Longrightarrow> udev_step (u, k, held) (u', k', held)"
| step_world: "(k_lookup k (um_pipefd0 (g_monitor u)) \<noteq> None \<Longrightarrow> k_lookup k' (um_pipefd0 (g_monitor u)) \<noteq> None) \<Longrightarrow>
    udev_step (u, k, held) (u, k', held)"

inductive_cases udev_stepE: "udev_step (u, k, held) t"

lemma scan_inv:
  assumes "udev_inv held u k" "udev_enumerate_scan_devices env e u k = Inr (i, u', k')"
  shows "udev_inv held u' k'"
proof (cases "e \<and> udev_backend_enabled env")
  case True
  then obtain r where rf: "refresh_descriptor env u k = Inr (r, u', k')"
    using assms(2) by (auto simp: udev_enumerate_scan_devices_def bindr_eq_Inr)
  have "udev_inv held u k'" using assms(1) refresh_descriptor_cases [OF rf] by (auto simp: udev_inv_def monitor_ok_def)
  then show ?thesis
    using refresh_descriptor_cases [OF rf] update_descriptor_inv [of held u k'] wf_dec_descriptor by blast
next
  case False
  then have "k' = k" "u' = u \<or> u' = u\<lparr>g_descriptor := (g_descriptor u)\<lparr>dd_present := 0\<rparr>\<rparr>"
    using assms(2) by (auto simp: udev_enumerate_scan_devices_def split: if_splits)
  then show ?thesis using assms(1) by (auto simp: udev_inv_defs wf_descriptor_def)
qed

lemma monitor_new_inv:
  assumes "udev_inv held u k" "udev_monitor_new_from_netlink env u k = (r, u', k')"
  shows "udev_inv (held \<or> r) u' k'"
proof (cases "udev_backend_enabled env")
  case True
  obtain f k1 where cb: "connect_bridge env TG_CONTROL_MONITOR k = (f, k1)" by fastforce
  then have "r = (0 \<le> f)" "k' = k1" "u' = u\<lparr>g_monitor := \<lparr>um_refs = 1, um_pipefd0 = f, um_pipefd1 = -1\<rparr>\<rparr>"
    using assms(2) True by (auto simp: udev_monitor_new_from_netlink_def)
  moreover have "f = -1 \<or> 0 \<le> f \<and> k_lookup k1 f \<noteq> None" using connect_bridge_cases [OF cb] by auto
  ultimately show ?thesis using assms(1) by (auto simp: udev_inv_defs)
next
  case False
  then show ?thesis using assms by (simp add: udev_monitor_new_from_netlink_def)
qed

lemma receive_inv:
  assumes "udev_inv held u k" "udev_monitor_receive_device env m u k = Inr (d, u', k')"
  shows "udev_inv held u' k'"
proof (cases "udev_backend_enabled env \<and> m \<and> 0 \<le> um_pipefd0 (g_monitor u)")
  case True
  then obtain buf where rc: "on_sock (um_pipefd0 (g_monitor u)) [] (recv_waitall 96 []) k = Inr (buf, k')"
    and r: "(d = None \<and> u' = u) \<or> length buf = 96 \<and> (\<exists>a n. a \<in> {1, 2} \<and>
      u' = (let u1 = update_descriptor env (hm_descriptor (dec_hotplug buf)) u
            in u1\<lparr>g_event_dev := (g_event_dev u1)\<lparr>ud_action := a, ud_refs := ud_refs (g_event_dev u1) + 1\<rparr>\<rparr>))"
    using assms(2) by (auto simp: udev_monitor_receive_device_def bindr_eq_Inr Let_def split: if_splits)
  have i: "udev_inv held u k'" using assms(1) on_sock_lookup(2) [OF rc] by (simp add: udev_inv_def monitor_ok_def)
  from r show ?thesis
  proof (elim disjE conjE exE)
    assume "u' = u" then show ?thesis using i by simp
  next
    fix a
    let ?u = "update_descriptor env (hm_descriptor (dec_hotplug buf)) u"
    assume len: "length buf = 96" and a: "a \<in> {1, 2}" and u': "u' = (let u1 = ?u
            in u1\<lparr>g_event_dev := (g_event_dev u1)\<lparr>ud_action := a, ud_refs := ud_refs (g_event_dev u1) + 1\<rparr>\<rparr>)"
    have "wf_descriptor (hm_descriptor (dec_hotplug buf))"
      using len hot.wf_dec [of buf] by (simp add: wf_hotplug_def)
    then have "udev_inv held ?u k'" by (rule update_descriptor_inv [OF i])
    then show ?thesis using a by (auto simp: u' Let_def udev_inv_defs)
  qed
next
  case False
  then have "u' = u" "k' = k" using assms(2) by (auto simp: udev_monitor_receive_device_def split: if_splits)
  then show ?thesis using assms(1) by simp
qed

lemma monitor_unref_inv:
  assumes "udev_inv held u k" "m \<longrightarrow> held" "udev_monitor_unref m u k = (r, u', k')"
  shows "udev_inv held u' k'"
  using assms by (auto simp: udev_monitor_unref_def udev_inv_defs Let_def split: if_splits)

lemma udev_step_inv:
  assumes "udev_step (u, k, held) (u', k', held')" "udev_inv held u k"
  shows "udev_inv held' u' k'"
  using assms(1)
proof cases
  case (step_scan env e i)
  then show ?thesis using scan_inv assms(2) by blast
next
  case (step_monitor env r)
  then show ?thesis using monitor_new_inv assms(2) by blast
next
  case (step_receive m env d)
  then show ?thesis using receive_inv assms(2) by blast
next
  case (step_monitor_unref m r)
  then show ?thesis using monitor_unref_inv assms(2) by blast
next
  case step_world
  then show ?thesis using assms(2) by (auto simp: udev_inv_def monitor_ok_def)
next
  case (step_device_ref d d')
  then show ?thesis using assms(2) device_refs_inv(1) [OF assms(2)] by (auto simp: udev_device_ref_def split: option.splits)
next
  case (step_device_unref d d')
  then show ?thesis using assms(2) device_refs_inv(2) [OF assms(2)]
    by (auto simp: udev_device_unref_def split: option.splits if_splits)
next
  case (step_syspath env path d)
  then show ?thesis using assms(2) device_refs_inv(1) [OF assms(2)]
    by (auto simp: udev_device_new_from_syspath_def split: option.splits if_splits)
next
  case (step_devnum env ty n d)
  then show ?thesis using assms(2) device_refs_inv(1) [OF assms(2), of FAKE_EVDEV]
    by (auto simp: udev_device_new_from_devnum_def split: if_splits)
qed (use assms(2) counter_inv [OF assms(2)] in \<open>auto simp: udev_new_def udev_ref_def udev_unref_def udev_enumerate_new_def
    udev_enumerate_ref_def udev_enumerate_unref_def udev_enumerate_add_match_subsystem_def
    udev_enumerate_add_match_property_def udev_monitor_ref_def split: if_splits\<close>)

text \<open>The interface of \<open>Prelude\<close>, provided by the library's statics.\<close>

interpretation udev_ts: transition_system "\<lambda>(u, k, held). u = udev_loaded \<and> \<not> held" udev_step
    "\<lambda>(u, k, held). udev_inv held u k"
  by unfold_locales (auto simp: udev_loaded_inv intro: udev_step_inv)

end
