(* ===== verification/UdevProps.thy ===== *)
theory UdevProps
  imports UdevSystem
begin

text \<open>
  The properties of the fake libudev (\<open>src/src/libudev_fake.c\<close>): its statics stay consistent, a scan shows
  what the bridge answers, hotplug messages reach the application, the identity it reports is the one the
  shim reports, and the nodes it names are the shim's.
\<close>

section \<open>Scanning\<close>

lemma scan_answered:
  assumes "udev_backend_enabled env" "length (cstr (default_path env None)) < 108"
    and "dial k (dialled k) = Connects s0" "tx s0 = []" "rx s0 = map Data cs @ r" "[] \<notin> set cs"
    and "concat cs = enc_descriptor d @ rest" "wf_descriptor d" "dd_magic d = TG_DEVICE_MAGIC"
    and "dd_version d = TG_CONTROL_VERSION"
  shows "\<exists>k'. udev_enumerate_scan_devices env True u k = Inr (0, update_descriptor env d u, k') \<and>
    k_lookup k' = k_lookup k"
proof -
  obtain f s k1 where cb: "connect_bridge env TG_CONTROL_QUERY_DESCRIPTOR k = (f, k1)" "0 \<le> f" "k_lookup k f = None"
    "k_lookup k1 = (k_lookup k)(f \<mapsto> s)" "rx s = rx s0"
    using connect_bridge_works [OF assms(1-4), of TG_CONTROL_QUERY_DESCRIPTOR] by blast
  have len: "length (enc_descriptor d) = 88" using assms(8) by (rule dev.length_enc)
  obtain k2 s' where rc: "on_sock f [] (recv_waitall 88 []) k1 = Inr (enc_descriptor d, k2)"
    and k2: "k_lookup k2 = (k_lookup k1)(f \<mapsto> s')"
    using on_sock_stream [of k1 f s cs r 88] cb(4,5) assms(5-7) len by auto
  have "refresh_descriptor env u k = Inr (if dd_present d \<noteq> 0 then 0 else -1, update_descriptor env d u, k_close f k2)"
    using cb(1,2) rc len assms(8-10) by (simp add: refresh_descriptor_def Let_def dev.dec_enc)
  moreover have "(k_lookup k2)(f := None) = k_lookup k" using cb(3,4) k2 by (intro ext) simp
  ultimately show ?thesis using assms(1) by (simp add: udev_enumerate_scan_devices_def)
qed

text \<open>A bridge that answers with a descriptor, and an application without special environment.\<close>

definition ux_env :: env where
  "ux_env = (\<lambda>_. None)"

definition ux_descriptor :: tg_device_descriptor where
  "ux_descriptor = zero_descriptor\<lparr>dd_magic := TG_DEVICE_MAGIC, dd_version := TG_CONTROL_VERSION, dd_present := 1,
     dd_vendor_id := 0x45e, dd_product_id := 0x28e\<rparr>"

definition ux_kernel :: "bytes \<Rightarrow> kernel" where
  "ux_kernel bs = \<lparr>fds = [], dial = (\<lambda>_. Connects (blank_sock\<lparr>rx := [Data bs]\<rparr>)), dialled = 0\<rparr>"

lemma ux_enabled: "udev_backend_enabled ux_env" "length (cstr (default_path ux_env None)) < 108"
proof -
  show "udev_backend_enabled ux_env" by (simp add: udev_backend_enabled_def termux_gamepad_get_backend_def ux_env_def)
  have "length (cstr (default_path (\<lambda>_. None) None)) < 108" by code_simp
  then show "length (cstr (default_path ux_env None)) < 108" by (simp add: ux_env_def)
qed

lemma ux_descriptor_facts:
  "wf_descriptor ux_descriptor" "dd_magic ux_descriptor = TG_DEVICE_MAGIC"
  "dd_version ux_descriptor = TG_CONTROL_VERSION" "dd_present ux_descriptor = 1"
  by (simp_all add: ux_descriptor_def wf_descriptor_def zero_descriptor_def)

lemma ux_bytes: "enc_descriptor ux_descriptor \<noteq> []"
  using dev.length_enc [OF ux_descriptor_facts(1)] by auto

lemma ux_dial: "dial (ux_kernel bs) (dialled (ux_kernel bs)) = Connects (blank_sock\<lparr>rx := [Data bs]\<rparr>)"
  by (simp add: ux_kernel_def)

lemma ux_scan:
  "\<exists>k'. udev_enumerate_scan_devices ux_env True u (ux_kernel (enc_descriptor ux_descriptor)) =
     Inr (0, update_descriptor ux_env ux_descriptor u, k')"
  using scan_answered [OF ux_enabled ux_dial [of "enc_descriptor ux_descriptor"],
      where cs = "[enc_descriptor ux_descriptor]" and r = "[]" and d = ux_descriptor and rest = "[]"]
    ux_descriptor_facts ux_bytes by (auto simp: blank_sock_def)

text \<open>C31: A scan shows the application what the bridge answers. If the bridge takes the connection and sends its
  descriptor, in pieces of any size and with anything after it, the scan succeeds, takes over exactly this
  descriptor, gives its socket back, and the list of the enumeration has an entry if and only if the
  application asked for input devices and the bridge has a controller.\<close>

theorem scan_shows_bridge:
  assumes "udev_backend_enabled env" "length (cstr (default_path env None)) < 108"
    and "dial k (dialled k) = Connects s0" "tx s0 = []" "rx s0 = map Data cs @ r" "[] \<notin> set cs"
    and "concat cs = enc_descriptor d @ rest" "wf_descriptor d" "dd_magic d = TG_DEVICE_MAGIC"
    and "dd_version d = TG_CONTROL_VERSION"
  shows "\<exists>u' k'. udev_enumerate_scan_devices env True u k = Inr (0, u', k') \<and> k_lookup k' = k_lookup k \<and>
    g_descriptor u' = d \<and>
    udev_enumerate_get_list_entry env True u' = (ue_matched_input (g_enum u) \<noteq> 0 \<and> dd_present d \<noteq> 0)"
proof -
  obtain k' where k': "udev_enumerate_scan_devices env True u k = Inr (0, update_descriptor env d u, k')"
    "k_lookup k' = k_lookup k"
    using scan_answered [OF assms] by blast
  moreover have "g_descriptor (update_descriptor env d u) = d" "g_enum (update_descriptor env d u) = g_enum u"
    using assms(1) by (simp_all add: update_descriptor_def)
  ultimately show ?thesis
    using assms(1) unfolding udev_enumerate_get_list_entry_def by metis
qed

theorem scan_shows_bridge_witness:
  "\<exists>u' k'. udev_enumerate_scan_devices ux_env True (snd (udev_enumerate_add_match_subsystem True
       (Some (lit ''input'')) udev_loaded)) (ux_kernel (enc_descriptor ux_descriptor)) = Inr (0, u', k') \<and>
     g_descriptor u' = ux_descriptor \<and> udev_enumerate_get_list_entry ux_env True u'"
  using scan_shows_bridge [OF ux_enabled ux_dial [of "enc_descriptor ux_descriptor"],
      where cs = "[enc_descriptor ux_descriptor]" and r = "[]" and d = ux_descriptor and rest = "[]"
        and u = "snd (udev_enumerate_add_match_subsystem True (Some (lit ''input'')) udev_loaded)"]
    ux_descriptor_facts ux_bytes
  by (auto simp: blank_sock_def udev_enumerate_add_match_subsystem_def tg_streq_Some)

text \<open>A bridge that is gone goes unnoticed: the scan reports success and keeps the last descriptor, so the
  list still has the controller that was there before.\<close>

theorem scan_keeps_lost_device:
  assumes "\<forall>s. dial k (dialled k) \<noteq> Connects s" "udev_backend_enabled env"
  shows "\<exists>k'. udev_enumerate_scan_devices env True u k = Inr (0, u, k')"
proof -
  obtain f k1 where cb: "connect_bridge env TG_CONTROL_QUERY_DESCRIPTOR k = (f, k1)" by fastforce
  then have "f = -1" using connect_bridge_cases [OF cb] assms(1) by auto
  then show ?thesis using cb assms(2) by (simp add: udev_enumerate_scan_devices_def refresh_descriptor_def)
qed

section \<open>Consistency\<close>

text \<open>C28: Whatever an application calls, with whatever arguments and answers of the bridge, the statics of
  the library stay consistent: the three devices keep their kinds, no reference counter is negative, the
  descriptor is well-formed and the texts of the vendor and product ids denote the low 16 bits of its
  ids, and a monitor that was handed out holds no descriptor or an open one.\<close>

theorem udev_consistent:
  assumes "udev_step\<^sup>*\<^sup>* (udev_loaded, k0, False) (u, k, held)"
  shows "udev_inv held u k \<and>
    parse_hex (vendor_string u) = unat (dd_vendor_id (g_descriptor u)) mod 65536 \<and>
    parse_hex (product_string u) = unat (dd_product_id (g_descriptor u)) mod 65536"
proof -
  have "udev_inv held u k" using udev_ts.reachable_inv [of "(udev_loaded, k0, False)" "(u, k, held)"] assms by simp
  then show ?thesis by (simp add: udev_inv_def ids_ok_def parse_hex4)
qed

theorem udev_consistent_witness:
  "parse_hex (vendor_string (update_descriptor ux_env ux_descriptor udev_loaded)) = 0x45e"
proof -
  let ?k = "ux_kernel (enc_descriptor ux_descriptor)"
  obtain k' where "udev_enumerate_scan_devices ux_env True udev_loaded ?k =
      Inr (0, update_descriptor ux_env ux_descriptor udev_loaded, k')"
    using ux_scan by blast
  then have "udev_step (udev_loaded, ?k, False) (update_descriptor ux_env ux_descriptor udev_loaded, k', False)"
    by (rule step_scan)
  then have "udev_step\<^sup>*\<^sup>* (udev_loaded, ?k, False) (update_descriptor ux_env ux_descriptor udev_loaded, k', False)"
    by (rule r_into_rtranclp)
  from udev_consistent [OF this] show ?thesis
    using ux_enabled(1) by (simp add: update_descriptor_def ux_descriptor_def)
qed

section \<open>Hotplug messages\<close>

text \<open>C32: A hotplug message of the bridge reaches the application. If it is what comes next on the monitor's
  connection, in pieces of any size, one call takes exactly these 96 bytes, hands out the event device with
  the action of the message, and from then on the library reports the descriptor of the message: a later
  enumeration lists the controller if and only if the message says it is present.\<close>

theorem hotplug_received:
  assumes "udev_backend_enabled env" "0 \<le> um_pipefd0 (g_monitor u)"
    and "k_lookup k (um_pipefd0 (g_monitor u)) = Some s" "rx s = map Data cs @ r" "[] \<notin> set cs"
    and "concat cs = enc_hotplug m @ rest" "wf_hotplug m" "hm_magic m = TG_HOTPLUG_MAGIC"
    and "hm_version m = TG_CONTROL_VERSION"
  shows "\<exists>u' k' s' cs'. udev_monitor_receive_device env True u k = Inr (Some FAKE_EVDEV, u', k') \<and>
    k_lookup k' = (k_lookup k)(um_pipefd0 (g_monitor u) \<mapsto> s') \<and>
    rx s' = map Data cs' @ r \<and> [] \<notin> set cs' \<and> concat cs' = rest \<and>
    g_descriptor u' = hm_descriptor m \<and> g_monitor u' = g_monitor u \<and>
    udev_device_get_action u' (Some FAKE_EVDEV) =
      Some (if hm_action m = TG_HOTPLUG_REMOVE then lit ''remove'' else lit ''add'') \<and>
    udev_enumerate_get_list_entry env True u' =
      (ue_matched_input (g_enum u) \<noteq> 0 \<and> dd_present (hm_descriptor m) \<noteq> 0)"
proof -
  have len: "length (enc_hotplug m) = 96" using assms(7) by (rule hot.length_enc)
  obtain k' s' cs' where rc: "on_sock (um_pipefd0 (g_monitor u)) [] (recv_waitall 96 []) k = Inr (enc_hotplug m, k')"
    and k': "k_lookup k' = (k_lookup k)(um_pipefd0 (g_monitor u) \<mapsto> s')"
    and s': "rx s' = map Data cs' @ r" "[] \<notin> set cs'" "concat cs' = rest"
    using on_sock_stream [OF assms(3-5), of 96] assms(6) len by auto
  let ?u1 = "update_descriptor env (hm_descriptor m) u"
  let ?u' = "?u1\<lparr>g_event_dev := (g_event_dev ?u1)\<lparr>ud_action := (if hm_action m = TG_HOTPLUG_REMOVE then 2 else 1),
    ud_refs := ud_refs (g_event_dev ?u1) + 1\<rparr>\<rparr>"
  have "udev_monitor_receive_device env True u k = Inr (Some FAKE_EVDEV, ?u', k')"
    using assms(1,2,7-9) rc len by (simp add: udev_monitor_receive_device_def hot.dec_enc Let_def)
  moreover have "g_descriptor ?u' = hm_descriptor m" "g_monitor ?u' = g_monitor u" "g_enum ?u' = g_enum u"
    using assms(1) by (simp_all add: update_descriptor_def)
  moreover have "udev_device_get_action ?u' (Some FAKE_EVDEV) =
      Some (if hm_action m = TG_HOTPLUG_REMOVE then lit ''remove'' else lit ''add'')"
    by (simp add: udev_device_get_action_def)
  ultimately show ?thesis
    using k' s' assms(1) unfolding udev_enumerate_get_list_entry_def by metis
qed

text \<open>A monitor whose connection has the message that the controller is gone.\<close>

definition ux_removed :: tg_hotplug_message where
  "ux_removed = \<lparr>hm_magic = TG_HOTPLUG_MAGIC, hm_version = TG_CONTROL_VERSION, hm_action = TG_HOTPLUG_REMOVE,
     hm_pad0 = 0, hm_descriptor = zero_descriptor\<rparr>"

theorem hotplug_received_witness:
  "\<exists>u' k'. udev_monitor_receive_device ux_env True
       (udev_loaded\<lparr>g_monitor := \<lparr>um_refs = 1, um_pipefd0 = 0, um_pipefd1 = -1\<rparr>\<rparr>)
       \<lparr>fds = [Some (blank_sock\<lparr>rx := [Data (enc_hotplug ux_removed)]\<rparr>)], dial = (\<lambda>_. SocketFails EBADF), dialled = 0\<rparr> =
       Inr (Some FAKE_EVDEV, u', k') \<and>
     udev_device_get_action u' (Some FAKE_EVDEV) = Some (lit ''remove'')"
proof -
  have m: "wf_hotplug ux_removed" "hm_magic ux_removed = TG_HOTPLUG_MAGIC" "hm_version ux_removed = TG_CONTROL_VERSION"
    "hm_action ux_removed = TG_HOTPLUG_REMOVE"
    by (simp_all add: ux_removed_def wf_hotplug_def wf_descriptor_def zero_descriptor_def)
  have ne: "enc_hotplug ux_removed \<noteq> []" using hot.length_enc [OF m(1)] by auto
  show ?thesis
    using hotplug_received [OF ux_enabled(1), of "udev_loaded\<lparr>g_monitor := \<lparr>um_refs = 1, um_pipefd0 = 0, um_pipefd1 = -1\<rparr>\<rparr>"
        "\<lparr>fds = [Some (blank_sock\<lparr>rx := [Data (enc_hotplug ux_removed)]\<rparr>)], dial = (\<lambda>_. SocketFails EBADF), dialled = 0\<rparr>"
        "blank_sock\<lparr>rx := [Data (enc_hotplug ux_removed)]\<rparr>" "[enc_hotplug ux_removed]" "[]" ux_removed "[]"] m ne
    by (auto simp: fd_lookup_def blank_sock_def)
qed

section \<open>Agreement with the shim\<close>

definition override_of :: "env \<Rightarrow> int" where
  "override_of env =
     (if tg_streq (env ''TERMUX_GAMEPAD_MODE'') (Some (lit ''dinput'')) then 1
      else if tg_streq (env ''TERMUX_GAMEPAD_MODE'') (Some (lit ''xinput'')) then 0 else -1)"

lemma init_override: "mode_override (tg_init dl env shim_loaded) = override_of env"
  by (simp add: tg_init_def shim_loaded_def override_of_def Let_def)

lemma mode_agrees:
  assumes "mode_override sh = override_of env" "g_descriptor u = fk_descriptor fake"
  shows "dinput_mode env u = tg_is_dinput sh (Some fake)"
  using assms by (auto simp: dinput_mode_def tg_is_dinput_def override_of_def Let_def)

lemma fixed_ids:
  "parse_hex (lit ''1209'') = unat TG_DINPUT_VENDOR" "parse_hex (lit ''0001'') = unat TG_DINPUT_PRODUCT"
  "parse_hex (lit ''0114'') = 0x0114"
  by code_simp+

lemma sysattr_keys:
  "udev_device_get_sysattr_value env u (Some p) (Some (lit ''id/vendor'')) =
     Some (if dinput_mode env u then lit ''1209'' else vendor_string u)"
  "udev_device_get_sysattr_value env u (Some p) (Some (lit ''id/product'')) =
     Some (if dinput_mode env u then lit ''0001'' else product_string u)"
  "udev_device_get_sysattr_value env u (Some p) (Some (lit ''id/version'')) = Some (lit ''0114'')"
  "udev_device_get_sysattr_value env u (Some p) (Some (lit ''name'')) = Some (device_name env u)"
  by (simp_all add: udev_device_get_sysattr_value_def tg_streq_Some lit_def)

text \<open>C29: The two libraries an application may use side by side describe the same controller. With the same
  descriptor and mode override, the name, vendor, product and version that the fake libudev reports as text
  are those the shim's \<open>ioctl\<close>s report as numbers.\<close>

theorem identity_agrees:
  assumes "ids_ok u" "g_descriptor u = fk_descriptor fake" "mode_override sh = override_of env"
  shows "udev_device_get_sysattr_value env u (Some p) (Some (lit ''name'')) = Some (tg_device_name sh (Some fake)) \<and>
    map_option parse_hex (udev_device_get_sysattr_value env u (Some p) (Some (lit ''id/vendor''))) =
      Some (unat (id_vendor (fake_input_id sh fake))) \<and>
    map_option parse_hex (udev_device_get_sysattr_value env u (Some p) (Some (lit ''id/product''))) =
      Some (unat (id_product (fake_input_id sh fake))) \<and>
    map_option parse_hex (udev_device_get_sysattr_value env u (Some p) (Some (lit ''id/version''))) =
      Some (unat (id_version (fake_input_id sh fake)))"
proof -
  have "unat (ucast v :: u16) = unat v mod 65536" for v :: u32 by (simp add: unsigned_ucast_eq take_bit_eq_mod)
  then show ?thesis
    using assms(1,2) mode_agrees [OF assms(3,2)]
    by (simp add: sysattr_keys fake_input_id_def fixed_ids ids_ok_def parse_hex4 device_name_def
          tg_device_name_def)
qed

definition ux_fake :: tg_fake_fd where
  "ux_fake = \<lparr>fk_fd = 7, fk_joydev = False, fk_initializing = False, fk_raw = [], fk_descriptor = ux_descriptor\<rparr>"

theorem identity_agrees_witness:
  "udev_device_get_sysattr_value ux_env (update_descriptor ux_env ux_descriptor udev_loaded) (Some FAKE_EVDEV)
     (Some (lit ''name'')) = Some (tg_device_name (tg_init (\<lambda>_. True) ux_env shim_loaded) (Some ux_fake))"
proof -
  have "udev_inv False (update_descriptor ux_env ux_descriptor udev_loaded) (ux_kernel [])"
    by (rule update_descriptor_inv [OF udev_loaded_inv ux_descriptor_facts(1)])
  moreover have "g_descriptor (update_descriptor ux_env ux_descriptor udev_loaded) = fk_descriptor ux_fake"
    using ux_enabled(1) by (simp add: update_descriptor_def ux_fake_def)
  ultimately show ?thesis
    using identity_agrees [of _ ux_fake "tg_init (\<lambda>_. True) ux_env shim_loaded" ux_env FAKE_EVDEV] init_override
    by (simp add: udev_inv_def)
qed

text \<open>C30: Whatever device an application gets hold of, it can be found again by the path the library reports
  for it, and the node the library names for it is one the shim answers for, as a joystick exactly for
  the joystick device: with the backend on, opening that node connects to the bridge and \<open>stat\<close> finds a
  character device.\<close>

theorem named_nodes_open:
  assumes "devices_ok u" "udev_backend_enabled env"
  shows "fst (udev_device_new_from_syspath env (udev_device_get_syspath u (Some p)) u) = Some p \<and>
    (case udev_device_get_devnode u (Some p) of
       None \<Rightarrow> p = FAKE_PARENT
     | Some n \<Rightarrow>
         shim_open lc dl env (Some n) flags mode sh k =
           tg_connect_device dl env flags (p = FAKE_JOYDEV) (tg_init dl env sh)
             (tg_debug_open_path env (Some n) (tg_init dl env sh) k) \<and>
         fst (shim_stat lc dl env (Some n) out sh) = tg_fake_stat out (p = FAKE_JOYDEV))"
proof -
  note kinds = the_device_kind [OF assms(1)]
  have on: "tg_backend_enabled env" using assms(2) by (simp add: udev_backend_enabled_def tg_backend_enabled_def)
  have nodes: "fake_node (Some TG_FAKE_DEVNODE) = Some False" "fake_node (Some TG_FAKE_JOYDEV_NODE) = Some True"
    by code_simp+
  have paths: "device_for_syspath (Some TG_FAKE_SYSPATH) = Some FAKE_EVDEV"
    "device_for_syspath (Some TG_FAKE_JOYDEV_SYSPATH) = Some FAKE_JOYDEV"
    "device_for_syspath (Some TG_FAKE_PARENT_SYSPATH) = Some FAKE_PARENT"
    by code_simp+
  show ?thesis
    using assms(2) on by (cases p)
      (simp_all add: kinds [of FAKE_EVDEV, simplified] kinds [of FAKE_JOYDEV, simplified] kinds [of FAKE_PARENT, simplified]
         udev_device_get_syspath_def udev_device_get_devnode_def udev_device_new_from_syspath_def
         paths nodes shim_open_def tg_open_common_def shim_stat_def Let_def)
qed

theorem named_nodes_open_witness:
  "fst (udev_device_new_from_syspath ux_env (udev_device_get_syspath udev_loaded (Some FAKE_JOYDEV)) udev_loaded) =
     Some FAKE_JOYDEV"
  using named_nodes_open [OF _ ux_enabled(1), of udev_loaded FAKE_JOYDEV] udev_loaded_inv by (simp add: udev_inv_def)

section \<open>The life of a monitor\<close>

text \<open>C37: There is only one monitor, and its reference counter protects nothing. A second monitor takes the
  place of the first one, whose connection stays open and unreachable; and after a further reference was
  taken, dropping one closes the connection although references are left.\<close>

theorem monitor_references_ignored:
  assumes "udev_monitor_new_from_netlink env u k = (True, u1, k1)"
    and "udev_monitor_new_from_netlink env u1 k1 = (True, u2, k2)"
    and "udev_monitor_unref True (snd (udev_monitor_ref True u2)) k2 = (r, u3, k3)"
  shows "0 < um_refs (g_monitor u3) \<and> udev_monitor_get_fd env True u3 = -1 \<and>
    k_lookup k3 (um_pipefd0 (g_monitor u2)) = None \<and>
    k_lookup k3 (um_pipefd0 (g_monitor u1)) \<noteq> None \<and>
    um_pipefd0 (g_monitor u1) \<noteq> um_pipefd0 (g_monitor u2)"
proof -
  have new: "udev_backend_enabled env \<and> (\<exists>f. 0 \<le> f \<and> k_lookup a f = None \<and> k_lookup b f \<noteq> None \<and>
      (\<forall>g. k_lookup a g \<noteq> None \<longrightarrow> k_lookup b g \<noteq> None) \<and>
      g_monitor w = \<lparr>um_refs = 1, um_pipefd0 = f, um_pipefd1 = -1\<rparr>)"
    if "udev_monitor_new_from_netlink env v a = (True, w, b)" for v w a b
  proof -
    obtain f b' where cb: "connect_bridge env TG_CONTROL_MONITOR a = (f, b')" by fastforce
    show ?thesis using that cb connect_bridge_cases [OF cb]
      by (auto simp: udev_monitor_new_from_netlink_def split: if_splits)
  qed
  obtain f1 where f1: "k_lookup k1 f1 \<noteq> None" "g_monitor u1 = \<lparr>um_refs = 1, um_pipefd0 = f1, um_pipefd1 = -1\<rparr>"
    using new [OF assms(1)] by auto
  obtain f2 where f2: "udev_backend_enabled env" "0 \<le> f2" "k_lookup k1 f2 = None" "k_lookup k2 f1 \<noteq> None"
      "g_monitor u2 = \<lparr>um_refs = 1, um_pipefd0 = f2, um_pipefd1 = -1\<rparr>"
    using new [OF assms(2)] f1(1) by auto
  show ?thesis
    using assms(3) f1 f2 by (auto simp: udev_monitor_unref_def udev_monitor_ref_def udev_monitor_get_fd_def)
qed

theorem monitor_references_ignored_witness:
  "\<exists>u1 k1 u2 k2. udev_monitor_new_from_netlink ux_env udev_loaded (ux_kernel []) = (True, u1, k1) \<and>
     udev_monitor_new_from_netlink ux_env u1 k1 = (True, u2, k2) \<and>
     udev_monitor_get_fd ux_env True (fst (snd (udev_monitor_unref True (snd (udev_monitor_ref True u2)) k2))) = -1"
proof -
  have new: "\<exists>w b. udev_monitor_new_from_netlink ux_env v a = (True, w, b) \<and> dial b = dial a"
    if "\<forall>n. dial a n = dial (ux_kernel []) n" for v a
  proof -
    have "dial a (dialled a) = Connects (blank_sock\<lparr>rx := [Data []]\<rparr>)" using that by (simp add: ux_kernel_def)
    from connect_bridge_works [OF ux_enabled this, of TG_CONTROL_MONITOR]
    obtain f s b where cb: "connect_bridge ux_env TG_CONTROL_MONITOR a = (f, b)" "0 \<le> f"
      by (auto simp: blank_sock_def)
    then show ?thesis using ux_enabled(1) dial_connect_bridge [OF cb(1)] by (simp add: udev_monitor_new_from_netlink_def)
  qed
  obtain u1 k1 where 1: "udev_monitor_new_from_netlink ux_env udev_loaded (ux_kernel []) = (True, u1, k1)"
    "dial k1 = dial (ux_kernel [])" using new [of "ux_kernel []" udev_loaded] by auto
  obtain u2 k2 where 2: "udev_monitor_new_from_netlink ux_env u1 k1 = (True, u2, k2)" using new [of k1 u1] 1(2) by auto
  obtain r u3 k3 where 3: "udev_monitor_unref True (snd (udev_monitor_ref True u2)) k2 = (r, u3, k3)"
    by (metis prod_cases3)
  show ?thesis using 1 2 3 monitor_references_ignored [OF 1(1) 2 3] by auto
qed

end
