(* ===== verification/ShimBridge.thy ===== *)
theory ShimBridge
  imports ShimProps EndToEnd
begin

text \<open>
  The shim and the bridge together: what a program that has opened the shim's device is promised by its
  \<open>ioctl\<close>s, against what it reads of the events the bridge sends. The codes of the bridge
  (\<open>snapshot_events\<close> and \<open>convert_xi_event\<close> with \<open>axis_code\<close> and \<open>button_code\<close>), the bits of
  \<open>tg_fill_bits\<close>, the renaming in \<open>read\<close> and the numbers of the joystick view are four tables kept apart in
  the sources; the theorem says that they agree.
\<close>

section \<open>What the bridge sends\<close>

text \<open>An event of a snapshot, or of the group \<open>process_xi_event\<close> queues for an XI2 event, in any state.\<close>

definition bridge_sends :: "tg_input_event \<Rightarrow> bool" where
  "bridge_sends e \<longleftrightarrow>
     (\<exists>h b. e \<in> set (fst (snapshot_events h b))) \<or>
     (\<exists>h x b. fst (convert_xi_event h x b) \<noteq> [] \<and>
        e \<in> set (fst (append_event h TG_EV_SYN TG_SYN_REPORT 0 (convert_xi_event h x b))))"

text \<open>An event of the pad, or the report that ends a group.\<close>

definition regular :: "u16 \<times> u16 \<times> s32 \<Rightarrow> bool" where
  "regular t \<longleftrightarrow> pad_event t \<or> (fst t = TG_EV_SYN \<and> fst (snd t) = TG_SYN_REPORT)"

lemma snapshot_codes: "fst ` set snapshot_buttons = set key_codes"
  by (auto simp: snapshot_buttons_def key_codes_def)

lemma axis_codes: "axis_code ` set [0..<6] \<union> {TG_ABS_HAT0X, TG_ABS_HAT0Y} = set abs_codes"
  by (auto simp: axis_code_def abs_codes_def upt_rec nth_Cons)

lemma snapshot_regular: "t \<in> set (snapshot_sigs st) \<Longrightarrow> regular t"
  using axis_codes snapshot_codes [symmetric]
  by (auto simp: snapshot_sigs_def regular_def pad_event_def intro: rev_image_eqI)

lemma snapshot_keys: "c \<in> set key_codes \<Longrightarrow> \<exists>v. (TG_EV_KEY, c, v) \<in> set (snapshot_sigs st)"
  unfolding snapshot_codes [symmetric] by (auto simp: snapshot_sigs_def image_iff)

lemma snapshot_axes: "c \<in> set abs_codes \<Longrightarrow> \<exists>v. (TG_EV_ABS, c, v) \<in> set (snapshot_sigs st)"
  unfolding axis_codes [symmetric] by (auto simp: snapshot_sigs_def image_iff)

lemma bridge_sends_regular: "bridge_sends e \<Longrightarrow> regular (sig_of e)"
proof (unfold bridge_sends_def, elim disjE exE conjE)
  fix h b assume "e \<in> set (fst (snapshot_events h b))"
  then have "sig_of e \<in> set (map sig_of (fst (snapshot_events h b)))" by simp
  then show ?thesis unfolding snapshot_events_sig by (rule snapshot_regular)
next
  fix h x b assume "e \<in> set (fst (append_event h TG_EV_SYN TG_SYN_REPORT 0 (convert_xi_event h x b)))"
  then have "sig_of e \<in> set (map sig_of (fst (append_event h TG_EV_SYN TG_SYN_REPORT 0 (convert_xi_event h x b))))" by simp
  then show ?thesis using convert_pad_events [of h x b]
    unfolding append_event_sig by (auto simp: pad_events_def regular_def)
qed

section \<open>What the device advertises\<close>

text \<open>A program that reads one event from the descriptor gets \<open>e'\<close> for the \<open>e\<close> the bridge sent.\<close>

definition reads_as :: "loader \<Rightarrow> env \<Rightarrow> shim \<Rightarrow> fd \<Rightarrow> tg_input_event \<Rightarrow> tg_input_event \<Rightarrow> bool" where
  "reads_as dl env sh f e e' \<longleftrightarrow>
     (\<forall>k s r. k_lookup k f = Some s \<and> rx s = Data (enc_event e) # r \<longrightarrow>
        shim_read dl env f True 24 sh k =
          Inr ((24, enc_event e'), sh, k\<lparr>fds := fd_update f (s\<lparr>rx := r\<rparr>) (fds k)\<rparr>))"

definition advertised :: "bytes \<Rightarrow> bytes \<Rightarrow> tg_input_event \<Rightarrow> bool" where
  "advertised kbits abits e \<longleftrightarrow>
     (ie_type e = TG_EV_KEY \<and> has_bit kbits (unat (ie_code e))) \<or>
     (ie_type e = TG_EV_ABS \<and> has_bit abits (unat (ie_code e))) \<or>
     (ie_type e = TG_EV_SYN \<and> ie_code e = TG_SYN_REPORT)"

definition renamed :: "bool \<Rightarrow> tg_input_event \<Rightarrow> tg_input_event" where
  "renamed d e = (if d \<and> ie_type e = TG_EV_KEY then e\<lparr>ie_code := tg_dinput_button_code (ie_code e)\<rparr> else e)"

lemma reads_renamed:
  assumes "init_done sh" "real_read_fn sh \<noteq> None" "tg_find_fake_fd f sh = Some i" "\<not> fk_joydev (fake_fds sh ! i)"
  shows "reads_as dl env sh f e (renamed (tg_is_dinput sh (Some (fake_fds sh ! i))) e)"
proof -
  have c: "rename_buffer (enc_event e) = enc_event (if ie_type e = TG_EV_KEY
      then e\<lparr>ie_code := tg_dinput_button_code (ie_code e)\<rparr> else e)"
    using evt.chunks_stream [of "[e]" "[]"] leftover_frame [of 24 "enc_event e" "[]"]
    by (simp add: rename_buffer_def evt.length_enc rename_image)
  show ?thesis
    using assms c
    by (simp add: reads_as_def shim_read_def tg_init_def k_read_def on_sock_def sock_read_def sock_recv_def
        evt.length_enc renamed_def)
qed

lemma capability_bits:
  assumes "init_done sh" "tg_find_fake_fd f sh = Some i" "\<not> fk_joydev (fake_fds sh ! i)" "arg \<noteq> 0"
    and "ev = TG_EV_KEY \<or> ev = TG_EV_ABS" "length mem = n" "n < 2 ^ 14"
  shows "shim_ioctl lc dl env f (TG_IOC 2 0x45 (of_nat (0x20 + ev)) (of_nat n)) arg mem sh k =
    (0, tg_fill_bits mem (length mem) ev (tg_is_dinput sh (Some (fake_fds sh ! i))), sh, k)"
proof -
  have u: "unat (of_nat m :: u64) = m" if "m < 2 ^ 14" for m
    using that by (simp add: unat_of_nat take_bit_nat_eq_self)
  have ev: "0x20 + ev < 2 ^ 8" using assms(5) by auto
  note f = ioc_fields [of "of_nat (0x20 + ev)" "0x45" "of_nat n" 2]
  have "ioc_nr (TG_IOC 2 0x45 (of_nat (0x20 + ev)) (of_nat n)) = 0x20 + ev"
    "ioc_type (TG_IOC 2 0x45 (of_nat (0x20 + ev)) (of_nat n)) = 0x45"
    "ioc_size (TG_IOC 2 0x45 (of_nat (0x20 + ev)) (of_nat n)) = n"
    using f u [of "0x20 + ev"] u [OF assms(7)] ev assms(7) by (simp_all del: of_nat_add)
  then show ?thesis using assms by (auto simp: shim_ioctl_def tg_init_def fake_ioctl_def tg_fake_ioctl_def)
qed

lemma key_bits:
  assumes "96 \<le> length dst"
  shows "has_bit (tg_fill_bits dst (length dst) TG_EV_KEY d) c \<longleftrightarrow>
    (\<exists>w\<in>set key_codes. c = unat (if d then tg_dinput_button_code w else w))"
proof (cases d)
  case True
  have "c \<in> {0x120, 0x121, 0x122, 0x123, 0x124, 0x125, 0x126, 0x127, 0x128, 0x129, 0x12a, 0x12b} \<longleftrightarrow> 0x120 \<le> c \<and> c \<le> 0x12b"
    by (simp, arith)
  moreover have "(\<exists>w\<in>set key_codes. c = unat (tg_dinput_button_code w)) \<longleftrightarrow>
      c \<in> {0x120, 0x121, 0x122, 0x123, 0x124, 0x125, 0x126, 0x127, 0x128, 0x129, 0x12a, 0x12b}"
    by (simp add: key_codes_def tg_dinput_button_code_def) blast
  ultimately show ?thesis using True fill_key_bits(2) [OF assms] by simp
qed (use fill_key_bits(1) [OF assms] in \<open>auto simp: key_codes_def\<close>)

lemma abs_bits:
  assumes "8 \<le> length dst"
  shows "has_bit (tg_fill_bits dst (length dst) TG_EV_ABS d) c \<longleftrightarrow> (\<exists>w\<in>set abs_codes. c = unat w)"
  using fill_abs_bits [OF assms] by (auto simp: abs_codes_def)

lemma joystick_knows:
  "w \<in> set key_codes \<Longrightarrow> 0 \<le> tg_joy_button_number w"
  "w \<in> set abs_codes \<Longrightarrow> 0 \<le> tg_joy_axis_number w"
  by (auto simp: key_codes_def abs_codes_def tg_joy_button_number_def tg_joy_axis_number_def)

lemma regular_advertised:
  assumes "regular (sig_of e)" "96 \<le> length kmem" "8 \<le> length amem"
  shows "advertised (tg_fill_bits kmem (length kmem) TG_EV_KEY d) (tg_fill_bits amem (length amem) TG_EV_ABS d) (renamed d e)"
  using assms(1) key_bits [OF assms(2), of d] abs_bits [OF assms(3), of d]
  by (auto simp: regular_def pad_event_def sig_of_def advertised_def renamed_def)

lemma snapshot_event:
  assumes "(ty, c, v) \<in> set (snapshot_sigs (state b))"
  obtains e where "e \<in> set (fst (snapshot_events h b))" "ie_type e = ty" "ie_code e = c"
proof -
  have "(ty, c, v) \<in> sig_of ` set (fst (snapshot_events h b))"
    using assms by (metis list.set_map snapshot_events_sig)
  then show thesis by (auto simp: sig_of_def intro: that)
qed

text \<open>C26: The device advertises exactly what it delivers. Take an event device in either input mode and the
  bits its \<open>EVIOCGBIT\<close> calls for keys and axes store, in buffers large enough. Every event the bridge sends
  is read with its time, type and value, and what is read is an advertised key or axis or the report that ends a group;
  the joystick view has a number for it too. Conversely every key bit and every axis bit is the code
  of an event a program reads of any snapshot the bridge sends.\<close>

theorem capabilities_match_events:
  assumes "init_done sh" "real_read_fn sh \<noteq> None" "tg_find_fake_fd f sh = Some i" "\<not> fk_joydev (fake_fds sh ! i)"
    and "arg \<noteq> 0" "length kmem = kn" "96 \<le> kn" "kn < 2 ^ 14" "length amem = an" "8 \<le> an" "an < 2 ^ 14"
    and keys: "shim_ioctl lc dl env f (TG_IOC 2 0x45 0x21 (of_nat kn)) arg kmem sh k = (r1, kbits, sh1, k1)"
    and axes: "shim_ioctl lc dl env f (TG_IOC 2 0x45 0x23 (of_nat an)) arg amem sh1 k1 = (r2, abits, sh2, k2)"
  shows "r1 = 0 \<and> r2 = 0 \<and> sh2 = sh \<and> k2 = k \<and>
    (\<forall>e. bridge_sends e \<longrightarrow>
      (\<exists>c. reads_as dl env sh f e (e\<lparr>ie_code := c\<rparr>) \<and> advertised kbits abits (e\<lparr>ie_code := c\<rparr>)) \<and>
      (ie_type e = TG_EV_KEY \<longrightarrow> 0 \<le> tg_joy_button_number (ie_code e)) \<and>
      (ie_type e = TG_EV_ABS \<longrightarrow> 0 \<le> tg_joy_axis_number (ie_code e))) \<and>
    (\<forall>h b c. has_bit kbits c \<longrightarrow> (\<exists>e \<in> set (fst (snapshot_events h b)). \<exists>e'. reads_as dl env sh f e e' \<and>
       ie_type e' = TG_EV_KEY \<and> unat (ie_code e') = c)) \<and>
    (\<forall>h b c. has_bit abits c \<longrightarrow> (\<exists>e \<in> set (fst (snapshot_events h b)). \<exists>e'. reads_as dl env sh f e e' \<and>
       ie_type e' = TG_EV_ABS \<and> unat (ie_code e') = c))"
proof -
  let ?d = "tg_is_dinput sh (Some (fake_fds sh ! i))"
  have 1: "r1 = 0" "kbits = tg_fill_bits kmem (length kmem) TG_EV_KEY ?d" "sh1 = sh" "k1 = k"
    using capability_bits [OF assms(1,3,4,5) _ assms(6,8), of TG_EV_KEY] keys by auto
  have 2: "r2 = 0" "abits = tg_fill_bits amem (length amem) TG_EV_ABS ?d" "sh2 = sh" "k2 = k"
    using capability_bits [OF assms(1,3,4,5) _ assms(9,11), of TG_EV_ABS] axes 1(3,4) by auto
  have kn: "96 \<le> length kmem" and an: "8 \<le> length amem" using assms(6,7,9,10) by simp_all
  note reads = reads_renamed [OF assms(1-4)]
  have code: "renamed d e = e\<lparr>ie_code := ie_code (renamed d e)\<rparr>" for d e by (simp add: renamed_def)
  have "\<exists>c. reads_as dl env sh f e (e\<lparr>ie_code := c\<rparr>) \<and> advertised kbits abits (e\<lparr>ie_code := c\<rparr>)" if "bridge_sends e" for e
    using reads [where e = e] regular_advertised [OF bridge_sends_regular [OF that] kn an, of ?d] code [of ?d e]
    unfolding 1(2) 2(2) by metis
  moreover have "(ie_type e = TG_EV_KEY \<longrightarrow> 0 \<le> tg_joy_button_number (ie_code e)) \<and>
      (ie_type e = TG_EV_ABS \<longrightarrow> 0 \<le> tg_joy_axis_number (ie_code e))" if "bridge_sends e" for e
    using bridge_sends_regular [OF that] joystick_knows by (auto simp: regular_def pad_event_def sig_of_def)
  moreover have "\<exists>e \<in> set (fst (snapshot_events h b)). \<exists>e'. reads_as dl env sh f e e' \<and>
       ie_type e' = TG_EV_KEY \<and> unat (ie_code e') = c" if bit: "has_bit kbits c" for h b c
  proof -
    obtain w where w: "w \<in> set key_codes" "c = unat (if ?d then tg_dinput_button_code w else w)"
      using bit unfolding 1(2) key_bits [OF kn] by (elim bexE)
    obtain e where e: "e \<in> set (fst (snapshot_events h b))" "ie_type e = TG_EV_KEY" "ie_code e = w"
      using snapshot_keys [OF w(1), of "state b"] by (elim exE snapshot_event)
    have "ie_type (renamed ?d e) = TG_EV_KEY \<and> unat (ie_code (renamed ?d e)) = c" using e w(2) by (simp add: renamed_def)
    with e(1) reads show ?thesis by blast
  qed
  moreover have "\<exists>e \<in> set (fst (snapshot_events h b)). \<exists>e'. reads_as dl env sh f e e' \<and>
       ie_type e' = TG_EV_ABS \<and> unat (ie_code e') = c" if bit: "has_bit abits c" for h b c
  proof -
    obtain w where w: "w \<in> set abs_codes" "c = unat w"
      using bit unfolding 2(2) abs_bits [OF an] by (elim bexE)
    obtain e where e: "e \<in> set (fst (snapshot_events h b))" "ie_type e = TG_EV_ABS" "ie_code e = w"
      using snapshot_axes [OF w(1), of "state b"] by (elim exE snapshot_event)
    have "ie_type (renamed ?d e) = TG_EV_ABS \<and> unat (ie_code (renamed ?d e)) = c" using e w(2) by (simp add: renamed_def)
    with e(1) reads show ?thesis by blast
  qed
  ultimately show ?thesis using 1(1) 2(1,3,4) by blast
qed

theorem capabilities_match_events_witness:
  "\<forall>h b. \<exists>e \<in> set (fst (snapshot_events h b)). \<exists>e'. reads_as sx_loader sx_env sx_shim 3 e e' \<and>
     ie_type e' = TG_EV_KEY \<and> unat (ie_code e') = 0x120"
proof -
  have j: "\<not> fk_joydev (fake_fds sx_shim ! 0)" by (simp add: sx_shim_parts sx_entry_def)
  have d: "tg_is_dinput sx_shim (Some (fake_fds sx_shim ! 0))"
    by (simp add: sx_shim_parts) (simp add: tg_is_dinput_def sx_shim_def shim_loaded_def sx_entry_def sx_descriptor_def sx_env_def tg_streq_def tg_init_def)
  let ?k = "tg_fill_bits (replicate 96 0) (length (replicate 96 0 :: bytes)) TG_EV_KEY True"
  let ?a = "tg_fill_bits (replicate 8 0) (length (replicate 8 0 :: bytes)) TG_EV_ABS True"
  have k: "shim_ioctl sx_libc sx_loader sx_env 3 (TG_IOC 2 0x45 0x21 (of_nat 96)) 1 (replicate 96 0) sx_shim sx_k = (0, ?k, sx_shim, sx_k)"
    using capability_bits [OF sx_shim_parts(1,4) j, of 1 TG_EV_KEY "replicate 96 0" 96] d by simp
  have a: "shim_ioctl sx_libc sx_loader sx_env 3 (TG_IOC 2 0x45 0x23 (of_nat 8)) 1 (replicate 8 0) sx_shim sx_k = (0, ?a, sx_shim, sx_k)"
    using capability_bits [OF sx_shim_parts(1,4) j, of 1 TG_EV_ABS "replicate 8 0" 8] d by simp
  have b: "has_bit ?k 0x120" using key_bits [of "replicate 96 0" True "0x120"] by (simp add: key_codes_def tg_dinput_button_code_def)
  show ?thesis
    using capabilities_match_events [OF sx_shim_parts(1) _ sx_shim_parts(4) j _ _ _ _ _ _ _ k a] b
    by (simp add: sx_shim_parts)
qed

end
