(* ===== verification/Handshake.thy ===== *)
theory Handshake
  imports EndToEnd GamepadProps UdevSystem ShimSystem
begin

text \<open>
  A new connection seen from both ends: the bytes the bridge answers a query with, cut into pieces of any
  size, make the client library and the shim accept the device, and what remains on the socket is the
  snapshot that brings the program in step with the pad.
\<close>

section \<open>Connecting and receiving\<close>

lemma dial_works:
  assumes "dial k (dialled k) = Connects s0"
  obtains f k1 k2 where "k_socket k = (Inr f, k1)" "k_connect f p k1 = (None, k2)" "0 \<le> f" "k_lookup k f = None"
    "k_lookup k2 = (k_lookup k)(f \<mapsto> s0\<lparr>peer := p, sent := [], nonblock := False, cloexec := True\<rparr>)"
proof -
  obtain f k1 where so: "k_socket k = (Inr f, k1)"
    using assms by (cases "fd_alloc (blank_sock\<lparr>cloexec := True\<rparr>) (fds k)") (simp add: k_socket_def)
  note sk = k_socket_Inr [OF so]
  have d1: "dial k1 (dialled k1) = Connects s0"
    using so assms by (auto simp: k_socket_def Let_def split: attempt.splits prod.splits)
  obtain k2 where co: "k_connect f p k1 = (None, k2)"
    and k2: "k_lookup k2 = (k_lookup k1)(f \<mapsto> s0\<lparr>peer := p, sent := [], nonblock := False, cloexec := True\<rparr>)"
    using d1 sk(3) by (simp add: k_connect_def Let_def fdt.update_lookup fun_eq_iff)
  have "k_lookup k2 = (k_lookup k)(f \<mapsto> s0\<lparr>peer := p, sent := [], nonblock := False, cloexec := True\<rparr>)"
    using k2 sk(3) by (intro ext) simp
  then show thesis by (rule that [OF so co sk(1,2)])
qed

text \<open>A socket whose sends go through takes a whole control message at once.\<close>

lemma send_command_works:
  assumes "k_lookup k f = Some s" "tx s = []"
  obtains k' where "send_command f c l h d k = (0, k')"
    "k_lookup k' = (k_lookup k)(f \<mapsto> s\<lparr>sent := sent s @ enc_control (control_message c l h d)\<rparr>)"
proof -
  let ?m = "enc_control (control_message c l h d)"
  have len: "length ?m = 16" by (rule ctl.length_enc) simp
  then have "?m \<noteq> []" by auto
  then have "send_loop ?m s = (0, s\<lparr>sent := sent s @ ?m\<rparr>)"
    using assms(2) len by (simp add: send_loop.simps [of ?m] sock_send_def send_loop.simps [of "[]"])
  then show thesis
    using assms(1) by (intro that) (auto simp: send_command_def send_all_def fdt.update_lookup fun_eq_iff)
qed

lemma tg_send_control_works:
  assumes "k_lookup k f = Some s" "tx s = []"
  obtains k' where "tg_send_control f c l h d k = (0, k')"
    "k_lookup k' = (k_lookup k)(f \<mapsto> s\<lparr>sent := sent s @ enc_control (control_message c l h d)\<rparr>)"
proof -
  have "length (enc_control (control_message c l h d)) = 16" by (rule ctl.length_enc) simp
  then show thesis
    using assms by (intro that) (auto simp: tg_send_control_def k_send_def sock_send_def fdt.update_lookup fun_eq_iff)
qed

text \<open>Where a receive with \<open>MSG_WAITALL\<close> gets all its bytes, the loop of the client library does too.\<close>

lemma receive_loop_waitall:
  assumes "recv_waitall n got s = Inr (buf, s')" "n \<le> length buf"
  shows "receive_loop n got s = Inr ((0, buf), s')"
  using assms
proof (induction n got s rule: recv_waitall.induct)
  case (1 n got s)
  show ?case
  proof (cases "n \<le> length got")
    case True
    then show ?thesis using "1.prems" by (auto simp: recv_waitall.simps [of n got] receive_loop.simps [of n])
  next
    case False
    then obtain bs s1 where rc: "sock_recv (n - length got) s = (Some (Data bs), s1)" "bs \<noteq> []"
        "recv_waitall n (got @ bs) s1 = Inr (buf, s')"
      using "1.prems" by (subst (asm) recv_waitall.simps) (auto split: option.splits recv_ans.splits prod.splits if_splits)
    then show ?thesis using "1.IH" [OF False rc(1) [symmetric] refl refl rc(2,3)] "1.prems"(2) False
      by (simp add: receive_loop.simps [of n got])
  qed
qed

lemma recv_waitall_ctl: "recv_waitall n got s = Inr (buf, s') \<Longrightarrow> ctl s' = ctl s"
proof (induction n got s rule: recv_waitall.induct)
  case (1 n got s)
  then show ?case
    by (subst (asm) recv_waitall.simps)
       (auto dest: sock_recv_frame(4) split: option.splits recv_ans.splits prod.splits if_splits)
qed

text \<open>The bytes of a stream in pieces, and no end of the stream in sight.\<close>

definition pieces :: "bytes \<Rightarrow> recv_ans list \<Rightarrow> bool" where
  "pieces bs r \<longleftrightarrow> (\<exists>cs. r = map Data cs \<and> [] \<notin> set cs \<and> concat cs = bs)"

lemma pieces_pending:
  assumes "pieces bs r"
  shows "pending r = bs \<and> ending r = None"
proof -
  obtain cs where "r = map Data cs" "[] \<notin> set cs" "concat cs = bs" using assms by (auto simp: pieces_def)
  then show ?thesis by (induction cs arbitrary: r bs) auto
qed

lemma recv_waitall_pieces:
  assumes "pieces (a @ bs) (rx s)"
  obtains s' where "recv_waitall (length a) [] s = Inr (a, s')" "pieces bs (rx s')" "ctl s' = ctl s"
proof -
  obtain cs where "rx s = map Data cs @ []" "[] \<notin> set cs" "concat cs = a @ bs" using assms by (auto simp: pieces_def)
  then obtain s' cs' where "recv_waitall (length a) [] s = Inr (a, s')" "rx s' = map Data cs'" "[] \<notin> set cs'" "concat cs' = bs"
    using recv_waitall_stream [of s cs "[]" "[]" "length a"] by auto
  then show thesis using that recv_waitall_ctl by (auto simp: pieces_def)
qed

section \<open>The client library\<close>

lemma open_event_stream_works:
  assumes "dial k (dialled k) = Connects s0" "tx s0 = []" "ctl s0 = None" "pieces (enc_descriptor d @ rest) (rx s0)"
    and "wf_descriptor d" "dd_magic d = TG_DEVICE_MAGIC" "dd_version d = TG_CONTROL_VERSION" "dd_present d \<noteq> 0"
    and "conn_inv g k" "length (cstr (gp_socket_path g)) < 108"
  obtains f k' s where "open_event_stream g k =
      Inr (0, g\<lparr>gp_event_fd := f, gp_event_buffer := [], gp_state := reset_state\<rparr>, k')"
    "0 \<le> f" "k_lookup k' f = Some s" "pieces rest (rx s)"
proof -
  let ?path = "cstr (gp_socket_path g)"
  obtain f k1 k2 where so: "k_socket k = (Inr f, k1)" and co: "k_connect f ?path k1 = (None, k2)"
    and f: "0 \<le> f" "k_lookup k f = None"
    and k2: "k_lookup k2 = (k_lookup k)(f \<mapsto> s0\<lparr>peer := ?path, sent := [], nonblock := False, cloexec := True\<rparr>)"
    by (rule dial_works [OF assms(1)])
  have path: "cstr (strncpy (replicate 108 0) (gp_socket_path g) 107) = ?path"
    using assms(10) by (simp add: cstr_strncpy)
  have cs: "connect_socket (gp_socket_path g) k = (f, k2)"
    using so co path assms(10) by (simp add: connect_socket_def strlen_from_cstr)
  define s2 where "s2 = s0\<lparr>peer := ?path, sent := [], nonblock := False, cloexec := True\<rparr>"
  have s2: "k_lookup k2 f = Some s2" "tx s2 = []" using k2 assms(2) by (simp_all add: s2_def)
  obtain k3 where sc: "send_command f TG_CONTROL_QUERY_DESCRIPTOR 0 0 0 k2 = (0, k3)"
    and k3: "k_lookup k3 = (k_lookup k2)(f \<mapsto> s2\<lparr>sent := sent s2 @ enc_control (control_message TG_CONTROL_QUERY_DESCRIPTOR 0 0 0)\<rparr>)"
    by (rule send_command_works [OF s2])
  define s3 where "s3 = s2\<lparr>sent := sent s2 @ enc_control (control_message TG_CONTROL_QUERY_DESCRIPTOR 0 0 0)\<rparr>"
  have len: "length (enc_descriptor d) = 88" using assms(5) by (rule dev.length_enc)
  have "pieces (enc_descriptor d @ rest) (rx s3)" "ctl s3 = None" using assms(3,4) by (simp_all add: s3_def s2_def)
  then obtain s4 where s4: "recv_waitall 88 [] s3 = Inr (enc_descriptor d, s4)" "pieces rest (rx s4)" "ctl s4 = None"
    using len by (metis recv_waitall_pieces)
  define k4 where "k4 = k3\<lparr>fds := fd_update f s4 (fds k3)\<rparr>"
  have rc: "receive_all f 88 k3 = Inr ((0, enc_descriptor d), k4)"
    using k3 receive_loop_waitall [OF s4(1)] len by (simp add: receive_all_def on_sock_def s3_def k4_def)
  have k4: "k_lookup k4 f = Some s4" using k3 by (simp add: k4_def fdt.update_lookup)
  obtain r k5 where nb: "set_nonblocking f k4 = (r, k5)" by fastforce
  then have r: "r = 0" using k4 s4(3) by (simp add: set_nonblocking_def k_set_nonblock_def)
  note k5 = set_nonblocking_spec [OF nb k4 r]
  have dec: "dec_descriptor (enc_descriptor d) = d" using assms(5) by (rule dev.dec_enc)
  obtain g' k6 where cl: "close_event_stream g k5 = (g', k6)" by fastforce
  have g': "g' = g\<lparr>gp_event_fd := -1, gp_event_buffer := [], gp_state := reset_state\<rparr>" "k_lookup k6 f = k_lookup k5 f"
    using cl f assms(9) by (auto simp: close_event_stream_def conn_inv_def)
  have "open_event_stream g k = Inr (0, g'\<lparr>gp_event_fd := f\<rparr>, k6)"
    using cs sc rc nb r cl f(1) dec assms(6-8) by (simp add: open_event_stream_def)
  then show thesis using that [of f k6] g' f(1) k5 s4(2) by simp
qed

section \<open>The shim\<close>

lemma tg_connect_device_works:
  assumes "dial k (dialled k) = Connects s0" "tx s0 = []" "pieces (enc_descriptor d @ rest) (rx s0)"
    and "wf_descriptor d" "dd_magic d = TG_DEVICE_MAGIC" "dd_version d = TG_CONTROL_VERSION" "dd_present d \<noteq> 0"
    and "shim_inv sh k" "length (fake_fds sh) < 128" "length (cstr (default_path env None)) < 108"
  obtains f k' s where "tg_connect_device dl env flags joydev sh k = Inr (f, sh\<lparr>fake_fds := fake_fds sh @
      [\<lparr>fk_fd = f, fk_joydev = joydev, fk_initializing = joydev, fk_raw = [], fk_descriptor = d\<rparr>]\<rparr>, k')"
    "0 \<le> f" "k_lookup k f = None" "k_lookup k' f = Some s" "pieces rest (rx s)"
proof -
  let ?path = "cstr (default_path env None)"
  obtain f k1 k2 where so: "k_socket k = (Inr f, k1)" and co: "k_connect f ?path k1 = (None, k2)"
    and f: "0 \<le> f" "k_lookup k f = None"
    and k2: "k_lookup k2 = (k_lookup k)(f \<mapsto> s0\<lparr>peer := ?path, sent := [], nonblock := False, cloexec := True\<rparr>)"
    by (rule dial_works [OF assms(1)])
  have path: "cstr (tg_copy (replicate 108 0) (Some (default_path env None)) 108) = ?path"
    using assms(10) by (simp add: tg_copy_cstr)
  define s2 where "s2 = s0\<lparr>peer := ?path, sent := [], nonblock := False, cloexec := True\<rparr>"
  have s2: "k_lookup k2 f = Some s2" "tx s2 = []" using k2 assms(2) by (simp_all add: s2_def)
  obtain k3 where sc: "tg_send_control f TG_CONTROL_QUERY_DESCRIPTOR 0 0 0 k2 = (0, k3)"
    and k3: "k_lookup k3 = (k_lookup k2)(f \<mapsto> s2\<lparr>sent := sent s2 @ enc_control (control_message TG_CONTROL_QUERY_DESCRIPTOR 0 0 0)\<rparr>)"
    by (rule tg_send_control_works [OF s2])
  define s3 where "s3 = s2\<lparr>sent := sent s2 @ enc_control (control_message TG_CONTROL_QUERY_DESCRIPTOR 0 0 0)\<rparr>"
  have len: "length (enc_descriptor d) = 88" using assms(4) by (rule dev.length_enc)
  have "pieces (enc_descriptor d @ rest) (rx s3)" using assms(3) by (simp add: s3_def s2_def)
  then obtain s4 where s4: "recv_waitall 88 [] s3 = Inr (enc_descriptor d, s4)" "pieces rest (rx s4)"
    using len by (metis recv_waitall_pieces)
  define k4 where "k4 = k3\<lparr>fds := fd_update f s4 (fds k3)\<rparr>"
  have rc: "on_sock f [] (recv_waitall 88 []) k3 = Inr (enc_descriptor d, k4)"
    using k3 s4(1) by (simp add: on_sock_def s3_def k4_def)
  have k4: "k_lookup k4 f = Some s4" using k3 by (simp add: k4_def fdt.update_lookup)
  have dec: "dec_descriptor (enc_descriptor d) = d" using assms(4) by (rule dev.dec_enc)
  let ?k5 = "if flags AND TG_O_NONBLOCK \<noteq> 0 then snd (k_set_nonblock f k4) else k4"
  have "\<exists>s. k_lookup ?k5 f = Some s \<and> rx s = rx s4"
    using k4 by (auto simp: k_set_nonblock_def fdt.update_lookup split: option.splits)
  then obtain s where s: "k_lookup (k_set_cloexec f ?k5) f = Some s" "rx s = rx s4"
    by (auto simp: k_set_cloexec_def fdt.update_lookup)
  have new: "\<not> tg_is_fake_fd f sh"
    using assms(8) f(2) by (auto simp: tg_is_fake_fd_def find_fake_absent shim_inv_def)
  have "tg_connect_device dl env flags joydev sh k =
      Inr (f, tg_add_fake_fd f joydev (Some d) sh, k_set_cloexec f ?k5)"
    using so co path sc rc len dec assms(5-7,10)
    by (simp add: tg_connect_device_def tg_strlen_def strlen_from_cstr)
  then show thesis using that [of f "k_set_cloexec f ?k5" s] f new assms(9) s s4(2) by (simp add: tg_add_fake_fd_def)
qed

section \<open>A new connection at both ends\<close>

text \<open>C18: A program that connects sees the pad. Let a client of the bridge that has just connected send the descriptor query,
  and let what the bridge answers arrive in pieces of any size on a fresh connection of the program. Then the client
  library accepts the device, and draining the connection counts one report and leaves a snapshot that shows the
  pad of the bridge; and the shim accepts the device, keeps exactly the bridge's descriptor for the new
  descriptor and leaves events in the stream that show the pad.\<close>

theorem new_client_sees_pad:
  assumes "bridge_good base b" "i < 16" "0 \<le> cl_fd (slot b i)" "0 \<le> lorie_device_id b"
    and "cl_control (slot b i) = []" "cl_output (slot b i) = []" "alive b i"
    and "k_lookup (kern b) (cl_fd (slot b i)) = Some s"
    and "rx s = Data (enc_control (control_message TG_CONTROL_QUERY_DESCRIPTOR 0 0 0)) # r"
    and "b' = serve_client h POLLIN i b" "delivered b' i = delivered b i @ answer"
    and "dial k (dialled k) = Connects s0" "tx s0 = []" "ctl s0 = None" "pieces answer (rx s0)"
    and "client_inv g k" "length (cstr (gp_socket_path g)) < 108"
    and "shim_inv sh k" "length (fake_fds sh) < 128" "length (cstr (default_path env None)) < 108"
  shows "(\<exists>g1 k1 g2 k2. open_event_stream g k = Inr (0, g1, k1) \<and> read_events g1 k1 = (1, g2, k2) \<and>
      0 \<le> gp_event_fd g1 \<and> gp_event_fd g2 = gp_event_fd g1 \<and> mirrors (state b') (gp_state g2)) \<and>
    (\<exists>f sh' k' s' events. tg_connect_device dl env flags joydev sh k = Inr (f, sh', k') \<and> 0 \<le> f \<and>
      fake_at f (fake_fds sh') = Some \<lparr>fk_fd = f, fk_joydev = joydev, fk_initializing = joydev, fk_raw = [],
        fk_descriptor = device_descriptor b\<rparr> \<and>
      k_lookup k' f = Some s' \<and> pending (rx s') = concat (map enc_event events) \<and>
      mirrors (state b') (run_events reset_state events))"
proof -
  let ?d = "device_descriptor b"
  obtain events where ev: "delivered b' i = delivered b i @ enc_descriptor ?d @ concat (map enc_event events)"
    "dd_magic ?d = TG_DEVICE_MAGIC" "dd_version ?d = TG_CONTROL_VERSION" "dd_present ?d \<noteq> 0"
    "count_reports events = 1" "mirrors (state b') (run_events reset_state events)"
    using connection_answered [OF assms(1-10) refl] by blast
  let ?es = "concat (map enc_event events)"
  have p: "pieces (enc_descriptor ?d @ ?es) (rx s0)" using assms(11,15) ev(1) by simp
  have wf: "wf_descriptor ?d" using assms(1) by (simp add: bridge_inv_def device_ok_def Let_def)
  have inv: "conn_inv g k" using assms(16) by (simp add: client_inv_def)
  obtain f k1 s1 where open_ok: "open_event_stream g k =
      Inr (0, g\<lparr>gp_event_fd := f, gp_event_buffer := [], gp_state := reset_state\<rparr>, k1)"
    and c: "0 \<le> f" "k_lookup k1 f = Some s1" "pieces ?es (rx s1)"
    by (rule open_event_stream_works [OF assms(12-14) p wf ev(2-4) inv assms(17)])
  let ?g1 = "g\<lparr>gp_event_fd := f, gp_event_buffer := [], gp_state := reset_state\<rparr>"
  obtain n g2 k2 where rd: "read_events ?g1 k1 = (n, g2, k2)" by (metis prod_cases3)
  have st: "event_stream ?g1 s1 = ?es @ []" "ending (rx s1) = None"
    using pieces_pending [OF c(3)] by (simp_all add: event_stream_def)
  have "n = 1 \<and> g2 = ?g1\<lparr>gp_state := run_events reset_state events, gp_event_buffer := []\<rparr>"
    using read_events_spec [of ?g1 k1 s1 n g2 k2, OF _ _ rd] c(2) ev(5)
      stream_events_encoded [of "[]" events] leftover_encoded [of "[]" events]
    unfolding st by (simp add: stays_open_def loop_result_def)
  then have client: "\<exists>g1 k1 g2 k2. open_event_stream g k = Inr (0, g1, k1) \<and> read_events g1 k1 = (1, g2, k2) \<and>
      0 \<le> gp_event_fd g1 \<and> gp_event_fd g2 = gp_event_fd g1 \<and> mirrors (state b') (gp_state g2)"
    using rd c(1) ev(6) by (intro exI conjI) (rule open_ok, auto)
  obtain f' k' s' where sc: "tg_connect_device dl env flags joydev sh k = Inr (f', sh\<lparr>fake_fds := fake_fds sh @
      [\<lparr>fk_fd = f', fk_joydev = joydev, fk_initializing = joydev, fk_raw = [], fk_descriptor = ?d\<rparr>]\<rparr>, k')"
    and s': "0 \<le> f'" "k_lookup k f' = None" "k_lookup k' f' = Some s'" "pieces ?es (rx s')"
    by (rule tg_connect_device_works [OF assms(12,13) p wf ev(2-4) assms(18-20)])
  have "f' \<notin> fk_fd ` set (fake_fds sh)" "distinct (map fk_fd (fake_fds sh))"
    using assms(18) s'(2) by (auto simp: shim_inv_def wf_fakes_def)
  then have "fake_at f' (fake_fds sh @ [\<lparr>fk_fd = f', fk_joydev = joydev, fk_initializing = joydev, fk_raw = [],
      fk_descriptor = ?d\<rparr>]) = Some \<lparr>fk_fd = f', fk_joydev = joydev, fk_initializing = joydev, fk_raw = [], fk_descriptor = ?d\<rparr>"
    by (subst fake_at_Some) auto
  with client sc s' pieces_pending [OF s'(4)] ev(6) show ?thesis by fastforce
qed

text \<open>The answer of a bridge with a controller, arriving byte by byte.\<close>

definition hz_bridge :: bridge where
  "hz_bridge = ez_plugged (control_message TG_CONTROL_QUERY_DESCRIPTOR 0 0 0)"

definition hz_sock :: sock where
  "hz_sock = blank_sock\<lparr>rx := map (\<lambda>x. Data [x]) (delivered (serve_client ez_host POLLIN 0 hz_bridge) 0)\<rparr>"

definition hz_kernel :: kernel where
  "hz_kernel = \<lparr>fds = [], dial = (\<lambda>_. Connects hz_sock), dialled = 0\<rparr>"

lemma pieces_bytes: "pieces bs (map (\<lambda>x. Data [x]) bs)"
  unfolding pieces_def by (intro exI [of _ "map (\<lambda>x. [x]) bs"]) (induction bs, auto)

lemma hz_bridge_facts:
  "slot hz_bridge 0 = unused_client\<lparr>cl_fd := 0\<rparr>" "lorie_device_id hz_bridge = 2"
  "device_descriptor hz_bridge = new_descriptor 2 ez_reply []"
  "k_lookup (kern hz_bridge) 0 = Some (ez_sock (control_message TG_CONTROL_QUERY_DESCRIPTOR 0 0 0))"
  "alive hz_bridge 0" "delivered hz_bridge 0 = []" "state (serve_client ez_host POLLIN 0 hz_bridge) = zero_state"
proof -
  show s: "slot hz_bridge 0 = unused_client\<lparr>cl_fd := 0\<rparr>" by (simp add: hz_bridge_def ez_plugged_slot)
  show d: "lorie_device_id hz_bridge = 2" "device_descriptor hz_bridge = new_descriptor 2 ez_reply []"
    by (simp_all add: hz_bridge_def ez_plugged_def)
  show k: "k_lookup (kern hz_bridge) 0 = Some (ez_sock (control_message TG_CONTROL_QUERY_DESCRIPTOR 0 0 0))"
    by (simp add: hz_bridge_def ez_plugged_lookup)
  show "alive hz_bridge 0" "delivered hz_bridge 0 = []"
    by (simp_all add: alive_def delivered_def s k ez_sock_def blank_sock_def unused_client_def)
  have "state hz_bridge = zero_state" by (simp add: hz_bridge_def ez_plugged_def ez_pad)
  then show "state (serve_client ez_host POLLIN 0 hz_bridge) = zero_state"
    using static_serve [of ez_host POLLIN 0 hz_bridge] by (simp add: static_def)
qed

theorem new_client_sees_pad_witness:
  "\<exists>g1 k1 g2 k2. open_event_stream (initial_handle (lit ''/s'')) hz_kernel = Inr (0, g1, k1) \<and>
     read_events g1 k1 = (1, g2, k2) \<and> mirrors zero_state (gp_state g2)"
proof -
  have good: "bridge_good (\<lambda>_. None) hz_bridge" unfolding hz_bridge_def by (rule ez_plugged_good)
  have path: "length (cstr (gp_socket_path (initial_handle (lit ''/s'')))) < 108"
    "length (cstr (default_path (\<lambda>_. None) None)) < 108"
    by (simp_all add: initial_handle_def lit_def default_path_def TG_DEFAULT_SOCKET_def)
  have dial: "dial hz_kernel (dialled hz_kernel) = Connects hz_sock" "tx hz_sock = []" "ctl hz_sock = None"
    "pieces (delivered (serve_client ez_host POLLIN 0 hz_bridge) 0) (rx hz_sock)"
    by (simp_all add: hz_kernel_def hz_sock_def blank_sock_def pieces_bytes)
  let ?s = "ez_sock (control_message TG_CONTROL_QUERY_DESCRIPTOR 0 0 0)"
  have b: "0 \<le> cl_fd (slot hz_bridge 0)" "0 \<le> lorie_device_id hz_bridge" "cl_control (slot hz_bridge 0) = []"
    "cl_output (slot hz_bridge 0) = []" "k_lookup (kern hz_bridge) (cl_fd (slot hz_bridge 0)) = Some ?s"
    "rx ?s = Data (enc_control (control_message TG_CONTROL_QUERY_DESCRIPTOR 0 0 0)) # []"
    "delivered (serve_client ez_host POLLIN 0 hz_bridge) 0 = delivered hz_bridge 0 @ delivered (serve_client ez_host POLLIN 0 hz_bridge) 0"
    using hz_bridge_facts by (simp_all add: ez_sock_def unused_client_def)
  have "(0 :: nat) < 16" "length (fake_fds shim_loaded) < 128" by (simp_all add: shim_loaded_def)
  then show ?thesis
    using new_client_sees_pad [OF good _ b(1-4) hz_bridge_facts(5) b(5,6) refl b(7) dial client_inv_initial path(1)
        shim_inv_loaded _ path(2)]
    unfolding hz_bridge_facts(7) by blast
qed

end
