(* ===== verification/Spec2Isabelle.thy ===== *)
theory Spec2Isabelle
  imports GamepadProps ShimProps BridgeProps EndToEnd UdevProps ShimBridge Handshake
begin

text \<open>
  A verification library for termux-gamepad: the C programs under \<open>src/src\<close> that bring a game controller
  known to an X server into programs that expect Linux evdev, joystick or udev devices.

  THE PROGRAM. A daemon, the bridge (\<open>lorie_evdev_bridge.c\<close>), listens to XI2 events and to the
  LORIE-CONTROLLER extension of the X server and serves a Unix socket. A connection to it becomes an event
  stream (24 byte evdev events, after an 88 byte device descriptor), or a monitor (96 byte hotplug
  messages); in both directions messages are C structs (\<open>tg_evdev_protocol.h\<close>). Control messages of 16 bytes ask
  for the descriptor, for monitoring and for rumble. Three libraries are its clients:
  \<^item> \<open>termux_gamepad.c\<close>, a library with a handle that keeps a snapshot of the pad;
  \<^item> \<open>evdev_preload.c\<close>, an LD_PRELOAD shim that makes three device nodes appear to exist: opening one
    connects to the bridge, \<open>ioctl\<close>, \<open>read\<close>, \<open>write\<close>, \<open>stat\<close> and \<open>close\<close> emulate evdev and joydev on it;
  \<^item> \<open>libudev_fake.c\<close>, a libudev with one controller, which asks the bridge whether it is there.

  THEORIES AND SOURCES. Definitions bear the names of the C functions; a loop of a function is a recursive
  function of its own (\<open>send_loop\<close>, \<open>event_loop\<close>, \<open>rumble_scan\<close>, ...).
  \<^item> \<open>Prelude\<close>: machine types, strings, memory images, calls that may not return, the locale
    \<open>transition_system\<close>. \<open>TgCommon\<close>: \<open>tg_common.h\<close>. \<open>Protocol\<close>: \<open>tg_evdev_protocol.h\<close>, with the locale of
    exact formats, interpreted for every message. \<open>Kernel\<close>: descriptor tables (locale \<open>fd_table\<close>) and
    stream sockets.
  \<^item> \<open>GamepadState\<close>, \<open>GamepadClient\<close>: \<open>termux_gamepad.c\<close>. \<open>GamepadInvariant\<close>, \<open>GamepadTransfer\<close>: the
    invariant of a handle, and what is sent and received. \<open>GamepadProps\<close>: its properties.
  \<^item> \<open>ShimState\<close>, \<open>ShimCalls\<close>: \<open>evdev_preload.c\<close>. \<open>ShimInvariant\<close>, \<open>ShimSystem\<close>: the tables of fake
    descriptors and effects, every intercepted call as a step. \<open>ShimProps\<close>: its properties.
  \<^item> \<open>BridgeState\<close>, \<open>BridgeCalls\<close>, \<open>BridgeInput\<close>, \<open>BridgeMain\<close>: \<open>lorie_evdev_bridge.c\<close> and
    \<open>lorie_controller_proto.h\<close>. \<open>BridgeInvariant\<close>, \<open>BridgeSystem\<close>: slots, descriptors, pad and device, and
    the turns of the loop as steps. \<open>BridgeDelivery\<close>: what clients receive. \<open>BridgeRumble\<close>: arbitration
    against its specification. \<open>BridgeHotplug\<close>: what monitors should be told, from the answers of the X
    server and what the daemon remembers alone, and the proof that they are. \<open>BridgeProps\<close>: its properties.
  \<^item> \<open>UdevState\<close>, \<open>UdevCalls\<close>: \<open>libudev_fake.c\<close>. \<open>UdevSystem\<close>: its calls as steps. \<open>UdevProps\<close>: its properties
    and the agreement with the shim.
  \<^item> \<open>Mirror\<close>, \<open>EndToEnd\<close>: bridge and client library together. \<open>mirrors\<close> relates the pad inside the bridge
    to the snapshot of a program; every XI2 event keeps it, a new connection establishes it. \<open>Handshake\<close>: both
    ends of a new connection run against each other. \<open>ShimBridge\<close>: the codes of the bridge against the bits
    the shim advertises and the events it delivers.

  THE MODEL. Statics and handles are records, passed and returned; a pointer into a static array is an index.
  Machine integers are words where they can wrap, \<open>int\<close> and \<open>nat\<close> where the invariants show that they cannot.
  Outside behaviour is data or a parameter, so that a theorem for all of it covers every behaviour:
  a socket carries the answers its future calls get (pieces of any size, errors, ends of stream);
  \<open>libc\<close> gives the real functions behind the shim, \<open>host\<close> the clock and the answers of Xlib and the X
  server, \<open>round\<close> what \<open>poll\<close>, \<open>accept\<close> and the X queue deliver in one turn of the bridge's loop, \<open>env\<close> the
  environment. A signal that stops the bridge is the end of the list of rounds. A \<open>double\<close> of XI2 is a
  dyadic number. Blocking calls that get no answer are \<open>Inl Blocks\<close>, a call through a null function pointer is
  \<open>Inl NullCall\<close>.

  TERMINATION AND FUEL. All loops but one are total functions with a measure (the bytes still to send, what is
  pending on a socket, the parser's buffer). \<open>refresh_loop\<close> has fuel, because it can reconnect on
  its way; \<open>update_terminates\<close> and its lemmas show that what \<open>refresh\<close> gives it is enough whenever the bridge
  answers handshakes.

  WHAT THE PROPERTIES SHOW. In the order of the list of properties: the end-to-end refinement from XI2 events
  to the snapshot and from a rumble call to the X request; the invariants of the four programs; delivery,
  hotplug, arbitration and shutdown of the bridge; that nothing leaks descriptors; handshakes,
  event streams, hotplug and termination of the client library; that what the bridge answers a new
  connection is accepted by the client library and the shim and shows the pad; the shim's effects, buffers, capabilities, joystick
  interface and transparency; the fake libudev's scans and monitor. The last ones are about behaviour
  a user would not expect: a stale poll result that closes a new client, an unplugged controller whose
  buttons stay pressed for evdev clients, a joystick trigger that wraps, a joystick read that waits
  for a full buffer, a first \<open>open\<close> without its fallback, a monitor whose references do not count.

  NOT MODELLED. The test programs (\<open>test_*.c\<close>, \<open>event_server.c\<close>), packaging and scripts; log output and usage
  messages; the signal handler and the memory layout of the structures of Xlib.
  Overflow of reference counters after two thousand million calls; calls of one library from several
  threads at once, which the C code does not guard against either.
\<close>

end
